(* ===== verification/SaveSync_Prelude.thy ===== *)
theory SaveSync_Prelude
  imports Main
begin

text \<open>
  Shared vocabulary of the Save Sync development: the error values that stand for
  JavaScript exceptions and rejected promises, the sequencing operator that
  stops at the first error, a map over lists that stops at the first error
  (the behaviour of \<^verbatim>\<open>Array.prototype.map\<close> with a throwing callback), and
  the generic facts about them that the component theories use.

  Collections:
  \<^item> \<open>js_simps\<close>: unfolding equations of the JavaScript runtime operations;
  \<^item> \<open>model_defs\<close>: definitions of the plugin's own operations, unfolded when a
    proof has to look inside one of them;
  \<^item> \<open>frame_simps\<close>: facts saying which part of the state an operation leaves
    untouched.
\<close>

section \<open>Collections\<close>

named_theorems js_simps "equations of the JavaScript runtime model"
named_theorems model_defs "definitions of the plugin's operations"
named_theorems frame_simps "state components an operation does not change"

section \<open>Errors as values\<close>

text \<open>
  \<open>LoadError\<close> is the rejection of \<^verbatim>\<open>StorageManager.loadObject\<close>; \<open>TypeError\<close> is what
  JavaScript throws when a property of \<^verbatim>\<open>undefined\<close> or \<^verbatim>\<open>null\<close> is read or called.
\<close>

datatype error = LoadError | TypeError

type_synonym 'a result = "error + 'a"

definition bindR :: "'e + 'a \<Rightarrow> ('a \<Rightarrow> 'e + 'b) \<Rightarrow> 'e + 'b" where
  "bindR m f = (case m of Inl e \<Rightarrow> Inl e | Inr x \<Rightarrow> f x)"

fun mapR :: "('a \<Rightarrow> 'e + 'b) \<Rightarrow> 'a list \<Rightarrow> 'e + 'b list" where
  "mapR f [] = Inr []"
| "mapR f (x # xs) = bindR (f x) (\<lambda>y. bindR (mapR f xs) (\<lambda>ys. Inr (y # ys)))"

definition ok :: "'e + 'a \<Rightarrow> bool" where
  "ok m = (\<not> isl m)"

section \<open>Sequencing\<close>

lemma bindR_Inl [simp]: "bindR (Inl e) f = Inl e"
  by (simp add: bindR_def)

lemma bindR_Inr [simp]: "bindR (Inr x) f = f x"
  by (simp add: bindR_def)

lemma bindR_eq_Inr_iff: "bindR m f = Inr y \<longleftrightarrow> (\<exists>x. m = Inr x \<and> f x = Inr y)"
  by (cases m) simp_all

lemma bindR_eq_Inl_iff:
  "bindR m f = Inl e \<longleftrightarrow> m = Inl e \<or> (\<exists>x. m = Inr x \<and> f x = Inl e)"
  by (cases m) simp_all

lemma bindR_assoc: "bindR (bindR m f) g = bindR m (\<lambda>x. bindR (f x) g)"
  by (cases m) simp_all

lemma bindR_return [simp]: "bindR m Inr = m"
  by (cases m) simp_all

lemma ok_simps [simp]: "ok (Inr x)" "\<not> ok (Inl e)"
  by (simp_all add: ok_def)

lemma ok_iff: "ok m \<longleftrightarrow> (\<exists>x. m = Inr x)"
  by (cases m) simp_all

lemma not_ok_iff: "\<not> ok m \<longleftrightarrow> (\<exists>e. m = Inl e)"
  by (cases m) simp_all

lemma ok_bindR: "ok (bindR m f) \<longleftrightarrow> (\<exists>x. m = Inr x \<and> ok (f x))"
  by (cases m) simp_all

section \<open>Mapping with failure\<close>

lemma mapR_eq_Inr_iff:
  "mapR f xs = Inr ys \<longleftrightarrow> list_all2 (\<lambda>x y. f x = Inr y) xs ys"
proof (induction xs arbitrary: ys)
  case Nil
  show ?case by auto
next
  case (Cons x xs)
  show ?case
    by (cases ys) (auto simp: bindR_eq_Inr_iff Cons.IH)
qed

lemma mapR_length: "mapR f xs = Inr ys \<Longrightarrow> length ys = length xs"
  by (simp add: mapR_eq_Inr_iff list_all2_lengthD)

lemma mapR_nth:
  "mapR f xs = Inr ys \<Longrightarrow> i < length xs \<Longrightarrow> f (xs ! i) = Inr (ys ! i)"
  by (auto simp: mapR_eq_Inr_iff dest: list_all2_nthD)

lemma mapR_total [simp]: "mapR (\<lambda>x. Inr (g x)) xs = Inr (map g xs)"
  by (induction xs) simp_all

lemma mapR_cong_Inr:
  "(\<And>x. x \<in> set xs \<Longrightarrow> f x = Inr (g x)) \<Longrightarrow> mapR f xs = Inr (map g xs)"
  by (induction xs) simp_all

lemma ok_mapR_Cons: "ok (mapR f (x # xs)) \<longleftrightarrow> ok (f x) \<and> ok (mapR f xs)"
  by (cases "f x"; cases "mapR f xs") simp_all

lemma ok_mapR_iff: "ok (mapR f xs) \<longleftrightarrow> (\<forall>x \<in> set xs. ok (f x))"
  by (induction xs) (simp_all add: ok_mapR_Cons del: mapR.simps(2))

lemma mapR_fails_iff: "(\<exists>e. mapR f xs = Inl e) \<longleftrightarrow> (\<exists>x \<in> set xs. \<exists>e. f x = Inl e)"
  using ok_mapR_iff [of f xs] by (simp add: not_ok_iff [symmetric])

lemma mapR_append:
  "mapR f (xs @ ys) =
     bindR (mapR f xs) (\<lambda>us. bindR (mapR f ys) (\<lambda>vs. Inr (us @ vs)))"
proof (induction xs)
  case Nil
  show ?case by simp
next
  case (Cons x xs)
  show ?case
    by (cases "f x"; cases "mapR f xs"; cases "mapR f ys") (simp_all add: Cons.IH)
qed

lemma mapR_map: "mapR f (map h xs) = mapR (f \<circ> h) xs"
  by (induction xs) simp_all

section \<open>Lists and options\<close>

lemma length_take_min: "length (take n xs) = min n (length xs)"
  by simp

lemma take_all_iff_le: "take n xs = xs \<longleftrightarrow> length xs \<le> n"
  by (rule take_all_iff)

lemma nth_append_replicate_None:
  "i < length xs + n \<Longrightarrow> length xs \<le> i \<Longrightarrow> (xs @ replicate n None) ! i = None"
  by (simp add: nth_append)

lemma option_neq_None_iff: "x \<noteq> None \<longleftrightarrow> (\<exists>y. x = Some y)"
  by (cases x) simp_all

end
