(* ===== verification/JS_Runtime.thy ===== *)
theory JS_Runtime
  imports Complex_Main "HOL-Library.Signed_Division" SaveSync_Prelude
begin

text \<open>
  The part of the JavaScript runtime that the plugin relies on, written out so
  that nothing is left to the totality of HOL functions:

  \<^item> sparse arrays (\<open>js_get\<close>, \<open>js_set\<close>, \<open>js_delete\<close>): the global info is a
    JavaScript array whose cells are objects, \<^verbatim>\<open>null\<close> or holes. A cell is
    \<open>Some e\<close> for an object and \<open>None\<close> for anything falsy; reading past the end
    yields \<^verbatim>\<open>undefined\<close> (\<open>None\<close>), writing past the end extends the array with
    holes, \<^verbatim>\<open>delete\<close> leaves a hole and keeps the length;
  \<^item> \<open>js_slice0\<close>: \<^verbatim>\<open>xs.slice(0, e)\<close>, where a negative end counts from the back;
  \<^item> numbers that are integers or \<^verbatim>\<open>NaN\<close> (\<open>jsnum\<close>), the conversion of a
    possibly absent field (\<open>to_number\<close>), \<^verbatim>\<open>String(x)\<close> (\<open>String_of\<close>),
    \<^verbatim>\<open>padStart\<close> and the engine's \<^verbatim>\<open>padZero\<close>;
  \<^item> \<open>parse_nat\<close>, a reference decoder of decimal numerals, used only to state
    round trips.

  Numbers are exact integers here. Theory \<open>JS_Double\<close> repeats the arithmetic
  of the plugin in binary64 and proves that it agrees for magnitudes up to
  \<open>2^53\<close>, which a frame counter at 60 frames per second reaches after more
  than four million years. Theory \<open>Index_Cells\<close> does the same for arrays
  that hold \<^verbatim>\<open>null\<close> besides holes and objects.
\<close>

section \<open>Definitions\<close>

subsection \<open>Sparse arrays\<close>

type_synonym 'a js_array = "'a option list"

definition js_get :: "'a js_array \<Rightarrow> nat \<Rightarrow> 'a option" where
  "js_get xs i = (if i < length xs then xs ! i else None)"

definition js_set :: "'a js_array \<Rightarrow> nat \<Rightarrow> 'a \<Rightarrow> 'a js_array" where
  "js_set xs i v =
     (if i < length xs then xs[i := Some v]
      else xs @ replicate (i - length xs) None @ [Some v])"

definition js_delete :: "'a js_array \<Rightarrow> nat \<Rightarrow> 'a js_array" where
  "js_delete xs i = (if i < length xs then xs[i := None] else xs)"

definition js_slice0 :: "'a list \<Rightarrow> int \<Rightarrow> 'a list" where
  "js_slice0 xs e =
     (if e < 0 then take (nat (int (length xs) + e)) xs else take (nat e) xs)"

subsection \<open>Numbers and their decimal form\<close>

datatype jsnum = JInt int | JNaN

definition to_number :: "int option \<Rightarrow> jsnum" where
  "to_number v = (case v of None \<Rightarrow> JNaN | Some n \<Rightarrow> JInt n)"

definition jsnum_map :: "(int \<Rightarrow> int) \<Rightarrow> jsnum \<Rightarrow> jsnum" where
  "jsnum_map f x = (case x of JNaN \<Rightarrow> JNaN | JInt a \<Rightarrow> JInt (f a))"

definition digit_char :: "nat \<Rightarrow> char" where
  "digit_char d = ''0123456789'' ! d"

fun digits10 :: "nat \<Rightarrow> string" where
  "digits10 n =
     (if n < 10 then [digit_char n] else digits10 (n div 10) @ [digit_char (n mod 10)])"

definition String_of :: "jsnum \<Rightarrow> string" where
  "String_of x =
     (case x of
        JNaN \<Rightarrow> ''NaN''
      | JInt a \<Rightarrow> (if a < 0 then CHR ''-'' # digits10 (nat (- a)) else digits10 (nat a)))"

definition padStart :: "string \<Rightarrow> nat \<Rightarrow> char \<Rightarrow> string" where
  "padStart s n c = replicate (n - length s) c @ s"

definition padZero :: "jsnum \<Rightarrow> nat \<Rightarrow> string" where
  "padZero x n = padStart (String_of x) n CHR ''0''"

subsection \<open>Reference decoder\<close>

definition digit_val :: "char \<Rightarrow> nat option" where
  "digit_val c = map_of (zip ''0123456789'' [0, 1, 2, 3, 4, 5, 6, 7, 8, 9]) c"

fun parse_nat_acc :: "nat \<Rightarrow> string \<Rightarrow> nat option" where
  "parse_nat_acc acc [] = Some acc"
| "parse_nat_acc acc (c # cs) =
     (case digit_val c of None \<Rightarrow> None | Some d \<Rightarrow> parse_nat_acc (10 * acc + d) cs)"

definition parse_nat :: "string \<Rightarrow> nat option" where
  "parse_nat s = (if s = [] then None else parse_nat_acc 0 s)"

definition is_digit :: "char \<Rightarrow> bool" where
  "is_digit c = (digit_val c \<noteq> None)"

section \<open>Sparse arrays: reads after writes\<close>

lemmas js_array_defs = js_get_def js_set_def js_delete_def

lemma js_get_Nil [simp]: "js_get [] i = None"
  by (simp add: js_get_def)

lemma js_get_beyond: "length xs \<le> i \<Longrightarrow> js_get xs i = None"
  by (simp add: js_get_def)

lemma js_get_Some_less: "js_get xs i = Some v \<Longrightarrow> i < length xs"
  by (simp add: js_get_def split: if_splits)

lemma length_js_set: "length (js_set xs i v) = max (length xs) (Suc i)"
  by (simp add: js_set_def)

lemma length_js_delete [simp]: "length (js_delete xs i) = length xs"
  by (simp add: js_delete_def)

lemma length_js_set_ge: "length xs \<le> length (js_set xs i v)"
  by (simp add: length_js_set)

lemma js_get_js_set: "js_get (js_set xs i v) j = (if j = i then Some v else js_get xs j)"
  by (auto simp: js_array_defs nth_append)

lemma js_get_js_delete: "js_get (js_delete xs i) j = (if j = i then None else js_get xs j)"
  by (auto simp: js_array_defs)

lemma js_get_js_set_same [simp]: "js_get (js_set xs i v) i = Some v"
  by (simp add: js_get_js_set)

lemma js_get_js_delete_same [simp]: "js_get (js_delete xs i) i = None"
  by (simp add: js_get_js_delete)

lemma js_get_js_set_other [simp]: "j \<noteq> i \<Longrightarrow> js_get (js_set xs i v) j = js_get xs j"
  by (simp add: js_get_js_set)

lemma js_get_js_delete_other [simp]: "j \<noteq> i \<Longrightarrow> js_get (js_delete xs i) j = js_get xs j"
  by (simp add: js_get_js_delete)

text \<open>The array read as a partial map: writes and deletes are map updates.\<close>

lemma js_get_js_set_map: "js_get (js_set xs i v) = (js_get xs)(i \<mapsto> v)"
  by (rule ext) (simp add: js_get_js_set)

lemma js_get_js_delete_map: "js_get (js_delete xs i) = (js_get xs)(i := None)"
  by (rule ext) (simp add: js_get_js_delete)

lemma dom_js_get_subset: "dom (js_get xs) \<subseteq> {..<length xs}"
  by (auto dest: js_get_Some_less)

lemma finite_dom_js_get [simp]: "finite (dom (js_get xs))"
  by (rule finite_subset [OF dom_js_get_subset]) simp

lemma js_delete_absent: "js_get xs i = None \<Longrightarrow> js_delete xs i = xs"
  by (auto simp: js_array_defs list_update_same_conv)

lemma js_delete_idem [simp]: "js_delete (js_delete xs i) i = js_delete xs i"
  by (simp add: js_delete_absent)

lemma js_array_eqI:
  "length xs = length ys \<Longrightarrow> (\<And>i. js_get xs i = js_get ys i) \<Longrightarrow> xs = ys"
  by (rule nth_equalityI) (simp_all add: js_get_def split: if_splits, metis)

section \<open>Slices\<close>

lemma js_slice0_nonneg: "0 \<le> e \<Longrightarrow> js_slice0 xs e = take (nat e) xs"
  by (simp add: js_slice0_def)

lemma length_js_slice0_nonneg: "0 \<le> e \<Longrightarrow> length (js_slice0 xs e) = min (nat e) (length xs)"
  by (simp add: js_slice0_def)

lemma length_js_slice0_le: "length (js_slice0 xs e) \<le> length xs"
  by (auto simp: js_slice0_def)

lemma js_slice0_prefix: "\<exists>ys. xs = js_slice0 xs e @ ys"
  by (metis append_take_drop_id js_slice0_def)

lemma js_slice0_nth: "i < length (js_slice0 xs e) \<Longrightarrow> js_slice0 xs e ! i = xs ! i"
  by (simp add: js_slice0_def split: if_splits)

lemma js_slice0_all: "int (length xs) \<le> e \<Longrightarrow> js_slice0 xs e = xs"
  by (simp add: js_slice0_def)

section \<open>Decimal numerals\<close>

declare digits10.simps [simp del]

lemma digits10_small: "n < 10 \<Longrightarrow> digits10 n = [digit_char n]"
  by (subst digits10.simps) simp

lemma digits10_large:
  "10 \<le> n \<Longrightarrow> digits10 n = digits10 (n div 10) @ [digit_char (n mod 10)]"
  by (subst digits10.simps) simp

lemma digits10_nonempty [simp]: "digits10 n \<noteq> []"
  by (subst digits10.simps) simp

lemma length_digits10_pos [simp]: "0 < length (digits10 n)"
  by simp

lemma digit_val_digit_char: "d < 10 \<Longrightarrow> digit_val (digit_char d) = Some d"
proof -
  assume "d < 10"
  then have "d \<in> {0, 1, 2, 3, 4, 5, 6, 7, 8, 9}" by auto
  then show ?thesis
    by (auto simp: digit_val_def digit_char_def)
qed

lemma is_digit_digit_char: "d < 10 \<Longrightarrow> is_digit (digit_char d)"
  by (simp add: is_digit_def digit_val_digit_char)

lemma digits10_digits: "c \<in> set (digits10 n) \<Longrightarrow> is_digit c"
proof (induction n rule: digits10.induct)
  case (1 n)
  show ?case
  proof (cases "n < 10")
    case True
    with "1.prems" show ?thesis
      by (simp add: digits10_small is_digit_digit_char)
  next
    case False
    with "1.prems" "1.IH" show ?thesis
      by (auto simp: digits10_large is_digit_digit_char)
  qed
qed

lemma length_digits10_le_iff: "0 < k \<Longrightarrow> length (digits10 n) \<le> k \<longleftrightarrow> n < 10 ^ k"
proof (induction n arbitrary: k rule: digits10.induct)
  case (1 n)
  show ?case
  proof (cases "n < 10")
    case True
    have "(10::nat) ^ 1 \<le> 10 ^ k"
      using "1.prems" by (intro power_increasing) simp_all
    with True "1.prems" show ?thesis
      by (simp add: digits10_small Suc_le_eq)
  next
    case False
    show ?thesis
    proof (cases k)
      case 0
      with "1.prems" show ?thesis by simp
    next
      case (Suc j)
      show ?thesis
      proof (cases "j = 0")
        case True
        with False Suc show ?thesis
          by (simp add: digits10_large)
      next
        case j: False
        with "1.IH" [of j] False
        have "length (digits10 (n div 10)) \<le> j \<longleftrightarrow> n div 10 < 10 ^ j"
          by simp
        moreover have "n div 10 < 10 ^ j \<longleftrightarrow> n < 10 ^ Suc j"
          by (simp add: less_mult_imp_div_less div_less_iff_less_mult mult.commute)
        ultimately show ?thesis
          using False Suc by (simp add: digits10_large)
      qed
    qed
  qed
qed

lemma length_digits10_lt100: "n < 100 \<Longrightarrow> length (digits10 n) \<le> 2"
  using length_digits10_le_iff [of 2 n] by simp

lemma parse_nat_acc_append:
  "parse_nat_acc a (xs @ ys) =
     (case parse_nat_acc a xs of None \<Rightarrow> None | Some b \<Rightarrow> parse_nat_acc b ys)"
  by (induction xs arbitrary: a) (simp_all split: option.splits)

lemma parse_nat_acc_digits10: "parse_nat_acc a (digits10 n) = Some (a * 10 ^ length (digits10 n) + n)"
proof (induction n arbitrary: a rule: digits10.induct)
  case (1 n)
  show ?case
  proof (cases "n < 10")
    case True
    then show ?thesis
      by (simp add: digits10_small digit_val_digit_char)
  next
    case False
    with "1.IH" [of a] show ?thesis
      by (simp add: digits10_large parse_nat_acc_append digit_val_digit_char algebra_simps)
  qed
qed

lemma parse_nat_digits10 [simp]: "parse_nat (digits10 n) = Some n"
  by (simp add: parse_nat_def parse_nat_acc_digits10)

lemma parse_nat_acc_replicate_zero:
  "parse_nat_acc 0 (replicate k CHR ''0'' @ s) = parse_nat_acc 0 s"
  by (induction k) (simp_all add: digit_val_def)

section \<open>Number formatting\<close>

lemma to_number_simps [simp]:
  "to_number None = JNaN" "to_number (Some n) = JInt n"
  by (simp_all add: to_number_def)

lemma jsnum_map_simps [simp]:
  "jsnum_map f JNaN = JNaN" "jsnum_map f (JInt a) = JInt (f a)"
  by (simp_all add: jsnum_map_def)

lemma String_of_NaN [simp]: "String_of JNaN = ''NaN''"
  by (simp add: String_of_def)

lemma String_of_nonneg: "0 \<le> a \<Longrightarrow> String_of (JInt a) = digits10 (nat a)"
  by (simp add: String_of_def)

lemma String_of_neg: "a < 0 \<Longrightarrow> String_of (JInt a) = CHR ''-'' # digits10 (nat (- a))"
  by (simp add: String_of_def)

lemma String_of_nonempty [simp]: "String_of x \<noteq> []"
  by (simp add: String_of_def split: jsnum.splits)

lemma length_padStart [simp]: "length (padStart s n c) = max n (length s)"
  by (simp add: padStart_def)

lemma padStart_long: "n \<le> length s \<Longrightarrow> padStart s n c = s"
  by (simp add: padStart_def)

lemma length_padZero: "length (padZero x n) = max n (length (String_of x))"
  by (simp add: padZero_def)

lemma padZero_NaN [simp]: "padZero JNaN 2 = ''NaN''"
  by (simp add: padZero_def padStart_def)

lemma padZero_nonneg:
  "0 \<le> a \<Longrightarrow>
   padZero (JInt a) n = replicate (n - length (digits10 (nat a))) CHR ''0'' @ digits10 (nat a)"
  by (simp add: padZero_def padStart_def String_of_nonneg)

lemma length_padZero_two: "0 \<le> a \<Longrightarrow> a < 100 \<Longrightarrow> length (padZero (JInt a) 2) = 2"
  using length_digits10_lt100 [of "nat a"]
  by (auto simp: length_padZero String_of_nonneg max_def)

lemma is_digit_zero [simp]: "is_digit CHR ''0''"
  by (simp add: is_digit_def digit_val_def)

lemma padZero_digits: "0 \<le> a \<Longrightarrow> c \<in> set (padZero (JInt a) n) \<Longrightarrow> is_digit c"
  by (auto simp: padZero_nonneg dest: digits10_digits)

lemma parse_nat_padZero: "0 \<le> a \<Longrightarrow> parse_nat (padZero (JInt a) n) = Some (nat a)"
  by (simp add: padZero_nonneg parse_nat_def parse_nat_acc_replicate_zero parse_nat_acc_digits10)

lemmas [js_simps] =
  js_get_def js_set_def js_delete_def js_slice0_def String_of_def padZero_def padStart_def

end
