(* ===== verification/Index_Reconciler.thy ===== *)
theory Index_Reconciler
  imports JS_Runtime
begin

text \<open>
  \<^verbatim>\<open>DataManager.updateGlobalInfo\<close>: the pass over the savefile ids
  \<open>0 \<dots> maxSavefiles()\<close> that inserts an entry where a save file has none and
  deletes the entry where there is no save file.

  The pass treats entries as opaque and only calls the function that makes a
  missing one, so it is modelled over a type variable \<open>'e\<close> of entries and a
  type variable \<open>'r\<close> of whatever that function changes: a \<open>synthesiser\<close>
  takes the savefile id and the current \<open>'r\<close> and returns the new \<open>'r\<close> with
  either the entry or the error its promise is rejected with. The lemmas of this
  theory hold for every synthesiser; theory \<open>Index_Loader\<close> instantiates it with
  \<^verbatim>\<open>McKathlin.SaveSync.makeMissingSaveInfo\<close>.

  \<^item> \<open>updateGlobalInfo_slot\<close> is the body of the \<^verbatim>\<open>for\<close> loop for one id;
  \<^item> \<open>updateGlobalInfo_loop\<close> is the loop from a given id, with the array, the
    synthesiser's state and the flag \<^verbatim>\<open>infoUpdated\<close> as loop state. The array is
    mutated in place by the code, so the model returns it also when the pass is
    rejected: the caller holds a reference to the same object;
  \<^item> \<open>reconcile_pass\<close> is the function body: the loop from id 0 with the flag
    \<^verbatim>\<open>false\<close>.

  \<open>reconcile_slots\<close> is the same pass by structural recursion over a list of
  ids, \<open>reconciled_at\<close> and \<open>in_sync\<close> say that the index agrees with the disk,
  \<open>missing_slots\<close> are the ids that need an entry and \<open>attempts\<close> those of them
  a pass gets to, and \<open>reconcile_map\<close> is the pass on the index as a partial
  map, the specification it refines. They are not code of the plugin.
\<close>

section \<open>Definitions\<close>

type_synonym ('r, 'e) synthesiser = "nat \<Rightarrow> 'r \<Rightarrow> 'r \<times> (error + 'e)"

type_synonym ('r, 'e) pass_result = "'e js_array \<times> 'r \<times> (error + bool)"

definition updateGlobalInfo_slot ::
  "('r, 'e) synthesiser \<Rightarrow> (nat \<Rightarrow> bool) \<Rightarrow> nat \<Rightarrow> 'e js_array \<Rightarrow> 'r \<Rightarrow> bool
     \<Rightarrow> ('r, 'e) pass_result" where
  "updateGlobalInfo_slot mk savefileExists i globalInfo r infoUpdated =
     (if savefileExists i then
        (if js_get globalInfo i = None then
           (case mk i r of
              (r', Inl err) \<Rightarrow> (globalInfo, r', Inl err)
            | (r', Inr info) \<Rightarrow> (js_set globalInfo i info, r', Inr True))
         else (globalInfo, r, Inr infoUpdated))
      else
        (if js_get globalInfo i \<noteq> None then (js_delete globalInfo i, r, Inr True)
         else (globalInfo, r, Inr infoUpdated)))"

function updateGlobalInfo_loop ::
  "('r, 'e) synthesiser \<Rightarrow> (nat \<Rightarrow> bool) \<Rightarrow> int \<Rightarrow> nat \<Rightarrow> 'e js_array \<Rightarrow> 'r \<Rightarrow> bool
     \<Rightarrow> ('r, 'e) pass_result" where
  "updateGlobalInfo_loop mk savefileExists maxSavefiles i globalInfo r infoUpdated =
     (if int i \<le> maxSavefiles then
        (case updateGlobalInfo_slot mk savefileExists i globalInfo r infoUpdated of
           (g', r', Inl err) \<Rightarrow> (g', r', Inl err)
         | (g', r', Inr u') \<Rightarrow>
             updateGlobalInfo_loop mk savefileExists maxSavefiles (Suc i) g' r' u')
      else (globalInfo, r, Inr infoUpdated))"
  by pat_completeness auto
termination
  by (relation "measure (\<lambda>(mk, ex, mx, i, g, r, u). nat (mx + 1 - int i))") auto

definition reconcile_pass ::
  "('r, 'e) synthesiser \<Rightarrow> (nat \<Rightarrow> bool) \<Rightarrow> int \<Rightarrow> 'e js_array \<Rightarrow> 'r \<Rightarrow> ('r, 'e) pass_result" where
  "reconcile_pass mk savefileExists maxSavefiles globalInfo r =
     updateGlobalInfo_loop mk savefileExists maxSavefiles 0 globalInfo r False"

subsection \<open>Reference pass and specification\<close>

fun reconcile_slots ::
  "('r, 'e) synthesiser \<Rightarrow> (nat \<Rightarrow> bool) \<Rightarrow> nat list \<Rightarrow> 'e js_array \<Rightarrow> 'r \<Rightarrow> bool
     \<Rightarrow> ('r, 'e) pass_result" where
  "reconcile_slots mk ex [] g r u = (g, r, Inr u)"
| "reconcile_slots mk ex (i # slots) g r u =
     (case updateGlobalInfo_slot mk ex i g r u of
        (g', r', Inl err) \<Rightarrow> (g', r', Inl err)
      | (g', r', Inr u') \<Rightarrow> reconcile_slots mk ex slots g' r' u')"

definition all_slots :: "int \<Rightarrow> nat list" where
  "all_slots mx = [0..<nat (mx + 1)]"

definition reconciled_at :: "(nat \<Rightarrow> bool) \<Rightarrow> 'e js_array \<Rightarrow> nat \<Rightarrow> bool" where
  "reconciled_at ex g s = ((js_get g s \<noteq> None) = ex s)"

definition in_sync :: "(nat \<Rightarrow> bool) \<Rightarrow> int \<Rightarrow> 'e js_array \<Rightarrow> bool" where
  "in_sync ex mx g = list_all (reconciled_at ex g) (all_slots mx)"

definition missing_slots :: "(nat \<Rightarrow> bool) \<Rightarrow> 'e js_array \<Rightarrow> nat list \<Rightarrow> nat list" where
  "missing_slots ex g slots = filter (\<lambda>s. ex s \<and> js_get g s = None) slots"

definition attempts :: "('a \<Rightarrow> bool) \<Rightarrow> 'a list \<Rightarrow> 'a list" where
  "attempts p ms = takeWhile p ms @ take 1 (dropWhile p ms)"

definition reconcile_map ::
  "(nat \<Rightarrow> bool) \<Rightarrow> int \<Rightarrow> (nat \<Rightarrow> 'e) \<Rightarrow> (nat \<rightharpoonup> 'e) \<Rightarrow> (nat \<rightharpoonup> 'e)" where
  "reconcile_map ex mx syn m =
     (\<lambda>s. if int s \<le> mx
          then (if ex s then (case m s of None \<Rightarrow> Some (syn s) | Some e \<Rightarrow> Some e) else None)
          else m s)"

subsection \<open>Sample synthesiser\<close>

text \<open>
  A synthesiser that counts its calls and is rejected for id 2, a disk with
  files in slots 1 and 3 (\<open>sample_exists\<close>) or in slots 1, 2 and 3
  (\<open>broken_exists\<close>), and an index that only knows slot 0: the data on which the
  theorems below are instantiated.
\<close>

definition count_synth :: "(nat, nat) synthesiser" where
  "count_synth i n = (Suc n, if i = 2 then Inl LoadError else Inr (10 * i + n))"

definition sample_exists :: "nat \<Rightarrow> bool" where
  "sample_exists i = (i = 1 \<or> i = 3)"

definition broken_exists :: "nat \<Rightarrow> bool" where
  "broken_exists i = (i = 1 \<or> i = 2 \<or> i = 3)"

definition stale_index :: "nat js_array" where
  "stale_index = [Some 5]"

section \<open>One slot\<close>

declare updateGlobalInfo_loop.simps [simp del]

lemma slot_keep:
  "reconciled_at ex g i \<Longrightarrow> updateGlobalInfo_slot mk ex i g r u = (g, r, Inr u)"
  by (auto simp: updateGlobalInfo_slot_def reconciled_at_def)

lemma slot_delete:
  "\<not> ex i \<Longrightarrow> js_get g i \<noteq> None \<Longrightarrow>
   updateGlobalInfo_slot mk ex i g r u = (js_delete g i, r, Inr True)"
  by (simp add: updateGlobalInfo_slot_def)

lemma slot_insert:
  "ex i \<Longrightarrow> js_get g i = None \<Longrightarrow> mk i r = (r', Inr info) \<Longrightarrow>
   updateGlobalInfo_slot mk ex i g r u = (js_set g i info, r', Inr True)"
  by (simp add: updateGlobalInfo_slot_def)

lemma slot_reject:
  "ex i \<Longrightarrow> js_get g i = None \<Longrightarrow> mk i r = (r', Inl e) \<Longrightarrow>
   updateGlobalInfo_slot mk ex i g r u = (g, r', Inl e)"
  by (simp add: updateGlobalInfo_slot_def)

lemma slot_cases [consumes 0, case_names keep delete insert reject]:
  assumes "reconciled_at ex g i \<Longrightarrow> P"
    and "\<not> ex i \<Longrightarrow> js_get g i \<noteq> None \<Longrightarrow> P"
    and "\<And>r' info. ex i \<Longrightarrow> js_get g i = None \<Longrightarrow> mk i r = (r', Inr info) \<Longrightarrow> P"
    and "\<And>r' e. ex i \<Longrightarrow> js_get g i = None \<Longrightarrow> mk i r = (r', Inl e) \<Longrightarrow> P"
  shows P
proof (cases "reconciled_at ex g i")
  case True
  then show ?thesis by (rule assms(1))
next
  case False
  show ?thesis
  proof (cases "ex i")
    case ex: True
    with False have none: "js_get g i = None" by (simp add: reconciled_at_def)
    obtain r' res where mk: "mk i r = (r', res)" by (cases "mk i r")
    show ?thesis
      by (cases res) (use ex none mk assms(3,4) in blast)+
  next
    case nex: False
    with False have "js_get g i \<noteq> None" by (simp add: reconciled_at_def)
    with nex show ?thesis by (rule assms(2))
  qed
qed

text \<open>What a step that did not reject leaves behind.\<close>

lemma slot_ok_reconciled:
  "updateGlobalInfo_slot mk ex i g r u = (g', r', Inr u') \<Longrightarrow> reconciled_at ex g' i"
  by (cases rule: slot_cases [where ex = ex and g = g and i = i and mk = mk and r = r])
     (auto simp: slot_keep slot_delete slot_insert slot_reject reconciled_at_def)

lemma slot_other:
  "updateGlobalInfo_slot mk ex i g r u = (g', r', res) \<Longrightarrow> j \<noteq> i \<Longrightarrow> js_get g' j = js_get g j"
  by (cases rule: slot_cases [where ex = ex and g = g and i = i and mk = mk and r = r])
     (auto simp: slot_keep slot_delete slot_insert slot_reject)

lemma slot_stale:
  "updateGlobalInfo_slot mk ex i g r u = (g', r', res) \<Longrightarrow> \<not> ex s \<Longrightarrow>
   js_get g' s = None \<or> js_get g' s = js_get g s"
  by (cases rule: slot_cases [where ex = ex and g = g and i = i and mk = mk and r = r])
     (auto simp: slot_keep slot_delete slot_insert slot_reject js_get_js_delete js_get_js_set)

lemma slot_ok_flag:
  "updateGlobalInfo_slot mk ex i g r u = (g', r', Inr u') \<Longrightarrow>
   u' = (u \<or> \<not> reconciled_at ex g i)"
  by (cases rule: slot_cases [where ex = ex and g = g and i = i and mk = mk and r = r])
     (auto simp: slot_keep slot_delete slot_insert slot_reject reconciled_at_def)

lemma slot_present_kept:
  "updateGlobalInfo_slot mk ex i g r u = (g', r', res) \<Longrightarrow> ex i \<Longrightarrow> js_get g i \<noteq> None \<Longrightarrow>
   js_get g' i = js_get g i"
  by (simp add: slot_keep reconciled_at_def)

lemma slot_rejected:
  "updateGlobalInfo_slot mk ex i g r u = (g', r', Inl e) \<Longrightarrow>
   g' = g \<and> ex i \<and> js_get g i = None \<and> mk i r = (r', Inl e)"
  by (cases rule: slot_cases [where ex = ex and g = g and i = i and mk = mk and r = r])
     (auto simp: slot_keep slot_delete slot_insert slot_reject)

lemma slot_inserted:
  "updateGlobalInfo_slot mk ex i g r u = (g', r', Inr u') \<Longrightarrow> ex i \<Longrightarrow> js_get g i = None \<Longrightarrow>
   \<exists>info. mk i r = (r', Inr info) \<and> g' = js_set g i info"
  by (cases rule: slot_cases [where ex = ex and g = g and i = i and mk = mk and r = r])
     (auto simp: slot_keep slot_delete slot_insert slot_reject reconciled_at_def)

lemma slot_state:
  "updateGlobalInfo_slot mk ex i g r u = (g', r', res) \<Longrightarrow>
   r' = (if ex i \<and> js_get g i = None then fst (mk i r) else r)"
  by (cases rule: slot_cases [where ex = ex and g = g and i = i and mk = mk and r = r])
     (auto simp: slot_keep slot_delete slot_insert slot_reject reconciled_at_def)

lemma slot_length:
  "updateGlobalInfo_slot mk ex i g r u = (g', r', res) \<Longrightarrow>
   length g \<le> length g' \<and> length g' \<le> max (length g) (Suc i)"
  by (cases rule: slot_cases [where ex = ex and g = g and i = i and mk = mk and r = r])
     (auto simp: slot_keep slot_delete slot_insert slot_reject length_js_set)

lemma reconciled_at_cong:
  "js_get g' s = js_get g s \<Longrightarrow> reconciled_at ex g' s = reconciled_at ex g s"
  by (simp add: reconciled_at_def)

section \<open>The loop is the pass over all ids in ascending order\<close>

lemma loop_step:
  "int i \<le> mx \<Longrightarrow>
   updateGlobalInfo_loop mk ex mx i g r u =
     (case updateGlobalInfo_slot mk ex i g r u of
        (g', r', Inl err) \<Rightarrow> (g', r', Inl err)
      | (g', r', Inr u') \<Rightarrow> updateGlobalInfo_loop mk ex mx (Suc i) g' r' u')"
  by (subst updateGlobalInfo_loop.simps) simp

lemma loop_exit: "\<not> int i \<le> mx \<Longrightarrow> updateGlobalInfo_loop mk ex mx i g r u = (g, r, Inr u)"
  by (subst updateGlobalInfo_loop.simps) simp

lemma upt_slots_Cons: "int i \<le> mx \<Longrightarrow> [i..<nat (mx + 1)] = i # [Suc i..<nat (mx + 1)]"
  by (simp add: upt_conv_Cons)

lemma upt_slots_Nil: "\<not> int i \<le> mx \<Longrightarrow> [i..<nat (mx + 1)] = []"
  by simp

lemma loop_eq_slots:
  "updateGlobalInfo_loop mk ex mx i g r u = reconcile_slots mk ex [i..<nat (mx + 1)] g r u"
proof (induction mk ex mx i g r u rule: updateGlobalInfo_loop.induct)
  case (1 mk ex mx i g r u)
  show ?case
  proof (cases "int i \<le> mx")
    case False
    then show ?thesis by (simp add: loop_exit)
  next
    case True
    obtain g1 r1 res where slot: "updateGlobalInfo_slot mk ex i g r u = (g1, r1, res)"
      by (cases "updateGlobalInfo_slot mk ex i g r u") auto
    show ?thesis
    proof (cases res)
      case (Inl e)
      with True slot show ?thesis
        by (simp add: loop_step upt_slots_Cons del: upt_Suc)
    next
      case (Inr u1)
      with "1.IH" [OF True slot [symmetric] refl Inr] True slot show ?thesis
        by (simp add: loop_step upt_slots_Cons del: upt_Suc)
    qed
  qed
qed

lemma reconcile_pass_eq_slots:
  "reconcile_pass mk ex mx g r = reconcile_slots mk ex (all_slots mx) g r False"
  by (simp add: reconcile_pass_def all_slots_def loop_eq_slots)

lemma set_all_slots [simp]: "set (all_slots mx) = {s. int s \<le> mx}"
  by (auto simp: all_slots_def)

lemma distinct_all_slots [simp]: "distinct (all_slots mx)"
  by (simp add: all_slots_def)

lemma sorted_all_slots [simp]: "sorted (all_slots mx)"
  by (simp add: all_slots_def)

lemma in_sync_iff: "in_sync ex mx g \<longleftrightarrow> (\<forall>s. int s \<le> mx \<longrightarrow> reconciled_at ex g s)"
  by (simp add: in_sync_def list_all_iff)

section \<open>What a pass over a list of ids achieves\<close>

lemma reconcile_slots_ConsE:
  assumes "reconcile_slots mk ex (i # ss) g r u = (g', r', res)"
  obtains (continue) g1 r1 u1 where
      "updateGlobalInfo_slot mk ex i g r u = (g1, r1, Inr u1)"
      "reconcile_slots mk ex ss g1 r1 u1 = (g', r', res)"
    | (rejected) e where
      "updateGlobalInfo_slot mk ex i g r u = (g', r', Inl e)" "res = Inl e"
proof -
  obtain g1 r1 res1 where slot: "updateGlobalInfo_slot mk ex i g r u = (g1, r1, res1)"
    by (cases "updateGlobalInfo_slot mk ex i g r u") auto
  show thesis
  proof (cases res1)
    case (Inl e)
    with assms slot show thesis by (intro rejected [of e]) simp_all
  next
    case (Inr u1)
    with assms slot show thesis by (intro continue [of g1 r1 u1]) simp_all
  qed
qed

lemma slots_other:
  "reconcile_slots mk ex ss g r u = (g', r', res) \<Longrightarrow> s \<notin> set ss \<Longrightarrow> js_get g' s = js_get g s"
proof (induction ss arbitrary: g r u)
  case Nil
  then show ?case by simp
next
  case (Cons i ss)
  from Cons.prems(1) show ?case
  proof (cases rule: reconcile_slots_ConsE)
    case (continue g1 r1 u1)
    with Cons.prems(2) Cons.IH [of g1 r1 u1] show ?thesis
      by (auto dest: slot_other)
  next
    case (rejected e)
    with Cons.prems(2) show ?thesis
      by (auto dest: slot_other)
  qed
qed

lemma slots_ok_reconciled:
  "reconcile_slots mk ex ss g r u = (g', r', Inr u') \<Longrightarrow> s \<in> set ss \<Longrightarrow> reconciled_at ex g' s"
proof (induction ss arbitrary: g r u)
  case Nil
  then show ?case by simp
next
  case (Cons i ss)
  from Cons.prems(1) show ?case
  proof (cases rule: reconcile_slots_ConsE)
    case (continue g1 r1 u1)
    show ?thesis
    proof (cases "s \<in> set ss")
      case True
      with continue(2) show ?thesis by (rule Cons.IH)
    next
      case False
      with Cons.prems(2) have "s = i" by simp
      moreover from continue(2) False have "js_get g' s = js_get g1 s"
        by (rule slots_other)
      moreover from continue(1) have "reconciled_at ex g1 i"
        by (rule slot_ok_reconciled)
      ultimately show ?thesis by (simp add: reconciled_at_def)
    qed
  next
    case (rejected e)
    then show ?thesis by simp
  qed
qed

lemma slots_present_kept:
  "reconcile_slots mk ex ss g r u = (g', r', res) \<Longrightarrow> ex s \<Longrightarrow> js_get g s \<noteq> None \<Longrightarrow>
   js_get g' s = js_get g s"
proof (induction ss arbitrary: g r u)
  case Nil
  then show ?case by simp
next
  case (Cons i ss)
  have step: "js_get g1 s = js_get g s"
    if "updateGlobalInfo_slot mk ex i g r u = (g1, r1, res1)" for g1 r1 res1
    using that Cons.prems(2,3) by (cases "s = i") (auto dest: slot_other slot_present_kept)
  from Cons.prems(1) show ?case
  proof (cases rule: reconcile_slots_ConsE)
    case (continue g1 r1 u1)
    with Cons.IH [of g1 r1 u1] Cons.prems(2,3) step [of g1 r1 "Inr u1"] show ?thesis
      by simp
  next
    case (rejected e)
    with step [of g' r' "Inl e"] show ?thesis by simp
  qed
qed

lemma slots_absent_kept:
  "reconcile_slots mk ex ss g r u = (g', r', res) \<Longrightarrow> \<not> ex s \<Longrightarrow> js_get g s = None \<Longrightarrow>
   js_get g' s = None"
proof (induction ss arbitrary: g r u)
  case Nil
  then show ?case by simp
next
  case (Cons i ss)
  have step: "js_get g1 s = None"
    if "updateGlobalInfo_slot mk ex i g r u = (g1, r1, res1)" for g1 r1 res1
    using that Cons.prems(2,3)
    by (cases "s = i") (auto dest: slot_other simp: slot_keep reconciled_at_def)
  from Cons.prems(1) show ?case
  proof (cases rule: reconcile_slots_ConsE)
    case (continue g1 r1 u1)
    with Cons.IH [of g1 r1 u1] Cons.prems(2) step [of g1 r1 "Inr u1"] show ?thesis
      by simp
  next
    case (rejected e)
    with step [of g' r' "Inl e"] show ?thesis by simp
  qed
qed

lemma slots_stale:
  "reconcile_slots mk ex ss g r u = (g', r', res) \<Longrightarrow> \<not> ex s \<Longrightarrow>
   js_get g' s = None \<or> js_get g' s = js_get g s"
proof (induction ss arbitrary: g r u)
  case Nil
  then show ?case by simp
next
  case (Cons i ss)
  from Cons.prems(1) show ?case
  proof (cases rule: reconcile_slots_ConsE)
    case (continue g1 r1 u1)
    from slot_stale [OF continue(1) Cons.prems(2)] Cons.IH [OF continue(2) Cons.prems(2)]
      slots_absent_kept [OF continue(2) Cons.prems(2)]
    show ?thesis by auto
  next
    case (rejected e)
    from slot_stale [OF rejected(1) Cons.prems(2)] show ?thesis .
  qed
qed

lemma slots_reconciled_kept:
  "reconcile_slots mk ex ss g r u = (g', r', res) \<Longrightarrow> reconciled_at ex g s \<Longrightarrow>
   js_get g' s = js_get g s"
  by (cases "ex s") (auto simp: reconciled_at_def dest: slots_present_kept slots_absent_kept)

lemma slots_ok_flag:
  "reconcile_slots mk ex ss g r u = (g', r', Inr u') \<Longrightarrow>
   u' = (u \<or> (\<exists>s \<in> set ss. \<not> reconciled_at ex g s))"
proof (induction ss arbitrary: g r u)
  case Nil
  then show ?case by simp
next
  case (Cons i ss)
  from Cons.prems show ?case
  proof (cases rule: reconcile_slots_ConsE)
    case (continue g1 r1 u1)
    from continue(1) have u1: "u1 = (u \<or> \<not> reconciled_at ex g i)"
      by (rule slot_ok_flag)
    from continue(1) have g1_i: "reconciled_at ex g1 i"
      by (rule slot_ok_reconciled)
    have "reconciled_at ex g1 s = reconciled_at ex g s" if "s \<noteq> i" for s
      using slot_other [OF continue(1) that] by (rule reconciled_at_cong)
    with g1_i have "(\<exists>s \<in> set ss. \<not> reconciled_at ex g1 s) \<longleftrightarrow>
        (\<exists>s \<in> set ss. s \<noteq> i \<and> \<not> reconciled_at ex g s)"
      by metis
    with Cons.IH [OF continue(2)] u1 show ?thesis
      by auto
  next
    case (rejected e)
    then show ?thesis by simp
  qed
qed

lemma slots_in_sync_noop:
  "list_all (reconciled_at ex g) ss \<Longrightarrow> reconcile_slots mk ex ss g r u = (g, r, Inr u)"
  by (induction ss) (simp_all add: slot_keep)

lemma slots_rejected:
  "reconcile_slots mk ex ss g r u = (g', r', Inl e) \<Longrightarrow>
   \<exists>pre k post r0. ss = pre @ k # post \<and> ex k \<and> js_get g' k = None \<and> mk k r0 = (r', Inl e) \<and>
      (\<forall>s \<in> set pre. reconciled_at ex g' s) \<and> (\<forall>s. s \<notin> set pre \<longrightarrow> js_get g' s = js_get g s)"
proof (induction ss arbitrary: g r u)
  case Nil
  then show ?case by simp
next
  case (Cons i ss)
  from Cons.prems show ?case
  proof (cases rule: reconcile_slots_ConsE)
    case (rejected e')
    then have "g' = g \<and> ex i \<and> js_get g i = None \<and> mk i r = (r', Inl e)"
      by (auto dest: slot_rejected)
    then have "i # ss = [] @ i # ss \<and> ex i \<and> js_get g' i = None \<and> mk i r = (r', Inl e) \<and>
      (\<forall>s \<in> set []. reconciled_at ex g' s) \<and> (\<forall>s. s \<notin> set [] \<longrightarrow> js_get g' s = js_get g s)"
      by simp
    then show ?thesis by blast
  next
    case (continue g1 r1 u1)
    from Cons.IH [OF continue(2)] obtain pre k post r0 where
      ss: "ss = pre @ k # post" and k: "ex k" "js_get g' k = None" "mk k r0 = (r', Inl e)"
      and pre: "\<forall>s \<in> set pre. reconciled_at ex g' s"
      and out: "\<forall>s. s \<notin> set pre \<longrightarrow> js_get g' s = js_get g1 s"
      by blast
    have "reconciled_at ex g' i"
    proof (cases "i \<in> set pre")
      case True
      with pre show ?thesis by simp
    next
      case False
      with out have "js_get g' i = js_get g1 i" by simp
      with slot_ok_reconciled [OF continue(1)] show ?thesis
        by (simp add: reconciled_at_def)
    qed
    with pre have pre': "\<forall>s \<in> set (i # pre). reconciled_at ex g' s" by simp
    have out': "\<forall>s. s \<notin> set (i # pre) \<longrightarrow> js_get g' s = js_get g s"
      using out slot_other [OF continue(1)] by simp
    from ss have "i # ss = (i # pre) @ k # post" by simp
    with k pre' out' show ?thesis by blast
  qed
qed

lemma missing_slots_cong:
  "(\<And>s. s \<in> set ss \<Longrightarrow> js_get g' s = js_get g s) \<Longrightarrow>
   missing_slots ex g' ss = missing_slots ex g ss"
  unfolding missing_slots_def by (rule filter_cong) simp_all

lemma slots_ok_state:
  "distinct ss \<Longrightarrow> reconcile_slots mk ex ss g r u = (g', r', Inr u') \<Longrightarrow>
   r' = foldl (\<lambda>r s. fst (mk s r)) r (missing_slots ex g ss)"
proof (induction ss arbitrary: g r u)
  case Nil
  then show ?case by (simp add: missing_slots_def)
next
  case (Cons i ss)
  from Cons.prems(2) show ?case
  proof (cases rule: reconcile_slots_ConsE)
    case (rejected e)
    then show ?thesis by simp
  next
    case (continue g1 r1 u1)
    from Cons.prems(1) have "missing_slots ex g1 ss = missing_slots ex g ss"
      by (intro missing_slots_cong slot_other [OF continue(1)]) auto
    moreover from Cons.prems(1) continue(2)
    have "r' = foldl (\<lambda>r s. fst (mk s r)) r1 (missing_slots ex g1 ss)"
      by (intro Cons.IH) simp_all
    moreover note slot_state [OF continue(1)]
    ultimately show ?thesis
      by (simp add: missing_slots_def)
  qed
qed

lemma slots_total:
  assumes "\<And>s r. s \<in> set ss \<Longrightarrow> ex s \<Longrightarrow> js_get g s = None \<Longrightarrow> ok (snd (mk s r))"
  shows "\<exists>g' r' u'. reconcile_slots mk ex ss g r u = (g', r', Inr u')"
  using assms
proof (induction ss arbitrary: g r u)
  case Nil
  then show ?case by simp
next
  case (Cons i ss)
  obtain g1 r1 res where slot: "updateGlobalInfo_slot mk ex i g r u = (g1, r1, res)"
    by (cases "updateGlobalInfo_slot mk ex i g r u") auto
  show ?case
  proof (cases res)
    case (Inl e)
    with slot have miss: "ex i" "js_get g i = None" and mk: "mk i r = (r1, Inl e)"
      by (auto dest: slot_rejected)
    have "ok (snd (mk i r))"
      by (rule Cons.prems) (use miss in simp_all)
    with mk show ?thesis by simp
  next
    case (Inr u1)
    have g1_i: "reconciled_at ex g1 i"
      using slot Inr by (auto dest: slot_ok_reconciled)
    have "\<exists>g' r' u'. reconcile_slots mk ex ss g1 r1 u1 = (g', r', Inr u')"
    proof (rule Cons.IH)
      fix s r0
      assume s: "s \<in> set ss" "ex s" "js_get g1 s = None"
      with g1_i have "s \<noteq> i" by (auto simp: reconciled_at_def)
      then have "js_get g1 s = js_get g s" by (rule slot_other [OF slot])
      with s(3) have "js_get g s = None" by metis
      moreover from s(1) have "s \<in> set (i # ss)" by simp
      ultimately show "ok (snd (mk s r0))" using s(2) by - (rule Cons.prems)
    qed
    then obtain g' r' u' where "reconcile_slots mk ex ss g1 r1 u1 = (g', r', Inr u')"
      by blast
    with slot Inr have "reconcile_slots mk ex (i # ss) g r u = (g', r', Inr u')"
      by simp
    then show ?thesis by blast
  qed
qed

lemma slots_inserted_from:
  "reconcile_slots mk ex ss g r u = (g', r', res) \<Longrightarrow> s \<in> set ss \<Longrightarrow> ex s \<Longrightarrow>
   js_get g s = None \<Longrightarrow> js_get g' s = Some e \<Longrightarrow> \<exists>r0 r1. mk s r0 = (r1, Inr e)"
proof (induction ss arbitrary: g r u)
  case Nil
  then show ?case by simp
next
  case (Cons i ss)
  from Cons.prems(1) show ?case
  proof (cases rule: reconcile_slots_ConsE)
    case (rejected e')
    with Cons.prems(4,5) show ?thesis
      by (auto dest: slot_rejected)
  next
    case (continue g1 r1 u1)
    show ?thesis
    proof (cases "s = i")
      case True
      with continue(1) Cons.prems(3,4) obtain info where
        info: "mk i r = (r1, Inr info)" "g1 = js_set g i info"
        by (auto dest: slot_inserted)
      with True Cons.prems(3) slots_present_kept [OF continue(2), of s]
      have "js_get g' s = Some info" by simp
      with Cons.prems(5) info True show ?thesis by auto
    next
      case False
      with Cons.prems slot_other [OF continue(1), of s] Cons.IH [OF continue(2)]
      show ?thesis by simp
    qed
  qed
qed

lemma slots_length:
  "reconcile_slots mk ex ss g r u = (g', r', res) \<Longrightarrow>
   length g \<le> length g' \<and> (\<forall>n. (\<forall>s \<in> set ss. s < n) \<longrightarrow> length g' \<le> max (length g) n)"
proof (induction ss arbitrary: g r u)
  case Nil
  then show ?case by simp
next
  case (Cons i ss)
  from Cons.prems show ?case
  proof (cases rule: reconcile_slots_ConsE)
    case (rejected e)
    then show ?thesis
      by (auto dest!: slot_length)
  next
    case (continue g1 r1 u1)
    note one = slot_length [OF continue(1)] and rest = Cons.IH [OF continue(2)]
    have "length g' \<le> max (length g) n" if "\<forall>s \<in> set (i # ss). s < n" for n
    proof -
      from that rest have "length g' \<le> max (length g1) n" by simp
      moreover from that one have "length g1 \<le> max (length g) n" by auto
      ultimately show ?thesis by simp
    qed
    moreover from one rest have "length g \<le> length g'" by simp
    ultimately show ?thesis by blast
  qed
qed

lemma pass_refines_map:
  assumes "reconcile_slots mk ex (all_slots mx) g r u = (g', r', Inr u')"
  shows "js_get g' = reconcile_map ex mx (\<lambda>s. the (js_get g' s)) (js_get g)"
proof
  fix s
  show "js_get g' s = reconcile_map ex mx (\<lambda>s. the (js_get g' s)) (js_get g) s"
  proof (cases "int s \<le> mx")
    case False
    with slots_other [OF assms, of s] show ?thesis
      by (simp add: reconcile_map_def)
  next
    case True
    then have rec: "reconciled_at ex g' s"
      by (intro slots_ok_reconciled [OF assms]) simp
    show ?thesis
    proof (cases "ex s")
      case False
      with rec True show ?thesis
        by (simp add: reconcile_map_def reconciled_at_def)
    next
      case ex: True
      with rec obtain e where e: "js_get g' s = Some e"
        by (auto simp: reconciled_at_def)
      show ?thesis
      proof (cases "js_get g s")
        case None
        with True ex e show ?thesis by (simp add: reconcile_map_def)
      next
        case (Some a)
        with ex slots_present_kept [OF assms, of s] have "js_get g' s = Some a" by simp
        with True ex Some show ?thesis by (simp add: reconcile_map_def)
      qed
    qed
  qed
qed

lemma slots_state_preserved:
  assumes "reconcile_slots mk ex ss g r u = (g', r', res)"
    and "\<And>s r0. P r0 \<Longrightarrow> P (fst (mk s r0))" and "P r"
  shows "P r'"
  using assms(1,3)
proof (induction ss arbitrary: g r u)
  case Nil
  then show ?case by simp
next
  case (Cons i ss)
  have step: "P r1" if "updateGlobalInfo_slot mk ex i g r u = (g1, r1, res1)" for g1 r1 res1
    using slot_state [OF that] Cons.prems(2) assms(2) [of r i] by simp
  from Cons.prems(1) show ?case
  proof (cases rule: reconcile_slots_ConsE)
    case (continue g1 r1 u1)
    from continue(2) step [OF continue(1)] show ?thesis by (rule Cons.IH)
  next
    case (rejected e)
    then show ?thesis by (intro step)
  qed
qed

lemma pass_state_preserved:
  assumes "reconcile_pass mk ex mx g r = (g', r', res)"
    and "\<And>s r0. P r0 \<Longrightarrow> P (fst (mk s r0))" and "P r"
  shows "P r'"
  using assms(1) unfolding reconcile_pass_eq_slots
  by (rule slots_state_preserved) (use assms(2,3) in auto)

lemma upt_split_prefix:
  assumes "[0..<n] = pre @ k # post"
  shows "set pre = {..<k} \<and> k < n"
proof -
  have len: "length pre < n"
    using arg_cong [OF assms, of length] by simp
  have "[0..<n] ! length pre = k"
    by (simp add: assms)
  with len have k: "k = length pre" by simp
  have "pre = take (length pre) [0..<n]"
    by (simp add: assms)
  also have "\<dots> = [0..<length pre]"
    using len by (simp add: take_upt)
  finally have "set pre = {..<length pre}"
    by (metis atLeast_upt set_upt atLeast0LessThan)
  with k len show ?thesis by simp
qed

lemma pass_rejected:
  assumes "reconcile_pass mk ex mx g r = (g', r', Inl e)"
  obtains k r0 where "int k \<le> mx" "ex k" "js_get g' k = None" "mk k r0 = (r', Inl e)"
    "\<And>s. s < k \<Longrightarrow> reconciled_at ex g' s" "\<And>s. k \<le> s \<Longrightarrow> js_get g' s = js_get g s"
proof -
  from assms have "reconcile_slots mk ex (all_slots mx) g r False = (g', r', Inl e)"
    by (simp add: reconcile_pass_eq_slots)
  from slots_rejected [OF this] obtain pre k post r0 where
    split: "all_slots mx = pre @ k # post" and k: "ex k" "js_get g' k = None" "mk k r0 = (r', Inl e)"
    and pre: "\<forall>s \<in> set pre. reconciled_at ex g' s"
    and out: "\<forall>s. s \<notin> set pre \<longrightarrow> js_get g' s = js_get g s"
    by blast
  from split have "set pre = {..<k} \<and> k < nat (mx + 1)"
    unfolding all_slots_def by (rule upt_split_prefix)
  with k pre out show thesis
    by (intro that [of k r0]) auto
qed

text \<open>
  The converse of \<open>slots_total\<close>: a missing entry whose synthesis is rejected whatever the
  state stops the pass, at that id or before.
\<close>

lemma slots_rejects:
  assumes "s \<in> set ss" and "ex s" and "js_get g s = None" and "\<And>r0. \<not> ok (snd (mk s r0))"
  shows "\<not> ok (snd (snd (reconcile_slots mk ex ss g r u)))"
  using assms(1,3)
proof (induction ss arbitrary: g r u)
  case Nil
  then show ?case by simp
next
  case (Cons i ss)
  obtain g1 r1 res1 where step: "updateGlobalInfo_slot mk ex i g r u = (g1, r1, res1)"
    by (cases "updateGlobalInfo_slot mk ex i g r u") auto
  show ?case
  proof (cases res1)
    case (Inl e)
    with step show ?thesis by simp
  next
    case (Inr u1)
    have "i \<noteq> s"
    proof
      assume "i = s"
      moreover obtain r' e where "mk s r = (r', Inl e)"
        using assms(4) [of r] by (cases "mk s r") (auto simp: not_ok_iff)
      ultimately have "updateGlobalInfo_slot mk ex i g r u = (g, r', Inl e)"
        using assms(2) Cons.prems(2) by (simp add: slot_reject)
      with step Inr show False by simp
    qed
    with Cons.prems slot_other [OF step, of s] have "s \<in> set ss" "js_get g1 s = None"
      by simp_all
    then have "\<not> ok (snd (snd (reconcile_slots mk ex ss g1 r1 u1)))"
      by (rule Cons.IH)
    with step Inr show ?thesis by simp
  qed
qed

section \<open>The calls of the synthesiser, whatever the outcome\<close>

text \<open>
  When the success of the synthesiser depends on the id only (\<open>p\<close>), the ids
  it is called for are the missing ones up to and including the first for
  which it is rejected: \<open>attempts p\<close> of the missing ids.
\<close>

lemma attempts_simps [simp]:
  "attempts p [] = []"
  "attempts p (s # ms) = (if p s then s # attempts p ms else [s])"
  by (simp_all add: attempts_def)

lemma missing_slots_Cons:
  "missing_slots ex g (s # ss) =
     (if ex s \<and> js_get g s = None then s # missing_slots ex g ss else missing_slots ex g ss)"
  by (simp add: missing_slots_def)

lemma slots_Cons_cases [consumes 2, case_names skip insert reject]:
  assumes "distinct (s # ss)" and "reconcile_slots mk ex (s # ss) g r u = (g', r', res)"
  obtains g1 u1 where "\<not> (ex s \<and> js_get g s = None)"
      "reconcile_slots mk ex ss g1 r u1 = (g', r', res)"
      "missing_slots ex g1 ss = missing_slots ex g ss"
      "missing_slots ex g (s # ss) = missing_slots ex g ss"
    | r1 v where "ex s" "js_get g s = None" "mk s r = (r1, Inr v)"
      "reconcile_slots mk ex ss (js_set g s v) r1 True = (g', r', res)"
      "missing_slots ex (js_set g s v) ss = missing_slots ex g ss"
      "missing_slots ex g (s # ss) = s # missing_slots ex g ss"
    | e where "ex s" "js_get g s = None" "mk s r = (r', Inl e)" "res = Inl e" "g' = g"
      "missing_slots ex g (s # ss) = s # missing_slots ex g ss"
  using assms(2)
proof (cases rule: reconcile_slots_ConsE)
  case (rejected e)
  with slot_rejected [OF rejected(1)] show ?thesis
    by (intro that(3) [of e]) (simp_all add: missing_slots_Cons)
next
  case (continue g1 r1 u1)
  from assms(1) have same: "missing_slots ex g1 ss = missing_slots ex g ss"
    by (intro missing_slots_cong slot_other [OF continue(1)]) auto
  show ?thesis
  proof (cases "ex s \<and> js_get g s = None")
    case True
    with slot_inserted [OF continue(1)] obtain v where
      v: "mk s r = (r1, Inr v)" "g1 = js_set g s v" by auto
    with continue(1) True have "u1 = True" by (simp add: slot_insert)
    with True v continue(2) same show ?thesis
      by (intro that(2) [of r1 v]) (simp_all add: missing_slots_Cons)
  next
    case False
    with slot_state [OF continue(1)] have "r1 = r" by auto
    with False continue(2) same show ?thesis
      by (intro that(1) [of g1 u1]) (auto simp: missing_slots_Cons)
  qed
qed

lemma slot_cong:
  "(ex i \<Longrightarrow> js_get g i = None \<Longrightarrow> mk i r = mk' i r) \<Longrightarrow>
   updateGlobalInfo_slot mk ex i g r u = updateGlobalInfo_slot mk' ex i g r u"
  by (simp add: updateGlobalInfo_slot_def)

lemma slots_cong:
  assumes "\<And>s r0. s \<in> set ss \<Longrightarrow> ex s \<Longrightarrow> js_get g s = None \<Longrightarrow> mk s r0 = mk' s r0"
    and "distinct ss"
  shows "reconcile_slots mk ex ss g r u = reconcile_slots mk' ex ss g r u"
  using assms
proof (induction ss arbitrary: g r u)
  case Nil
  then show ?case by simp
next
  case (Cons i ss)
  have slot: "updateGlobalInfo_slot mk ex i g r u = updateGlobalInfo_slot mk' ex i g r u"
    by (rule slot_cong) (simp add: Cons.prems(1))
  obtain g1 r1 res1 where step: "updateGlobalInfo_slot mk' ex i g r u = (g1, r1, res1)"
    by (cases "updateGlobalInfo_slot mk' ex i g r u") auto
  show ?case
  proof (cases res1)
    case (Inl e)
    with slot step show ?thesis by simp
  next
    case (Inr u1)
    have "reconcile_slots mk ex ss g1 r1 u1 = reconcile_slots mk' ex ss g1 r1 u1"
    proof (rule Cons.IH)
      fix s r0
      assume s: "s \<in> set ss" "ex s" "js_get g1 s = None"
      with Cons.prems(2) have "s \<noteq> i" by auto
      with slot_other [OF step, of s] s show "mk s r0 = mk' s r0"
        by (intro Cons.prems(1)) simp_all
    qed (use Cons.prems(2) in simp)
    with slot step Inr show ?thesis by simp
  qed
qed

lemma slots_attempts_state:
  assumes ind: "\<And>s r0. ok (snd (mk s r0)) = p s"
  shows "distinct ss \<Longrightarrow> reconcile_slots mk ex ss g r u = (g', r', res) \<Longrightarrow>
         r' = foldl (\<lambda>r s. fst (mk s r)) r (attempts p (missing_slots ex g ss))"
proof (induction ss arbitrary: g r u)
  case Nil
  then show ?case by (simp add: missing_slots_def)
next
  case (Cons s ss)
  from Cons.prems show ?case
  proof (cases rule: slots_Cons_cases)
    case (skip g1 u1)
    with Cons.IH [OF _ skip(2)] Cons.prems(1) show ?thesis by simp
  next
    case (insert r1 v)
    from ind [of s r] insert(3) have "p s" by simp
    with insert Cons.IH [OF _ insert(4)] Cons.prems(1) show ?thesis by simp
  next
    case (reject e)
    from ind [of s r] reject(3) have "\<not> p s" by simp
    with reject show ?thesis by simp
  qed
qed

lemma slots_attempts_error:
  assumes ind: "\<And>s r0. ok (snd (mk s r0)) = p s"
  shows "distinct ss \<Longrightarrow> reconcile_slots mk ex ss g r u = (g', r', Inl e) \<Longrightarrow>
         \<exists>k rest r0. dropWhile p (missing_slots ex g ss) = k # rest \<and> snd (mk k r0) = Inl e"
proof (induction ss arbitrary: g r u)
  case Nil
  then show ?case by simp
next
  case (Cons s ss)
  from Cons.prems show ?case
  proof (cases rule: slots_Cons_cases)
    case (skip g1 u1)
    with Cons.IH [OF _ skip(2)] Cons.prems(1) show ?thesis by simp
  next
    case (insert r1 v)
    from ind [of s r] insert(3) have "p s" by simp
    with insert Cons.IH [OF _ insert(4)] Cons.prems(1) show ?thesis by simp
  next
    case (reject e')
    from ind [of s r] reject(3) have "\<not> p s" by simp
    with reject show ?thesis by (auto intro: exI [of _ r])
  qed
qed

lemma slots_attempts_entry:
  assumes ind: "\<And>s r0. ok (snd (mk s r0)) = p s"
  shows "distinct ss \<Longrightarrow> reconcile_slots mk ex ss g r u = (g', r', res) \<Longrightarrow>
         j < length (attempts p (missing_slots ex g ss)) \<Longrightarrow>
         snd (mk (attempts p (missing_slots ex g ss) ! j)
                (foldl (\<lambda>r s. fst (mk s r)) r (take j (attempts p (missing_slots ex g ss))))) =
           Inr v \<Longrightarrow>
         js_get g' (attempts p (missing_slots ex g ss) ! j) = Some v"
proof (induction ss arbitrary: g r u j)
  case Nil
  then show ?case by (simp add: missing_slots_def)
next
  case (Cons s ss)
  from Cons.prems(1,2) show ?case
  proof (cases rule: slots_Cons_cases)
    case (skip g1 u1)
    with Cons.IH [OF _ skip(2), of j] Cons.prems show ?thesis by simp
  next
    case (insert r1 v0)
    from ind [of s r] insert(3) have p: "p s" by simp
    show ?thesis
    proof (cases j)
      case 0
      with Cons.prems(4) insert p have "v = v0" by simp
      moreover from Cons.prems(1) slots_other [OF insert(4), of s] have "js_get g' s = Some v0"
        by simp
      ultimately show ?thesis using 0 insert p by simp
    next
      case (Suc j')
      with Cons.IH [OF _ insert(4), of j'] Cons.prems insert p show ?thesis by simp
    qed
  next
    case (reject e)
    from ind [of s r] reject(3) have "\<not> p s" by simp
    with reject Cons.prems(3,4) show ?thesis by simp
  qed
qed

text \<open>
  The length of the array after a pass that resolved, by its upper bounds: the
  array grows to hold the largest id that gets an entry, and not otherwise.
\<close>

lemma slot_length_exact:
  "updateGlobalInfo_slot mk ex i g r u = (g', r', Inr u') \<Longrightarrow>
   length g' = (if ex i \<and> js_get g i = None then max (length g) (Suc i) else length g)"
  by (cases rule: slot_cases [where ex = ex and g = g and i = i and mk = mk and r = r])
     (auto simp: slot_keep slot_delete slot_insert slot_reject length_js_set reconciled_at_def)

lemma slots_length_le_iff:
  "distinct ss \<Longrightarrow> reconcile_slots mk ex ss g r u = (g', r', Inr u') \<Longrightarrow>
   length g' \<le> n \<longleftrightarrow> length g \<le> n \<and> (\<forall>s \<in> set (missing_slots ex g ss). s < n)"
proof (induction ss arbitrary: g r u)
  case Nil
  then show ?case by (simp add: missing_slots_def)
next
  case (Cons i ss)
  from Cons.prems(2) show ?case
  proof (cases rule: reconcile_slots_ConsE)
    case (continue g1 r1 u1)
    from Cons.prems(1) have "missing_slots ex g1 ss = missing_slots ex g ss"
      by (intro missing_slots_cong slot_other [OF continue(1)]) auto
    with Cons.IH [OF _ continue(2)] Cons.prems(1) slot_length_exact [OF continue(1)]
    show ?thesis
      by (auto simp: missing_slots_Cons)
  qed simp
qed

lemma slots_length_exact:
  assumes "distinct ss" and "reconcile_slots mk ex ss g r u = (g', r', Inr u')"
  shows "length g' = Max (insert (length g) (Suc ` set (missing_slots ex g ss)))"
    (is "_ = Max ?A")
proof (rule antisym)
  have "length g \<le> Max ?A"
    by (rule Max_ge) simp_all
  moreover have "s < Max ?A" if "s \<in> set (missing_slots ex g ss)" for s
  proof -
    from that have "Suc s \<le> Max ?A" by (intro Max_ge) auto
    then show ?thesis by simp
  qed
  ultimately show "length g' \<le> Max ?A"
    by (simp add: slots_length_le_iff [OF assms])
next
  from slots_length_le_iff [OF assms, of "length g'"]
  have "a \<le> length g'" if "a \<in> ?A" for a
    using that by auto
  then show "Max ?A \<le> length g'"
    by (intro Max.boundedI) auto
qed

lemmas pass_sample_defs = count_synth_def sample_exists_def broken_exists_def stale_index_def

section \<open>Properties of the reconciliation pass\<close>

text \<open>
  \<^bold>\<open>C1\<close> Existence-completeness and no orphans. After a pass that was not
  rejected, every savefile id from 0 to \<^verbatim>\<open>maxSavefiles()\<close> has an entry in the
  index exactly when its save file exists.
\<close>

theorem reconcile_pass_in_sync:
  assumes "reconcile_pass mk ex mx g r = (g', r', Inr changed)"
  shows "\<forall>s. int s \<le> mx \<longrightarrow> (js_get g' s \<noteq> None) = ex s"
  using assms slots_ok_reconciled [of mk ex "all_slots mx" g r False g' r' changed]
  by (simp add: reconcile_pass_eq_slots reconciled_at_def)

theorem reconcile_pass_in_sync_witness:
  "reconcile_pass count_synth sample_exists 3 stale_index 0 =
     ([None, Some 10, None, Some 31], 2, Inr True) \<and>
   (js_get [None, Some 10, None, Some (31::nat)] 0 \<noteq> None) = sample_exists 0 \<and>
   (js_get [None, Some 10, None, Some (31::nat)] 1 \<noteq> None) = sample_exists 1 \<and>
   (js_get [None, Some 10, None, Some (31::nat)] 2 \<noteq> None) = sample_exists 2 \<and>
   (js_get [None, Some 10, None, Some (31::nat)] 3 \<noteq> None) = sample_exists 3"
proof -
  have run: "reconcile_pass count_synth sample_exists 3 stale_index 0 =
     ([None, Some 10, None, Some 31], 2, Inr True)"
    by code_simp
  note sync = reconcile_pass_in_sync [OF run, rule_format]
  from sync [of 0] sync [of 1] sync [of 2] sync [of 3] run show ?thesis by simp
qed

text \<open>
  \<^bold>\<open>C35\<close> The pass only repairs. Whatever its outcome, it leaves every cell
  beyond \<^verbatim>\<open>maxSavefiles()\<close> and every cell that already agreed with the disk as
  it was: an entry whose save file exists is never replaced, and no entry is
  updated in place.
\<close>

theorem reconcile_pass_frame:
  assumes "reconcile_pass mk ex mx g r = (g', r', res)"
  shows "(\<forall>s. \<not> int s \<le> mx \<longrightarrow> js_get g' s = js_get g s) \<and>
         (\<forall>s. (js_get g s \<noteq> None) = ex s \<longrightarrow> js_get g' s = js_get g s)"
  using assms slots_other [of mk ex "all_slots mx" g r False g' r' res]
    slots_reconciled_kept [of mk ex "all_slots mx" g r False g' r' res]
  by (simp add: reconcile_pass_eq_slots reconciled_at_def)

theorem reconcile_pass_frame_witness:
  "js_get (fst (reconcile_pass count_synth sample_exists 1 [None, Some 7, None, Some 9] 0)) 3
     = Some 9 \<and>
   js_get (fst (reconcile_pass count_synth sample_exists 1 [None, Some 7, None, Some 9] 0)) 1
     = Some 7"
proof -
  have run: "reconcile_pass count_synth sample_exists 1 [None, Some 7, None, Some 9] 0 =
     ([None, Some 7, None, Some 9], 0, Inr False)"
    by code_simp
  have "js_get [None, Some 7, None, Some (9::nat)] 3 = Some 9"
       "js_get [None, Some 7, None, Some (9::nat)] 1 = Some 7"
    by code_simp+
  with reconcile_pass_frame [OF run] run show ?thesis by simp
qed

text \<open>
  \<^bold>\<open>C5\<close> The flag the pass resolves with says whether anything was repaired:
  it is \<^verbatim>\<open>false\<close> exactly when the index, id by id, already agreed with the disk.
\<close>

theorem reconcile_pass_changed_iff:
  assumes "reconcile_pass mk ex mx g r = (g', r', Inr changed)"
  shows "changed \<longleftrightarrow> \<not> in_sync ex mx g"
  using assms slots_ok_flag [of mk ex "all_slots mx" g r False g' r' changed]
  by (simp add: reconcile_pass_eq_slots in_sync_iff)

theorem reconcile_pass_changed_iff_witness:
  "(True \<longleftrightarrow> \<not> in_sync sample_exists 3 stale_index) \<and>
   reconcile_pass count_synth sample_exists 0 stale_index 0 = ([None], 0, Inr True) \<and>
   (True \<longleftrightarrow> \<not> in_sync sample_exists 0 stale_index)"
proof -
  have run: "reconcile_pass count_synth sample_exists 3 stale_index 0 =
     ([None, Some 10, None, Some 31], 2, Inr True)"
    by code_simp
  have only_delete: "reconcile_pass count_synth sample_exists 0 stale_index 0 = ([None], 0, Inr True)"
    by code_simp
  from reconcile_pass_changed_iff [OF run] reconcile_pass_changed_iff [OF only_delete] only_delete
  show ?thesis by blast
qed

text \<open>
  \<^bold>\<open>C23\<close> Idempotence. A second pass over the result of a pass that was not
  rejected, with the disk unchanged, repairs nothing: it returns the same
  array, does not call the synthesiser and resolves with \<^verbatim>\<open>false\<close>.
\<close>

theorem reconcile_pass_idempotent:
  assumes "reconcile_pass mk ex mx g r = (g', r', Inr changed)"
  shows "reconcile_pass mk ex mx g' r'' = (g', r'', Inr False)"
proof -
  from assms have "\<forall>s \<in> set (all_slots mx). reconciled_at ex g' s"
    by (auto simp: reconcile_pass_eq_slots dest: slots_ok_reconciled)
  then show ?thesis
    by (simp add: reconcile_pass_eq_slots slots_in_sync_noop list_all_iff)
qed

theorem reconcile_pass_idempotent_witness:
  "reconcile_pass count_synth sample_exists 3 [None, Some 10, None, Some 31] 2 =
     ([None, Some 10, None, Some 31], 2, Inr False)"
proof -
  have run: "reconcile_pass count_synth sample_exists 3 stale_index 0 =
     ([None, Some 10, None, Some 31], 2, Inr True)"
    by code_simp
  from reconcile_pass_idempotent [OF run] show ?thesis .
qed

text \<open>
  \<^bold>\<open>C6\<close> A rejected synthesis aborts the pass. If the pass is rejected, then
  it was the synthesiser that was rejected, at an id \<open>k\<close> whose save file exists
  and which still has no entry; the ids below \<open>k\<close> have been reconciled and
  stay so in the array the caller holds, and no cell from \<open>k\<close> on has been
  looked at: later ids are not reconciled by this pass.
\<close>

theorem reconcile_pass_aborts:
  assumes "reconcile_pass mk ex mx g r = (g', r', Inl e)"
  shows "\<exists>k r0. int k \<le> mx \<and> ex k \<and> js_get g' k = None \<and> mk k r0 = (r', Inl e) \<and>
           (\<forall>s < k. (js_get g' s \<noteq> None) = ex s) \<and> (\<forall>s \<ge> k. js_get g' s = js_get g s)"
proof (rule pass_rejected [OF assms])
  fix k r0
  assume "int k \<le> mx" "ex k" "js_get g' k = None" "mk k r0 = (r', Inl e)"
    "\<And>s. s < k \<Longrightarrow> reconciled_at ex g' s" "\<And>s. k \<le> s \<Longrightarrow> js_get g' s = js_get g s"
  then show ?thesis
    by (intro exI [of _ k] exI [of _ r0]) (auto simp: reconciled_at_def)
qed

theorem reconcile_pass_aborts_witness:
  "reconcile_pass count_synth broken_exists 3 stale_index 0 = ([None, Some 10], 2, Inl LoadError) \<and>
   (\<exists>k r0. int k \<le> 3 \<and> broken_exists k \<and> js_get [None, Some (10::nat)] k = None \<and>
      count_synth k r0 = (2, Inl LoadError) \<and>
      (\<forall>s < k. (js_get [None, Some (10::nat)] s \<noteq> None) = broken_exists s) \<and>
      (\<forall>s \<ge> k. js_get [None, Some (10::nat)] s = js_get stale_index s))"
proof -
  have run: "reconcile_pass count_synth broken_exists 3 stale_index 0 =
     ([None, Some 10], 2, Inl LoadError)"
    by code_simp
  from reconcile_pass_aborts [OF run] run show ?thesis by simp
qed

text \<open>
  The \<^verbatim>\<open>for\<close> loop terminates and is the pass over the ids
  \<open>0, 1, \<dots>, maxSavefiles()\<close> in ascending order, each visited once: the loop,
  defined by recursion on the distance to \<^verbatim>\<open>maxSavefiles()\<close>, equals the
  structurally recursive pass over that list. With a negative maximum no id is
  visited.
\<close>

theorem reconcile_pass_visits_ascending:
  "reconcile_pass mk ex mx g r = reconcile_slots mk ex [0..<nat (mx + 1)] g r False \<and>
   (mx < 0 \<longrightarrow> reconcile_pass mk ex mx g r = (g, r, Inr False))"
  by (simp add: reconcile_pass_def loop_eq_slots)

theorem reconcile_pass_visits_ascending_witness:
  "reconcile_pass count_synth sample_exists 3 stale_index 0 =
     reconcile_slots count_synth sample_exists [0, 1, 2, 3] stale_index 0 False \<and>
   reconcile_pass count_synth sample_exists (- 1) stale_index 0 = (stale_index, 0, Inr False)"
proof -
  have "[0..<nat (3 + 1)] = [0, 1, 2, 3]" by code_simp
  with reconcile_pass_visits_ascending [of count_synth sample_exists 3 stale_index 0]
    reconcile_pass_visits_ascending [of count_synth sample_exists "- 1" stale_index 0]
  show ?thesis by simp
qed

text \<open>
  \<^bold>\<open>C24\<close> Refinement. Read as a partial map from savefile ids to entries, the
  array after a pass that was not rejected is the abstract reconciliation
  \<open>reconcile_map\<close> of the array before it: entries of existing files are kept,
  entries without a file are removed, files without an entry get one, ids
  beyond the maximum are untouched; and every entry that was added is one the
  synthesiser resolved with for that id.
\<close>

theorem reconcile_pass_refines:
  assumes "reconcile_pass mk ex mx g r = (g', r', Inr changed)"
  shows "\<exists>syn. js_get g' = reconcile_map ex mx syn (js_get g) \<and>
           (\<forall>s. int s \<le> mx \<and> ex s \<and> js_get g s = None \<longrightarrow>
                (\<exists>r0 r1. mk s r0 = (r1, Inr (syn s))))"
proof -
  from assms have run: "reconcile_slots mk ex (all_slots mx) g r False = (g', r', Inr changed)"
    by (simp add: reconcile_pass_eq_slots)
  let ?syn = "\<lambda>s. the (js_get g' s)"
  have "\<exists>r0 r1. mk s r0 = (r1, Inr (?syn s))" if s: "int s \<le> mx" "ex s" "js_get g s = None" for s
  proof -
    from s(1) have "reconciled_at ex g' s"
      by (intro slots_ok_reconciled [OF run]) simp
    with s(2) obtain e where "js_get g' s = Some e"
      by (auto simp: reconciled_at_def)
    with slots_inserted_from [OF run, of s e] s show ?thesis by simp
  qed
  with pass_refines_map [OF run] show ?thesis by blast
qed

theorem reconcile_pass_refines_witness:
  "\<exists>syn. js_get [None, Some 10, None, Some (31::nat)] =
            reconcile_map sample_exists 3 syn (js_get stale_index) \<and>
         (\<forall>s. int s \<le> 3 \<and> sample_exists s \<and> js_get stale_index s = None \<longrightarrow>
              (\<exists>r0 r1. count_synth s r0 = (r1, Inr (syn s))))"
proof -
  have run: "reconcile_pass count_synth sample_exists 3 stale_index 0 =
     ([None, Some 10, None, Some 31], 2, Inr True)"
    by code_simp
  from reconcile_pass_refines [OF run] show ?thesis .
qed

text \<open>
  The pass resolves whenever the synthesiser does: if synthesis is not
  rejected for any id up to the maximum whose file exists and which has no
  entry, the pass is not rejected either.
\<close>

theorem reconcile_pass_resolves:
  assumes "\<And>s r0. int s \<le> mx \<Longrightarrow> ex s \<Longrightarrow> js_get g s = None \<Longrightarrow> ok (snd (mk s r0))"
  shows "\<exists>g' r' changed. reconcile_pass mk ex mx g r = (g', r', Inr changed)"
  unfolding reconcile_pass_eq_slots
  by (rule slots_total) (simp add: assms)

theorem reconcile_pass_resolves_witness:
  "\<exists>g' r' changed.
     reconcile_pass count_synth sample_exists 3 stale_index 0 = (g', r', Inr changed)"
proof (rule reconcile_pass_resolves)
  fix s r0
  assume "int s \<le> 3" "sample_exists s" "js_get stale_index s = None"
  then show "ok (snd (count_synth s r0))"
    by (auto simp: pass_sample_defs)
qed

text \<open>
  Effects in slot order. In a pass that was not rejected the
  synthesiser is called for exactly the ids whose file exists and which have no
  entry in the array the pass started from, once each and in ascending order;
  nothing else changes its state. With a synthesiser that logs, the log of a
  pass is therefore reproducible.
\<close>

theorem reconcile_pass_effects:
  assumes "reconcile_pass mk ex mx g r = (g', r', Inr changed)"
  shows "r' = foldl (\<lambda>r s. fst (mk s r)) r (missing_slots ex g (all_slots mx)) \<and>
         sorted (missing_slots ex g (all_slots mx)) \<and>
         distinct (missing_slots ex g (all_slots mx))"
  using assms slots_ok_state [of "all_slots mx" mk ex g r False g' r' changed]
  by (simp add: reconcile_pass_eq_slots missing_slots_def sorted_wrt_filter)

theorem reconcile_pass_effects_witness:
  "(2::nat) = foldl (\<lambda>r s. fst (count_synth s r)) 0 [1, 3] \<and>
   missing_slots sample_exists stale_index (all_slots 3) = [1, 3]"
proof -
  have run: "reconcile_pass count_synth sample_exists 3 stale_index 0 =
     ([None, Some 10, None, Some 31], 2, Inr True)"
    by code_simp
  have m: "missing_slots sample_exists stale_index (all_slots 3) = [1, 3]"
    by code_simp
  from reconcile_pass_effects [OF run] m show ?thesis by simp
qed

text \<open>
  \<^bold>\<open>C36\<close> Bounds of the array. A pass never shortens the array, and it never
  extends it beyond \<open>maxSavefiles() + 1\<close> cells: deleting leaves a hole, and
  inserting at an id past the end pads with holes up to that id only. When the
  pass resolves, the length of the array is exactly the largest of its length
  before and the successors of the ids that got an entry.
\<close>

theorem reconcile_pass_length:
  assumes "reconcile_pass mk ex mx g r = (g', r', res)"
  shows "length g \<le> length g' \<and> length g' \<le> max (length g) (nat (mx + 1)) \<and>
         (ok res \<longrightarrow>
            length g' = Max (insert (length g) (Suc ` set (missing_slots ex g (all_slots mx)))))"
proof -
  from assms have slots: "reconcile_slots mk ex (all_slots mx) g r False = (g', r', res)"
    by (simp add: reconcile_pass_eq_slots)
  have "length g' = Max (insert (length g) (Suc ` set (missing_slots ex g (all_slots mx))))"
    if "ok res"
    using that slots by (cases res) (auto simp: ok_def intro: slots_length_exact)
  with slots_length [OF slots] show ?thesis
    by (simp add: all_slots_def)
qed

theorem reconcile_pass_length_witness:
  "length stale_index \<le> length [None, Some 10, None, Some (31::nat)] \<and>
   length [None, Some 10, None, Some (31::nat)] \<le> max (length stale_index) (nat (3 + 1)) \<and>
   ok (Inr True :: error + bool) \<and>
   length [None, Some 10, None, Some (31::nat)] =
     Max (insert (length stale_index) (Suc ` set [1, 3])) \<and>
   missing_slots sample_exists stale_index (all_slots 3) = [1, 3]"
proof -
  have run: "reconcile_pass count_synth sample_exists 3 stale_index 0 =
     ([None, Some 10, None, Some 31], 2, Inr True)"
    and m: "missing_slots sample_exists stale_index (all_slots 3) = [1, 3]"
    by code_simp+
  have resolved: "ok (Inr True :: error + bool)" by (simp add: ok_def)
  from reconcile_pass_length [OF run] resolved m show ?thesis by simp
qed

end
