(* ===== verification/Save_Data.thy ===== *)
theory Save_Data
  imports JS_Runtime
begin

text \<open>
  The data the plugin reads and writes, and the collaborators it calls.

  \<^item> \<open>save_info\<close> is the object literal built in
    \<^verbatim>\<open>McKathlin.SaveSync.makeMissingSaveInfo\<close>; \<open>global_info\<close> is the array held in
    \<^verbatim>\<open>DataManager._globalInfo\<close>, indexed by savefile id.
  \<^item> \<open>save_contents\<close> is the payload of one save file as far as the plugin looks
    into it: \<^verbatim>\<open>saveContents.party\<close> (a \<open>game_party\<close> with \<^verbatim>\<open>_actors\<close>, here
    \<open>p_actors\<close>, and \<^verbatim>\<open>maxBattleMembers()\<close>), \<^verbatim>\<open>saveContents.actors\<close> (the function
    \<^verbatim>\<open>actor(id)\<close>, which answers \<^verbatim>\<open>null\<close> for an unknown id) and
    \<^verbatim>\<open>saveContents.system\<close> (a \<open>game_system\<close> with \<^verbatim>\<open>_framesOnSave\<close>, here
    \<open>framesOnSave\<close>). A part that is \<^verbatim>\<open>undefined\<close> in the payload is \<open>None\<close>, so
    that reading through it is a \<open>TypeError\<close> in the model as it is in the code.
  \<^item> \<open>world\<close> is everything the plugin only reads during one pass: the engine's
    \<^verbatim>\<open>DataManager.maxSavefiles\<close>, \<^verbatim>\<open>savefileExists\<close>, \<^verbatim>\<open>makeSavename\<close>,
    \<^verbatim>\<open>StorageManager.loadObject\<close> on save names, \<^verbatim>\<open>$dataSystem.gameTitle\<close> and the
    successive readings of \<^verbatim>\<open>Date.now()\<close>.
  \<^item> \<open>host\<close> is what a pass changes: the console, the number of clock readings
    taken, \<^verbatim>\<open>DataManager._globalInfo\<close> and the outcome of
    \<^verbatim>\<open>StorageManager.loadObject("global")\<close>: a rejection, or the value the
    promise resolves with, which is an array or \<^verbatim>\<open>null\<close> (\<open>None\<close>, as for
    \<^verbatim>\<open>_globalInfo\<close>).
\<close>

section \<open>Definitions\<close>

subsection \<open>Global info\<close>

type_synonym sprite = "string \<times> int"

record save_info =
  title :: string
  characters :: "sprite list"
  faces :: "sprite list"
  playtime :: string
  timestamp :: int

type_synonym global_info = "save_info js_array"

subsection \<open>Save payload\<close>

record game_actor =
  characterName :: string
  characterIndex :: int
  faceName :: string
  faceIndex :: int

record game_party =
  p_actors :: "int list"
  maxBattleMembers :: int

record game_system =
  framesOnSave :: "int option"

record save_contents =
  party :: "game_party option"
  actors :: "(int \<Rightarrow> game_actor option) option"
  system :: "game_system option"

subsection \<open>Collaborators and mutable state\<close>

record world =
  maxSavefiles :: int
  savefileExists :: "nat \<Rightarrow> bool"
  makeSavename :: "nat \<Rightarrow> string"
  loadObject :: "string \<Rightarrow> error + save_contents"
  gameTitle :: string
  dateNow :: "nat \<Rightarrow> int"

datatype log_level = ConsoleLog | ConsoleWarn | ConsoleError

type_synonym log_entry = "log_level \<times> string \<times> error option"

record host =
  console :: "log_entry list"
  clockReads :: nat
  globalInfo :: "global_info option"
  storedGlobal :: "error + global_info option"

definition emit :: "log_level \<Rightarrow> string \<Rightarrow> error option \<Rightarrow> host \<Rightarrow> host" where
  "emit lvl msg err h = h\<lparr>console := console h @ [(lvl, msg, err)]\<rparr>"

definition Date_now :: "world \<Rightarrow> host \<Rightarrow> int \<times> host" where
  "Date_now w h = (dateNow w (clockReads h), h\<lparr>clockReads := Suc (clockReads h)\<rparr>)"

definition file_label :: "nat \<Rightarrow> string" where
  "file_label savefileId = ''File '' @ String_of (JInt (int savefileId))"

subsection \<open>Sample data\<close>

text \<open>
  A concrete payload, world and host on which the theorems of the development are
  instantiated: a party of five with four battle members, saved after 5400
  frames; three slots besides the autosave, of which slot 1 holds that save,
  slot 2 a file that cannot be loaded and slot 3 a payload without any of the
  parts the plugin reads; a stored index that knows slot 0 only, which has no
  file. \<open>partial_save\<close> is the sample save without its system record,
  \<open>marathon_save\<close> the same save after two hours of play, \<open>healthy_world\<close> the
  sample world without the unreadable file, \<open>partial_world\<close> a world in
  which every file holds \<open>partial_save\<close>, \<open>fresh_host\<close> the sample host
  with a storage that resolves with \<^verbatim>\<open>null\<close>, \<open>partial_host\<close> a host whose
  stored index has the entry of save file 1 and nothing else, and
  \<open>overlong_index\<close> an index with an entry for slot 0 and one for slot 5,
  beyond the last slot of the sample world.
\<close>

definition sample_actor :: "string \<Rightarrow> int \<Rightarrow> game_actor" where
  "sample_actor n i =
     \<lparr>characterName = ''Chara_'' @ n, characterIndex = i, faceName = ''Face_'' @ n, faceIndex = i + 1\<rparr>"

definition sample_save :: save_contents where
  "sample_save =
     \<lparr>party = Some \<lparr>p_actors = [3, 1, 2, 5, 4], maxBattleMembers = 4\<rparr>,
      actors = Some (map_of [(1, sample_actor ''A'' 0), (2, sample_actor ''B'' 1),
                             (3, sample_actor ''C'' 2), (4, sample_actor ''D'' 3),
                             (5, sample_actor ''E'' 4)]),
      system = Some \<lparr>framesOnSave = Some 5400\<rparr>\<rparr>"

definition empty_save :: save_contents where
  "empty_save = \<lparr>party = None, actors = None, system = None\<rparr>"

definition partial_save :: save_contents where
  "partial_save = sample_save\<lparr>system := None\<rparr>"

definition marathon_save :: save_contents where
  "marathon_save = sample_save\<lparr>system := Some \<lparr>framesOnSave = Some 432000\<rparr>\<rparr>"

definition sample_info :: save_info where
  "sample_info =
     \<lparr>title = ''Old'', characters = [], faces = [], playtime = ''00:00:10'', timestamp = 7\<rparr>"

definition sample_world :: world where
  "sample_world =
     \<lparr>maxSavefiles = 3,
      savefileExists = (\<lambda>i. i \<in> {1, 2, 3}),
      makeSavename = (\<lambda>i. ''file'' @ digits10 i),
      loadObject = (\<lambda>n. if n = ''file1'' then Inr sample_save
                          else if n = ''file3'' then Inr empty_save else Inl LoadError),
      gameTitle = ''Demo'',
      dateNow = (\<lambda>k. 1000 + int k)\<rparr>"

definition healthy_world :: world where
  "healthy_world = sample_world\<lparr>savefileExists := (\<lambda>i. i \<in> {1, 3})\<rparr>"

definition partial_world :: world where
  "partial_world = sample_world\<lparr>loadObject := (\<lambda>n. Inr partial_save)\<rparr>"

definition sample_host :: host where
  "sample_host =
     \<lparr>console = [], clockReads = 0, globalInfo = None,
      storedGlobal = Inr (Some [Some sample_info])\<rparr>"

definition partial_host :: host where
  "partial_host = sample_host\<lparr>storedGlobal := Inr (Some [None, Some sample_info])\<rparr>"

definition overlong_index :: "save_info option list" where
  "overlong_index = [Some sample_info, None, None, None, None, Some sample_info]"

definition fresh_host :: host where
  "fresh_host = sample_host\<lparr>storedGlobal := Inr None\<rparr>"

section \<open>Effects on the host\<close>

lemma emit_fields [simp, frame_simps]:
  "console (emit lvl msg err h) = console h @ [(lvl, msg, err)]"
  "clockReads (emit lvl msg err h) = clockReads h"
  "globalInfo (emit lvl msg err h) = globalInfo h"
  "storedGlobal (emit lvl msg err h) = storedGlobal h"
  by (simp_all add: emit_def)

lemma Date_now_fields [simp, frame_simps]:
  "fst (Date_now w h) = dateNow w (clockReads h)"
  "console (snd (Date_now w h)) = console h"
  "clockReads (snd (Date_now w h)) = Suc (clockReads h)"
  "globalInfo (snd (Date_now w h)) = globalInfo h"
  "storedGlobal (snd (Date_now w h)) = storedGlobal h"
  by (simp_all add: Date_now_def)

lemma file_label_digits: "file_label i = ''File '' @ digits10 i"
  by (simp add: file_label_def String_of_nonneg)

lemma file_label_inj: "file_label i = file_label j \<Longrightarrow> i = j"
proof -
  assume "file_label i = file_label j"
  then have "parse_nat (digits10 i) = parse_nat (digits10 j)"
    by (simp add: file_label_digits)
  then show "i = j" by simp
qed

end
