(* ===== verification/Summary_Extractor.thy ===== *)
theory Summary_Extractor
  imports Save_Data
begin

text \<open>
  The static helpers of \<^verbatim>\<open>McKathlin.SaveSync\<close> that read a save payload:
  \<open>extractPartyMembers\<close>, \<open>extractCharacters\<close>, \<open>extractFaces\<close> and
  \<open>extractPlaytime\<close>. Each returns \<open>Inl TypeError\<close> exactly where the JavaScript
  throws: reading through an absent \<^verbatim>\<open>party\<close> or \<^verbatim>\<open>system\<close>, calling \<^verbatim>\<open>actor\<close> on
  an absent actor table, calling a method on a \<^verbatim>\<open>null\<close> actor. The four lines
  of arithmetic in \<open>extractPlaytime\<close> are one definition each, written with the
  real division and \<^verbatim>\<open>Math.floor\<close> of the source; the lemmas reduce them to integer
  \<open>div\<close> and \<open>mod\<close>.

  \<open>playtime_spec\<close> is the format the specification asks for and \<open>parse_playtime\<close>
  a reference decoder; neither is code of the plugin.
\<close>

section \<open>Definitions\<close>

subsection \<open>Party members and their portraits\<close>

definition extractPartyMembers :: "save_contents \<Rightarrow> error + game_actor option list" where
  "extractPartyMembers saveContents =
     (case party saveContents of
        None \<Rightarrow> Inl TypeError
      | Some p \<Rightarrow>
          (let maxActive = maxBattleMembers p;
               memberIds = js_slice0 (p_actors p) maxActive;
               gameActors = actors saveContents
           in mapR (\<lambda>id. case gameActors of
                            None \<Rightarrow> Inl TypeError
                          | Some tbl \<Rightarrow> Inr (tbl id)) memberIds))"

definition actor_character :: "game_actor option \<Rightarrow> error + sprite" where
  "actor_character actor =
     (case actor of None \<Rightarrow> Inl TypeError
      | Some a \<Rightarrow> Inr (characterName a, characterIndex a))"

definition actor_face :: "game_actor option \<Rightarrow> error + sprite" where
  "actor_face actor =
     (case actor of None \<Rightarrow> Inl TypeError
      | Some a \<Rightarrow> Inr (faceName a, faceIndex a))"

definition extractCharacters :: "save_contents \<Rightarrow> error + sprite list" where
  "extractCharacters saveContents =
     bindR (extractPartyMembers saveContents) (\<lambda>members. mapR actor_character members)"

definition extractFaces :: "save_contents \<Rightarrow> error + sprite list" where
  "extractFaces saveContents =
     bindR (extractPartyMembers saveContents) (\<lambda>members. mapR actor_face members)"

subsection \<open>Playtime\<close>

definition playtime_totalSeconds :: "jsnum \<Rightarrow> jsnum" where
  "playtime_totalSeconds frames = jsnum_map (\<lambda>f. \<lfloor>real_of_int f / 60\<rfloor>) frames"

definition playtime_hour :: "jsnum \<Rightarrow> jsnum" where
  "playtime_hour totalSeconds = jsnum_map (\<lambda>t. \<lfloor>real_of_int t / 60 / 60\<rfloor>) totalSeconds"

definition playtime_min :: "jsnum \<Rightarrow> jsnum" where
  "playtime_min totalSeconds = jsnum_map (\<lambda>t. \<lfloor>real_of_int t / 60\<rfloor> smod 60) totalSeconds"

definition playtime_sec :: "jsnum \<Rightarrow> jsnum" where
  "playtime_sec totalSeconds = jsnum_map (\<lambda>t. t smod 60) totalSeconds"

definition extractPlaytime :: "save_contents \<Rightarrow> error + string" where
  "extractPlaytime saveContents =
     (case system saveContents of
        None \<Rightarrow> Inl TypeError
      | Some sys \<Rightarrow>
          (let frames = to_number (framesOnSave sys);
               totalSeconds = playtime_totalSeconds frames;
               hour = playtime_hour totalSeconds;
               min = playtime_min totalSeconds;
               sec = playtime_sec totalSeconds
           in Inr (padZero hour 2 @ '':'' @ padZero min 2 @ '':'' @ padZero sec 2)))"

subsection \<open>Reference format and decoder\<close>

definition active_ids :: "save_contents \<Rightarrow> int list" where
  "active_ids saveContents =
     (case party saveContents of
        None \<Rightarrow> []
      | Some p \<Rightarrow> js_slice0 (p_actors p) (maxBattleMembers p))"

definition resolve :: "save_contents \<Rightarrow> int \<Rightarrow> game_actor option" where
  "resolve saveContents actorId =
     (case actors saveContents of None \<Rightarrow> None | Some tbl \<Rightarrow> tbl actorId)"

definition portraits_ok :: "save_contents \<Rightarrow> bool" where
  "portraits_ok saveContents =
     (party saveContents \<noteq> None \<and>
      list_all (\<lambda>id. resolve saveContents id \<noteq> None) (active_ids saveContents))"

definition character_of :: "save_contents \<Rightarrow> int \<Rightarrow> sprite" where
  "character_of saveContents actorId =
     (case resolve saveContents actorId of
        None \<Rightarrow> ([], 0)
      | Some a \<Rightarrow> (characterName a, characterIndex a))"

definition face_of :: "save_contents \<Rightarrow> int \<Rightarrow> sprite" where
  "face_of saveContents actorId =
     (case resolve saveContents actorId of
        None \<Rightarrow> ([], 0)
      | Some a \<Rightarrow> (faceName a, faceIndex a))"

definition playtime_spec :: "nat \<Rightarrow> string" where
  "playtime_spec frames =
     (let t = frames div 60
      in padZero (JInt (int (t div 3600))) 2 @ '':'' @
         padZero (JInt (int (t div 60 mod 60))) 2 @ '':'' @
         padZero (JInt (int (t mod 60))) 2)"

definition split_colon :: "string \<Rightarrow> string \<times> string" where
  "split_colon s = (takeWhile (\<lambda>c. c \<noteq> CHR '':'') s, drop 1 (dropWhile (\<lambda>c. c \<noteq> CHR '':'') s))"

definition playtime_wf :: "string \<Rightarrow> bool" where
  "playtime_wf s =
     (let (hs, rest) = split_colon s; (ms, ss) = split_colon rest
      in 2 \<le> length hs \<and> length ms = 2 \<and> length ss = 2 \<and> list_all is_digit (hs @ ms @ ss))"

definition parse_playtime :: "string \<Rightarrow> nat option" where
  "parse_playtime s =
     (let (hs, rest) = split_colon s; (ms, ss) = split_colon rest
      in case (parse_nat hs, parse_nat ms, parse_nat ss) of
           (Some h, Some m, Some sec) \<Rightarrow> Some ((h * 60 + m) * 60 + sec)
         | _ \<Rightarrow> None)"

section \<open>Party members\<close>

lemma extractPartyMembers_no_party:
  "party sc = None \<Longrightarrow> extractPartyMembers sc = Inl TypeError"
  by (simp add: extractPartyMembers_def)

lemma extractPartyMembers_resolved:
  "party sc = Some p \<Longrightarrow> actors sc = Some tbl \<Longrightarrow>
   extractPartyMembers sc = Inr (map tbl (js_slice0 (p_actors p) (maxBattleMembers p)))"
  by (simp add: extractPartyMembers_def)

lemma extractPartyMembers_no_table:
  "party sc = Some p \<Longrightarrow> actors sc = None \<Longrightarrow>
   extractPartyMembers sc =
     (if js_slice0 (p_actors p) (maxBattleMembers p) = [] then Inr [] else Inl TypeError)"
  by (cases "js_slice0 (p_actors p) (maxBattleMembers p)")
     (simp_all add: extractPartyMembers_def)

lemma extractPartyMembers_eq:
  "extractPartyMembers sc =
     (if party sc = None \<or> (actors sc = None \<and> active_ids sc \<noteq> []) then Inl TypeError
      else Inr (map (resolve sc) (active_ids sc)))"
proof (cases "party sc")
  case None
  then show ?thesis by (simp add: extractPartyMembers_no_party)
next
  case (Some p)
  then show ?thesis
    by (cases "actors sc")
       (simp_all add: extractPartyMembers_no_table extractPartyMembers_resolved
          active_ids_def resolve_def)
qed

lemma actor_character_simps [simp]:
  "actor_character None = Inl TypeError"
  "actor_character (Some a) = Inr (characterName a, characterIndex a)"
  by (simp_all add: actor_character_def)

lemma actor_face_simps [simp]:
  "actor_face None = Inl TypeError"
  "actor_face (Some a) = Inr (faceName a, faceIndex a)"
  by (simp_all add: actor_face_def)

lemma ok_actor_character [simp]: "ok (actor_character a) \<longleftrightarrow> a \<noteq> None"
  by (cases a) simp_all

lemma ok_actor_face [simp]: "ok (actor_face a) \<longleftrightarrow> a \<noteq> None"
  by (cases a) simp_all

lemma mapR_TypeError_only:
  "(\<And>x e. f x = Inl e \<Longrightarrow> e = TypeError) \<Longrightarrow> mapR f xs = Inl e \<Longrightarrow> e = TypeError"
  by (induction xs arbitrary: e) (auto simp: bindR_eq_Inl_iff)

lemma actor_character_error: "actor_character a = Inl e \<Longrightarrow> e = TypeError"
  by (cases a) simp_all

lemma actor_face_error: "actor_face a = Inl e \<Longrightarrow> e = TypeError"
  by (cases a) simp_all

lemma portraits_ok_resolve:
  "portraits_ok sc \<Longrightarrow> k \<in> set (active_ids sc) \<Longrightarrow> \<exists>a. resolve sc k = Some a"
  by (auto simp: portraits_ok_def list_all_iff)

lemma resolve_Some_table: "resolve sc k = Some a \<Longrightarrow> \<exists>tbl. actors sc = Some tbl"
  by (simp add: resolve_def split: option.splits)

lemma portraits_ok_table:
  assumes "portraits_ok sc" and "active_ids sc \<noteq> []"
  shows "actors sc \<noteq> None"
proof -
  from assms(2) have "hd (active_ids sc) \<in> set (active_ids sc)" by simp
  with assms(1) obtain a where "resolve sc (hd (active_ids sc)) = Some a"
    by (blast dest: portraits_ok_resolve)
  then show ?thesis by (auto dest: resolve_Some_table)
qed

lemma portraits_ok_members:
  "portraits_ok sc \<Longrightarrow> extractPartyMembers sc = Inr (map (resolve sc) (active_ids sc))"
  using portraits_ok_table [of sc]
  by (auto simp: extractPartyMembers_eq portraits_ok_def)

lemma ok_mapR_resolve:
  "ok (mapR f (map (resolve sc) (active_ids sc))) \<longleftrightarrow>
     (\<forall>k \<in> set (active_ids sc). ok (f (resolve sc k)))"
  by (simp add: ok_mapR_iff)

lemma not_portraits_ok_cases:
  "\<not> portraits_ok sc \<longleftrightarrow>
     party sc = None \<or> (\<exists>k \<in> set (active_ids sc). resolve sc k = None)"
  by (auto simp: portraits_ok_def list_all_iff)

lemma no_table_resolve: "actors sc = None \<Longrightarrow> resolve sc k = None"
  by (simp add: resolve_def)

lemma ok_extractCharacters_iff: "ok (extractCharacters sc) \<longleftrightarrow> portraits_ok sc"
proof (cases "portraits_ok sc")
  case True
  then show ?thesis
    by (auto simp: extractCharacters_def portraits_ok_members ok_mapR_resolve
        dest: portraits_ok_resolve)
next
  case False
  then have "\<not> ok (extractCharacters sc)"
    by (auto simp: extractCharacters_def extractPartyMembers_eq ok_mapR_resolve
        not_portraits_ok_cases)
  with False show ?thesis by simp
qed

lemma ok_extractFaces_iff: "ok (extractFaces sc) \<longleftrightarrow> portraits_ok sc"
proof (cases "portraits_ok sc")
  case True
  then show ?thesis
    by (auto simp: extractFaces_def portraits_ok_members ok_mapR_resolve
        dest: portraits_ok_resolve)
next
  case False
  then have "\<not> ok (extractFaces sc)"
    by (auto simp: extractFaces_def extractPartyMembers_eq ok_mapR_resolve
        not_portraits_ok_cases)
  with False show ?thesis by simp
qed

lemma mapR_actor_character_error: "mapR actor_character xs = Inl e \<Longrightarrow> e = TypeError"
  by (rule mapR_TypeError_only [of actor_character]) (rule actor_character_error)

lemma mapR_actor_face_error: "mapR actor_face xs = Inl e \<Longrightarrow> e = TypeError"
  by (rule mapR_TypeError_only [of actor_face]) (rule actor_face_error)

lemma extractCharacters_ok:
  assumes "portraits_ok sc"
  shows "extractCharacters sc = Inr (map (character_of sc) (active_ids sc))"
proof -
  have "mapR actor_character (map (resolve sc) (active_ids sc))
          = Inr (map (character_of sc) (active_ids sc))"
    unfolding mapR_map
    by (rule mapR_cong_Inr) (auto simp: character_of_def dest: portraits_ok_resolve [OF assms])
  with assms show ?thesis
    by (simp add: extractCharacters_def portraits_ok_members)
qed

lemma extractFaces_ok:
  assumes "portraits_ok sc"
  shows "extractFaces sc = Inr (map (face_of sc) (active_ids sc))"
proof -
  have "mapR actor_face (map (resolve sc) (active_ids sc))
          = Inr (map (face_of sc) (active_ids sc))"
    unfolding mapR_map
    by (rule mapR_cong_Inr) (auto simp: face_of_def dest: portraits_ok_resolve [OF assms])
  with assms show ?thesis
    by (simp add: extractFaces_def portraits_ok_members)
qed

lemma extractCharacters_error: "extractCharacters sc = Inl e \<Longrightarrow> e = TypeError"
  by (auto simp: extractCharacters_def extractPartyMembers_eq bindR_eq_Inl_iff
      split: if_splits dest: mapR_actor_character_error)

lemma extractFaces_error: "extractFaces sc = Inl e \<Longrightarrow> e = TypeError"
  by (auto simp: extractFaces_def extractPartyMembers_eq bindR_eq_Inl_iff
      split: if_splits dest: mapR_actor_face_error)

lemma extractCharacters_fail: "\<not> portraits_ok sc \<Longrightarrow> extractCharacters sc = Inl TypeError"
  using ok_extractCharacters_iff [of sc] extractCharacters_error [of sc]
  by (cases "extractCharacters sc") auto

lemma extractFaces_fail: "\<not> portraits_ok sc \<Longrightarrow> extractFaces sc = Inl TypeError"
  using ok_extractFaces_iff [of sc] extractFaces_error [of sc]
  by (cases "extractFaces sc") auto

lemma length_active_ids:
  "party sc = Some p \<Longrightarrow> 0 \<le> maxBattleMembers p \<Longrightarrow>
   length (active_ids sc) = min (nat (maxBattleMembers p)) (length (p_actors p))"
  by (simp add: active_ids_def length_js_slice0_nonneg)

section \<open>Playtime arithmetic\<close>

lemma smod_60_nonneg: "0 \<le> a \<Longrightarrow> (a::int) smod 60 = a mod 60"
  by (simp add: signed_modulo_int_def sgn_if)

lemma playtime_NaN [simp]:
  "playtime_totalSeconds JNaN = JNaN" "playtime_hour JNaN = JNaN"
  "playtime_min JNaN = JNaN" "playtime_sec JNaN = JNaN"
  by (simp_all add: playtime_totalSeconds_def playtime_hour_def playtime_min_def
      playtime_sec_def)

lemma playtime_totalSeconds_JInt [simp]: "playtime_totalSeconds (JInt f) = JInt (f div 60)"
  using floor_divide_of_int_eq [of f 60, where ?'a = real]
  by (simp add: playtime_totalSeconds_def)

lemma playtime_hour_JInt [simp]: "playtime_hour (JInt t) = JInt (t div 3600)"
  using floor_divide_of_int_eq [of t 3600, where ?'a = real]
  by (simp add: playtime_hour_def)

lemma playtime_min_JInt [simp]: "playtime_min (JInt t) = JInt (t div 60 smod 60)"
  using floor_divide_of_int_eq [of t 60, where ?'a = real]
  by (simp add: playtime_min_def)

lemma playtime_sec_JInt [simp]: "playtime_sec (JInt t) = JInt (t smod 60)"
  by (simp add: playtime_sec_def)

lemma extractPlaytime_no_system: "system sc = None \<Longrightarrow> extractPlaytime sc = Inl TypeError"
  by (simp add: extractPlaytime_def)

lemma extractPlaytime_no_frames:
  "system sc = Some sys \<Longrightarrow> framesOnSave sys = None \<Longrightarrow>
   extractPlaytime sc = Inr ''NaN:NaN:NaN''"
  by (simp add: extractPlaytime_def)

lemma extractPlaytime_frames:
  "system sc = Some sys \<Longrightarrow> framesOnSave sys = Some f \<Longrightarrow>
   extractPlaytime sc =
     Inr (padZero (JInt (f div 60 div 3600)) 2 @ '':'' @
          padZero (JInt (f div 60 div 60 smod 60)) 2 @ '':'' @
          padZero (JInt (f div 60 smod 60)) 2)"
  by (simp add: extractPlaytime_def)

lemma extractPlaytime_nonneg:
  assumes "system sc = Some sys" and "framesOnSave sys = Some f" and "0 \<le> f"
  shows "extractPlaytime sc = Inr (playtime_spec (nat f))"
proof -
  from assms(3) obtain n where f: "f = int n"
    by (metis nat_0_le)
  have "0 \<le> f div 60" "0 \<le> f div 60 div 60"
    using assms(3) by (simp_all add: pos_imp_zdiv_nonneg_iff)
  then show ?thesis
    using assms(1,2)
    by (simp add: extractPlaytime_frames playtime_spec_def smod_60_nonneg f zdiv_int zmod_int)
qed

lemma ok_extractPlaytime_iff: "ok (extractPlaytime sc) \<longleftrightarrow> system sc \<noteq> None"
  by (simp add: extractPlaytime_def Let_def split: option.splits)

lemma extractPlaytime_error: "extractPlaytime sc = Inl e \<Longrightarrow> e = TypeError \<and> system sc = None"
  by (simp add: extractPlaytime_def Let_def split: option.splits)

section \<open>The format and its decoder\<close>

lemma is_digit_not_colon: "is_digit c \<Longrightarrow> c \<noteq> CHR '':''"
  by (auto simp: is_digit_def digit_val_def)

lemma split_colon_append:
  "list_all is_digit a \<Longrightarrow> split_colon (a @ CHR '':'' # b) = (a, b)"
  by (simp add: split_colon_def list_all_iff is_digit_not_colon)

lemma split_colon_digits:
  assumes "list_all is_digit a"
  shows "split_colon a = (a, [])"
proof -
  from assms have "\<forall>c \<in> set a. c \<noteq> CHR '':''"
    by (auto simp: list_all_iff is_digit_not_colon)
  then have tw: "takeWhile (\<lambda>c. c \<noteq> CHR '':'') a = a"
    and dw: "dropWhile (\<lambda>c. c \<noteq> CHR '':'') a = []"
    by simp_all
  show ?thesis
    unfolding split_colon_def tw dw by simp
qed

lemma list_all_digit_padZero: "0 \<le> a \<Longrightarrow> list_all is_digit (padZero (JInt a) n)"
  by (auto simp: list_all_iff dest: padZero_digits)

lemma hms_recombine: "((t div 3600 * 60 + t div 60 mod 60) * 60 + t mod 60 :: nat) = t"
proof -
  have "t div 3600 = t div 60 div 60"
    by (simp add: div_mult2_eq)
  then show ?thesis
    by (simp add: algebra_simps)
qed

lemma parse_playtime_fields:
  assumes "0 \<le> h" "0 \<le> m" "0 \<le> s"
  shows "parse_playtime
           (padZero (JInt h) 2 @ CHR '':'' # padZero (JInt m) 2 @ CHR '':'' # padZero (JInt s) 2)
           = Some ((nat h * 60 + nat m) * 60 + nat s)"
  using assms
  by (simp add: parse_playtime_def split_colon_append split_colon_digits
      list_all_digit_padZero parse_nat_padZero)

lemma parse_playtime_spec: "parse_playtime (playtime_spec f) = Some (f div 60)"
  using hms_recombine [of "f div 60"]
  by (simp add: playtime_spec_def Let_def parse_playtime_fields)

lemma playtime_wf_spec: "playtime_wf (playtime_spec f)"
proof -
  have "length (padZero (JInt (int (f div 60 div 60 mod 60))) 2) = 2"
       "length (padZero (JInt (int (f div 60 mod 60))) 2) = 2"
    by (simp_all add: length_padZero_two)
  then show ?thesis
    by (simp add: playtime_spec_def Let_def playtime_wf_def split_colon_append
        split_colon_digits list_all_digit_padZero length_padZero)
qed

section \<open>Properties of the extractors\<close>

text \<open>
  \<^bold>\<open>C8\<close> Order preservation and truncation. When the party is present and every
  id of the active roster (the first \<^verbatim>\<open>maxBattleMembers()\<close> ids of \<^verbatim>\<open>party._actors\<close>)
  resolves to an actor, \<open>extractCharacters\<close> and \<open>extractFaces\<close> succeed and list
  the character sprite, respectively the face sprite, of exactly these actors in
  roster order.
\<close>

theorem portraits_roster_order:
  assumes "portraits_ok sc"
  shows "extractCharacters sc = Inr (map (character_of sc) (active_ids sc)) \<and>
         extractFaces sc = Inr (map (face_of sc) (active_ids sc))"
  using assms by (simp add: extractCharacters_ok extractFaces_ok)

theorem portraits_roster_order_witness:
  "portraits_ok sample_save \<and>
   extractCharacters sample_save =
     Inr [(''Chara_C'', 2), (''Chara_A'', 0), (''Chara_B'', 1), (''Chara_E'', 4)] \<and>
   extractFaces sample_save =
     Inr [(''Face_C'', 3), (''Face_A'', 1), (''Face_B'', 2), (''Face_E'', 5)]"
proof -
  have wf: "portraits_ok sample_save" by code_simp
  have computed: "extractCharacters sample_save =
      Inr [(''Chara_C'', 2), (''Chara_A'', 0), (''Chara_B'', 1), (''Chara_E'', 4)]"
    by code_simp
  have "map (character_of sample_save) (active_ids sample_save) =
          [(''Chara_C'', 2), (''Chara_A'', 0), (''Chara_B'', 1), (''Chara_E'', 4)]"
    by code_simp
  moreover have "map (face_of sample_save) (active_ids sample_save) =
          [(''Face_C'', 3), (''Face_A'', 1), (''Face_B'', 2), (''Face_E'', 5)]"
    by code_simp
  ultimately show ?thesis
    using wf portraits_roster_order [OF wf] computed by simp
qed

text \<open>
  \<^bold>\<open>C38\<close> The invariant of an index entry: whenever both portrait extractions
  succeed on a payload whose \<^verbatim>\<open>maxBattleMembers()\<close> is not negative, the two
  sequences have the same length, the smaller of the party size and the maximum
  number of battle members.
\<close>

theorem portraits_length:
  assumes "extractCharacters sc = Inr cs" and "extractFaces sc = Inr fs"
    and "party sc = Some p" and "0 \<le> maxBattleMembers p"
  shows "length cs = length fs \<and>
         length fs = min (nat (maxBattleMembers p)) (length (p_actors p))"
proof -
  from assms(1) have "ok (extractCharacters sc)" by simp
  then have wf: "portraits_ok sc" by (simp add: ok_extractCharacters_iff)
  from wf assms(1) have "cs = map (character_of sc) (active_ids sc)"
    by (simp add: extractCharacters_ok)
  moreover from wf assms(2) have "fs = map (face_of sc) (active_ids sc)"
    by (simp add: extractFaces_ok)
  ultimately show ?thesis
    using assms(3,4) by (simp add: length_active_ids)
qed

theorem portraits_length_witness:
  "length [(''Chara_C'', 2::int), (''Chara_A'', 0), (''Chara_B'', 1), (''Chara_E'', 4)] =
     length [(''Face_C'', 3::int), (''Face_A'', 1), (''Face_B'', 2), (''Face_E'', 5)] \<and>
   length [(''Face_C'', 3::int), (''Face_A'', 1), (''Face_B'', 2), (''Face_E'', 5)] =
     min (nat 4) (length [3, 1, 2, 5, 4 :: int])"
proof -
  have c: "extractCharacters sample_save =
             Inr [(''Chara_C'', 2), (''Chara_A'', 0), (''Chara_B'', 1), (''Chara_E'', 4)]"
    by code_simp
  have f: "extractFaces sample_save =
             Inr [(''Face_C'', 3), (''Face_A'', 1), (''Face_B'', 2), (''Face_E'', 5)]"
    by code_simp
  have p: "party sample_save = Some \<lparr>p_actors = [3, 1, 2, 5, 4], maxBattleMembers = 4\<rparr>"
    by (simp add: sample_save_def)
  show ?thesis
    using portraits_length [OF c f p] by simp
qed

text \<open>
  Portrait extraction fails as a whole: \<open>extractCharacters\<close> throws
  exactly when \<open>extractFaces\<close> throws, namely when the party is absent or an id
  of the active roster does not resolve, and what is thrown is a \<open>TypeError\<close>.
\<close>

theorem portraits_fail_together:
  "(extractCharacters sc = Inl e \<longleftrightarrow> e = TypeError \<and> \<not> portraits_ok sc) \<and>
   (extractFaces sc = Inl e \<longleftrightarrow> e = TypeError \<and> \<not> portraits_ok sc)"
  using ok_extractCharacters_iff [of sc] ok_extractFaces_iff [of sc]
  by (auto dest: extractCharacters_error extractFaces_error
      simp: extractCharacters_fail extractFaces_fail)

theorem portraits_fail_together_witness:
  "\<not> portraits_ok empty_save \<and> extractCharacters empty_save = Inl TypeError \<and>
   extractFaces empty_save = Inl TypeError"
proof -
  have "\<not> portraits_ok empty_save" by code_simp
  then show ?thesis
    using portraits_fail_together [of empty_save TypeError] by simp
qed

text \<open>
  \<^bold>\<open>C4\<close> Playtime formatting. For a payload with a system record and a frame
  count \<open>f \<ge> 0\<close>, \<open>extractPlaytime\<close>, which the code computes with floating
  division, \<^verbatim>\<open>Math.floor\<close> and the truncating \<^verbatim>\<open>%\<close>, returns the string of the
  reference format: hours, minutes and seconds of \<open>f div 60\<close> seconds, each
  padded with zeros to two digits.
\<close>

theorem extractPlaytime_matches_spec:
  assumes "system sc = Some sys" and "framesOnSave sys = Some f" and "0 \<le> f"
  shows "extractPlaytime sc = Inr (playtime_spec (nat f))"
  using assms by (rule extractPlaytime_nonneg)

lemmas playtime_eval =
  playtime_spec_def Let_def padZero_def padStart_def String_of_def digits10.simps digit_char_def

theorem extractPlaytime_matches_spec_witness:
  "extractPlaytime sample_save = Inr ''00:01:30'' \<and>
   extractPlaytime marathon_save = Inr ''02:00:00'' \<and>
   playtime_spec 0 = ''00:00:00'' \<and> playtime_spec (3600 * 60 * 2) = ''02:00:00''"
proof -
  have s: "system sample_save = Some \<lparr>framesOnSave = Some 5400\<rparr>"
    by (simp add: sample_save_def)
  have computed: "extractPlaytime marathon_save = Inr ''02:00:00''"
    by code_simp
  have "playtime_spec (nat 5400) = ''00:01:30''" by (simp add: playtime_eval)
  moreover have "playtime_spec 0 = ''00:00:00''" by (simp add: playtime_eval)
  moreover have "playtime_spec (3600 * 60 * 2) = ''02:00:00''" by (simp add: playtime_eval)
  ultimately show ?thesis
    using extractPlaytime_matches_spec [OF s, of 5400] computed by simp
qed

text \<open>
  \<^bold>\<open>C39\<close> Round trip of the playtime string. For a frame count \<open>f \<ge> 0\<close> the
  extracted string is well formed (an hour field of at least two digits, minute
  and second fields of exactly two digits, separated by colons) and decodes to
  \<open>f div 60\<close> seconds: formatting loses nothing but the frames below one second.
\<close>

theorem extractPlaytime_roundtrip:
  assumes "system sc = Some sys" and "framesOnSave sys = Some f" and "0 \<le> f"
  shows "\<exists>s. extractPlaytime sc = Inr s \<and> playtime_wf s \<and>
             parse_playtime s = Some (nat f div 60)"
  using assms by (simp add: extractPlaytime_nonneg parse_playtime_spec playtime_wf_spec)

theorem extractPlaytime_roundtrip_witness:
  "\<exists>s. extractPlaytime sample_save = Inr s \<and> playtime_wf s \<and>
        parse_playtime s = Some (nat 5400 div 60)"
proof -
  have s: "system sample_save = Some \<lparr>framesOnSave = Some 5400\<rparr>"
    by (simp add: sample_save_def)
  show ?thesis
    using extractPlaytime_roundtrip [OF s, of 5400] by simp
qed

text \<open>
  Playtime extraction throws exactly when the payload has no system
  record, and then it throws a \<open>TypeError\<close>; with a system record it always
  returns a string.
\<close>

theorem extractPlaytime_failure:
  "extractPlaytime sc = Inl e \<longleftrightarrow> e = TypeError \<and> system sc = None"
  by (auto dest: extractPlaytime_error simp: extractPlaytime_no_system)

theorem extractPlaytime_failure_witness:
  "extractPlaytime empty_save = Inl TypeError \<and> system empty_save = None"
  using extractPlaytime_failure [of empty_save TypeError] by (simp add: empty_save_def)

text \<open>
  \<^bold>\<open>C40\<close> A system record without a frame count is not an extraction failure:
  \<^verbatim>\<open>undefined / 60\<close> is \<^verbatim>\<open>NaN\<close>, which \<^verbatim>\<open>Math.floor\<close>, \<^verbatim>\<open>%\<close> and \<^verbatim>\<open>padZero\<close>
  pass on, so \<open>extractPlaytime\<close> returns the string \<^verbatim>\<open>NaN:NaN:NaN\<close>, which is
  not a well-formed playtime.
\<close>

theorem extractPlaytime_missing_frames:
  assumes "system sc = Some sys" and "framesOnSave sys = None"
  shows "extractPlaytime sc = Inr ''NaN:NaN:NaN'' \<and> \<not> playtime_wf ''NaN:NaN:NaN''"
proof -
  have "\<not> playtime_wf ''NaN:NaN:NaN''" by code_simp
  with assms show ?thesis
    by (simp add: extractPlaytime_no_frames)
qed

theorem extractPlaytime_missing_frames_witness:
  "extractPlaytime (sample_save\<lparr>system := Some \<lparr>framesOnSave = None\<rparr>\<rparr>) = Inr ''NaN:NaN:NaN''"
  using extractPlaytime_missing_frames
    [of "sample_save\<lparr>system := Some \<lparr>framesOnSave = None\<rparr>\<rparr>" "\<lparr>framesOnSave = None\<rparr>"]
  by simp

end
