(* ===== verification/Entry_Synthesis.thy ===== *)
theory Entry_Synthesis
  imports Summary_Extractor
begin

text \<open>
  \<^verbatim>\<open>McKathlin.SaveSync.makeMissingSaveInfo\<close>: the synthesis of an index entry for
  a save file that has none.

  \<^item> \<open>default_info\<close> is the object literal the function starts from;
  \<^item> \<open>try_extract\<close> is the body of its \<^verbatim>\<open>try\<close> block: three assignments in
    sequence, of which the first that throws ends the block, so that the entry
    keeps what was assigned before;
  \<^item> \<open>synthesis_begin\<close> is the function up to its \<^verbatim>\<open>await\<close> (the warning and the
    object literal with its clock read), \<open>synthesis_resume\<close> what it does once
    the payload has arrived (the \<^verbatim>\<open>try\<close> block, its \<^verbatim>\<open>catch\<close> and the logging);
  \<^item> \<open>makeMissingSaveInfo\<close> is the whole function. It threads the \<open>host\<close>
    (console and clock) and returns \<open>Inl\<close> where the promise it returns is
    rejected. The \<^verbatim>\<open>await\<close> of \<^verbatim>\<open>StorageManager.loadObject\<close> stands before the
    \<^verbatim>\<open>try\<close>, so a rejected load rejects the function;
  \<^item> \<open>msg_restoring\<close>, \<open>msg_restored\<close>, \<open>msg_failed\<close> and \<open>msg_can_still\<close> are its
    four console messages.

  \<open>expected_info\<close> describes the result without control flow; it is the
  specification the function is proved against.
\<close>

section \<open>Definitions\<close>

definition default_info :: "world \<Rightarrow> int \<Rightarrow> save_info" where
  "default_info w now =
     \<lparr>title = gameTitle w, characters = [], faces = [], playtime = ''??:??:??'',
      timestamp = now\<rparr>"

definition try_extract :: "save_contents \<Rightarrow> save_info \<Rightarrow> save_info \<times> error option" where
  "try_extract saveContents info =
     (case extractCharacters saveContents of
        Inl err \<Rightarrow> (info, Some err)
      | Inr cs \<Rightarrow>
          (case extractFaces saveContents of
             Inl err \<Rightarrow> (info\<lparr>characters := cs\<rparr>, Some err)
           | Inr fs \<Rightarrow>
               (case extractPlaytime saveContents of
                  Inl err \<Rightarrow> (info\<lparr>characters := cs, faces := fs\<rparr>, Some err)
                | Inr pt \<Rightarrow> (info\<lparr>characters := cs, faces := fs, playtime := pt\<rparr>, None))))"

definition msg_restoring :: "nat \<Rightarrow> string" where
  "msg_restoring savefileId = ''Restoring global save info for '' @ file_label savefileId @ ''...''"

definition msg_restored :: "nat \<Rightarrow> string" where
  "msg_restored savefileId =
     file_label savefileId @ [CHR 0x27] @ ''s info has been restored successfully.''"

definition msg_failed :: "nat \<Rightarrow> string" where
  "msg_failed savefileId =
     ''Failed to restore some of '' @ file_label savefileId @ [CHR 0x27] @ ''s save info:''"

definition msg_can_still :: "nat \<Rightarrow> string" where
  "msg_can_still savefileId = ''You can still try loading '' @ file_label savefileId @ ''.''"

definition synthesis_begin :: "world \<Rightarrow> nat \<Rightarrow> host \<Rightarrow> save_info \<times> host" where
  "synthesis_begin w savefileId h0 =
     (let h1 = emit ConsoleWarn (msg_restoring savefileId) None h0;
          (now, h2) = Date_now w h1
      in (default_info w now, h2))"

definition synthesis_resume ::
  "nat \<Rightarrow> save_contents \<Rightarrow> save_info \<Rightarrow> host \<Rightarrow> save_info \<times> host" where
  "synthesis_resume savefileId saveContents info h =
     (case try_extract saveContents info of
        (info', None) \<Rightarrow> (info', emit ConsoleLog (msg_restored savefileId) None h)
      | (info', Some err) \<Rightarrow>
          (info', emit ConsoleWarn (msg_can_still savefileId) None
                    (emit ConsoleError (msg_failed savefileId) (Some err) h)))"

definition makeMissingSaveInfo :: "world \<Rightarrow> nat \<Rightarrow> host \<Rightarrow> host \<times> (error + save_info)" where
  "makeMissingSaveInfo w savefileId h0 =
     (let (info, h) = synthesis_begin w savefileId h0;
          saveName = makeSavename w savefileId
      in case loadObject w saveName of
           Inl err \<Rightarrow> (h, Inl err)
         | Inr saveContents \<Rightarrow>
             (let (info', h') = synthesis_resume savefileId saveContents info h
              in (h', Inr info')))"

subsection \<open>Specification of the synthesised entry\<close>

definition playtime_string :: "game_system \<Rightarrow> string" where
  "playtime_string sys =
     (case framesOnSave sys of
        None \<Rightarrow> ''NaN:NaN:NaN''
      | Some f \<Rightarrow>
          padZero (JInt (f div 60 div 3600)) 2 @ '':'' @
          padZero (JInt (f div 60 div 60 smod 60)) 2 @ '':'' @
          padZero (JInt (f div 60 smod 60)) 2)"

definition expected_info :: "world \<Rightarrow> save_contents \<Rightarrow> int \<Rightarrow> save_info" where
  "expected_info w sc now =
     (let d = default_info w now
      in if \<not> portraits_ok sc then d
         else
           (let d2 = d\<lparr>characters := map (character_of sc) (active_ids sc),
                       faces := map (face_of sc) (active_ids sc)\<rparr>
            in case system sc of
                 None \<Rightarrow> d2
               | Some sys \<Rightarrow> d2\<lparr>playtime := playtime_string sys\<rparr>))"

definition extraction_error :: "save_contents \<Rightarrow> error option" where
  "extraction_error sc =
     (if portraits_ok sc \<and> system sc \<noteq> None then None else Some TypeError)"

definition synthesis_log :: "nat \<Rightarrow> error option \<Rightarrow> log_entry list" where
  "synthesis_log savefileId outcome =
     (ConsoleWarn, msg_restoring savefileId, None) #
     (case outcome of
        None \<Rightarrow> [(ConsoleLog, msg_restored savefileId, None)]
      | Some err \<Rightarrow>
          [(ConsoleError, msg_failed savefileId, Some err),
           (ConsoleWarn, msg_can_still savefileId, None)])"

section \<open>The try block\<close>

lemma extractPlaytime_string:
  "system sc = Some sys \<Longrightarrow> extractPlaytime sc = Inr (playtime_string sys)"
  by (cases "framesOnSave sys")
     (simp_all add: playtime_string_def extractPlaytime_no_frames extractPlaytime_frames)

lemma playtime_string_nonneg:
  assumes "framesOnSave sys = Some f" and "0 \<le> f"
  shows "playtime_string sys = playtime_spec (nat f)"
proof -
  let ?sc = "\<lparr>party = None, actors = None, system = Some sys\<rparr>"
  have "extractPlaytime ?sc = Inr (playtime_string sys)"
    by (rule extractPlaytime_string) simp
  moreover have "extractPlaytime ?sc = Inr (playtime_spec (nat f))"
    using assms by (intro extractPlaytime_nonneg [of _ sys]) simp_all
  ultimately show ?thesis by simp
qed

lemma try_extract_no_portraits:
  "\<not> portraits_ok sc \<Longrightarrow> try_extract sc info = (info, Some TypeError)"
  by (simp add: try_extract_def extractCharacters_fail)

lemma try_extract_no_system:
  "portraits_ok sc \<Longrightarrow> system sc = None \<Longrightarrow>
   try_extract sc info =
     (info\<lparr>characters := map (character_of sc) (active_ids sc),
            faces := map (face_of sc) (active_ids sc)\<rparr>, Some TypeError)"
  by (simp add: try_extract_def extractCharacters_ok extractFaces_ok extractPlaytime_no_system)

lemma try_extract_all:
  "portraits_ok sc \<Longrightarrow> system sc = Some sys \<Longrightarrow>
   try_extract sc info =
     (info\<lparr>characters := map (character_of sc) (active_ids sc),
            faces := map (face_of sc) (active_ids sc),
            playtime := playtime_string sys\<rparr>, None)"
  by (simp add: try_extract_def extractCharacters_ok extractFaces_ok extractPlaytime_string)

lemma try_extract_eq:
  "try_extract sc (default_info w now) = (expected_info w sc now, extraction_error sc)"
proof (cases "portraits_ok sc")
  case False
  then show ?thesis
    by (simp add: try_extract_no_portraits expected_info_def extraction_error_def)
next
  case True
  then show ?thesis
    by (cases "system sc")
       (simp_all add: try_extract_no_system try_extract_all expected_info_def
          extraction_error_def Let_def)
qed

lemma try_extract_keeps [simp]:
  "title (fst (try_extract sc info)) = title info"
  "timestamp (fst (try_extract sc info)) = timestamp info"
  by (simp_all add: try_extract_def split: sum.splits)

section \<open>The whole function\<close>

lemma makeMissingSaveInfo_load_failed:
  assumes "loadObject w (makeSavename w i) = Inl e"
  shows "makeMissingSaveInfo w i h =
           (snd (Date_now w (emit ConsoleWarn (msg_restoring i) None h)), Inl e)"
  using assms by (simp add: makeMissingSaveInfo_def synthesis_begin_def Let_def split_beta)

lemma makeMissingSaveInfo_loaded:
  assumes "loadObject w (makeSavename w i) = Inr sc"
  shows "makeMissingSaveInfo w i h =
           ((snd (Date_now w h))\<lparr>console := console h @ synthesis_log i (extraction_error sc)\<rparr>,
            Inr (expected_info w sc (dateNow w (clockReads h))))"
  using assms
  by (cases "extraction_error sc")
     (simp_all add: makeMissingSaveInfo_def synthesis_begin_def synthesis_resume_def Let_def split_beta
        try_extract_eq Date_now_def
        emit_def synthesis_log_def)

lemma makeMissingSaveInfo_frame [simp, frame_simps]:
  "globalInfo (fst (makeMissingSaveInfo w i h)) = globalInfo h"
  "storedGlobal (fst (makeMissingSaveInfo w i h)) = storedGlobal h"
  "clockReads (fst (makeMissingSaveInfo w i h)) = Suc (clockReads h)"
  by (cases "loadObject w (makeSavename w i)";
      simp add: makeMissingSaveInfo_load_failed makeMissingSaveInfo_loaded Date_now_def)+

lemma makeMissingSaveInfo_console:
  "console (fst (makeMissingSaveInfo w i h)) =
     console h @
     (case loadObject w (makeSavename w i) of
        Inl e \<Rightarrow> [(ConsoleWarn, msg_restoring i, None)]
      | Inr sc \<Rightarrow> synthesis_log i (extraction_error sc))"
  by (cases "loadObject w (makeSavename w i)")
     (simp_all add: makeMissingSaveInfo_load_failed makeMissingSaveInfo_loaded Date_now_def)

lemma makeMissingSaveInfo_result:
  "snd (makeMissingSaveInfo w i h) =
     (case loadObject w (makeSavename w i) of
        Inl e \<Rightarrow> Inl e
      | Inr sc \<Rightarrow> Inr (expected_info w sc (dateNow w (clockReads h))))"
  by (cases "loadObject w (makeSavename w i)")
     (simp_all add: makeMissingSaveInfo_load_failed makeMissingSaveInfo_loaded)

lemma ok_makeMissingSaveInfo_iff:
  "ok (snd (makeMissingSaveInfo w i h)) \<longleftrightarrow> ok (loadObject w (makeSavename w i))"
  by (simp add: makeMissingSaveInfo_result split: sum.splits)

lemma expected_info_fixed [simp]:
  "title (expected_info w sc now) = gameTitle w"
  "timestamp (expected_info w sc now) = now"
  by (simp_all add: expected_info_def default_info_def Let_def split: option.splits)

section \<open>Properties of entry synthesis\<close>

text \<open>
  \<^bold>\<open>C3\<close> Partial success is preserved. When the save file loads,
  \<open>makeMissingSaveInfo\<close> resolves with the entry that \<open>expected_info\<close> describes:
  the game title and the clock reading taken at synthesis always; characters
  and faces of the active roster if the portraits can be extracted, empty
  lists otherwise; the formatted playtime if moreover the payload has a system
  record, the placeholder \<^verbatim>\<open>??:??:??\<close> otherwise.
\<close>

theorem synthesis_partial_success:
  assumes "loadObject w (makeSavename w i) = Inr sc"
  shows "snd (makeMissingSaveInfo w i h) = Inr (expected_info w sc (dateNow w (clockReads h)))"
  using assms by (simp add: makeMissingSaveInfo_loaded)

theorem synthesis_partial_success_witness:
  "snd (makeMissingSaveInfo sample_world 1 sample_host) =
     Inr \<lparr>title = ''Demo'',
          characters = [(''Chara_C'', 2), (''Chara_A'', 0), (''Chara_B'', 1), (''Chara_E'', 4)],
          faces = [(''Face_C'', 3), (''Face_A'', 1), (''Face_B'', 2), (''Face_E'', 5)],
          playtime = ''00:01:30'', timestamp = 1000\<rparr> \<and>
   snd (makeMissingSaveInfo sample_world 3 sample_host) =
     Inr \<lparr>title = ''Demo'', characters = [], faces = [], playtime = ''??:??:??'',
          timestamp = 1000\<rparr> \<and>
   snd (makeMissingSaveInfo partial_world 1 sample_host) =
     Inr \<lparr>title = ''Demo'',
          characters = [(''Chara_C'', 2), (''Chara_A'', 0), (''Chara_B'', 1), (''Chara_E'', 4)],
          faces = [(''Face_C'', 3), (''Face_A'', 1), (''Face_B'', 2), (''Face_E'', 5)],
          playtime = ''??:??:??'', timestamp = 1000\<rparr>"
proof -
  have lp: "loadObject partial_world (makeSavename partial_world 1) = Inr partial_save"
    by (simp add: partial_world_def)
  have computed: "fst (try_extract partial_save (default_info partial_world 1000)) =
     \<lparr>title = ''Demo'',
      characters = [(''Chara_C'', 2), (''Chara_A'', 0), (''Chara_B'', 1), (''Chara_E'', 4)],
      faces = [(''Face_C'', 3), (''Face_A'', 1), (''Face_B'', 2), (''Face_E'', 5)],
      playtime = ''??:??:??'', timestamp = 1000\<rparr>"
    by code_simp
  have ep: "expected_info partial_world partial_save (dateNow partial_world (clockReads sample_host)) =
     \<lparr>title = ''Demo'',
      characters = [(''Chara_C'', 2), (''Chara_A'', 0), (''Chara_B'', 1), (''Chara_E'', 4)],
      faces = [(''Face_C'', 3), (''Face_A'', 1), (''Face_B'', 2), (''Face_E'', 5)],
      playtime = ''??:??:??'', timestamp = 1000\<rparr>"
    by code_simp
  have l1: "loadObject sample_world (makeSavename sample_world 1) = Inr sample_save"
    by (simp add: sample_world_def digits10_small digit_char_def)
  have l3: "loadObject sample_world (makeSavename sample_world 3) = Inr empty_save"
    by (simp add: sample_world_def digits10_small digit_char_def)
  have "expected_info sample_world sample_save (dateNow sample_world (clockReads sample_host)) =
     \<lparr>title = ''Demo'',
      characters = [(''Chara_C'', 2), (''Chara_A'', 0), (''Chara_B'', 1), (''Chara_E'', 4)],
      faces = [(''Face_C'', 3), (''Face_A'', 1), (''Face_B'', 2), (''Face_E'', 5)],
      playtime = ''00:01:30'', timestamp = 1000\<rparr>"
    by code_simp
  moreover have
    "expected_info sample_world empty_save (dateNow sample_world (clockReads sample_host)) =
       \<lparr>title = ''Demo'', characters = [], faces = [], playtime = ''??:??:??'',
        timestamp = 1000\<rparr>"
    by code_simp
  ultimately show ?thesis
    using synthesis_partial_success [OF l1, of sample_host]
      synthesis_partial_success [OF l3, of sample_host]
      synthesis_partial_success [OF lp, of sample_host] ep computed
    by simp
qed

text \<open>
  A save file that cannot be loaded is not turned into a placeholder
  entry: the \<^verbatim>\<open>await\<close> of \<^verbatim>\<open>loadObject\<close> is outside the \<^verbatim>\<open>try\<close> block, so
  \<open>makeMissingSaveInfo\<close> is rejected with the load error, after one warning on
  the console and one reading of the clock.
\<close>

theorem synthesis_load_failure:
  assumes "loadObject w (makeSavename w i) = Inl e"
  shows "snd (makeMissingSaveInfo w i h) = Inl e \<and>
         console (fst (makeMissingSaveInfo w i h)) =
           console h @ [(ConsoleWarn, msg_restoring i, None)]"
  using assms by (simp add: makeMissingSaveInfo_load_failed)

theorem synthesis_load_failure_witness:
  "snd (makeMissingSaveInfo sample_world 2 sample_host) = Inl LoadError \<and>
   console (fst (makeMissingSaveInfo sample_world 2 sample_host)) =
     [(ConsoleWarn, ''Restoring global save info for File 2...'', None)]"
proof -
  have l2: "loadObject sample_world (makeSavename sample_world 2) = Inl LoadError"
    by (simp add: sample_world_def digits10_small digit_char_def)
  have "console sample_host @ [(ConsoleWarn, msg_restoring 2, None)] =
          [(ConsoleWarn, ''Restoring global save info for File 2...'', None)]"
    by code_simp
  then show ?thesis
    using synthesis_load_failure [OF l2, of sample_host] by simp
qed

text \<open>
  Extraction errors never leave \<open>makeMissingSaveInfo\<close>: it is rejected
  exactly when the load of the save file is rejected, whatever the payload.
\<close>

theorem synthesis_fails_only_on_load:
  "(\<exists>e. snd (makeMissingSaveInfo w i h) = Inl e) \<longleftrightarrow>
   (\<exists>e. loadObject w (makeSavename w i) = Inl e)"
  using ok_makeMissingSaveInfo_iff [of w i h] by (simp add: not_ok_iff [symmetric])

theorem synthesis_fails_only_on_load_witness:
  "(\<exists>e. snd (makeMissingSaveInfo sample_world 3 sample_host) = Inl e) \<longleftrightarrow> False"
proof -
  have "loadObject sample_world (makeSavename sample_world 3) = Inr empty_save"
    by (simp add: sample_world_def digits10_small digit_char_def)
  then show ?thesis
    using synthesis_fails_only_on_load [of sample_world 3 sample_host] by simp
qed

text \<open>
  Every synthesised entry satisfies the invariant of index entries:
  \<open>characters\<close> and \<open>faces\<close> have the same length. It carries the current game
  title, and its timestamp is the clock reading taken during synthesis, not a
  value from the save file.
\<close>

theorem synthesis_entry_invariant:
  assumes "snd (makeMissingSaveInfo w i h) = Inr info"
  shows "length (characters info) = length (faces info) \<and> title info = gameTitle w \<and>
         timestamp info = dateNow w (clockReads h)"
proof (cases "loadObject w (makeSavename w i)")
  case (Inl e)
  with assms show ?thesis by (simp add: makeMissingSaveInfo_result)
next
  case (Inr sc)
  with assms have "info = expected_info w sc (dateNow w (clockReads h))"
    by (simp add: makeMissingSaveInfo_result)
  then show ?thesis
    by (simp add: expected_info_def default_info_def Let_def split: option.splits)
qed

theorem synthesis_entry_invariant_witness:
  "length (characters (expected_info sample_world sample_save 1000)) =
     length (faces (expected_info sample_world sample_save 1000)) \<and>
   title (expected_info sample_world sample_save 1000) = gameTitle sample_world"
proof -
  have "snd (makeMissingSaveInfo sample_world 1 sample_host) =
          Inr (expected_info sample_world sample_save 1000)"
    by code_simp
  from synthesis_entry_invariant [OF this] show ?thesis by simp
qed

text \<open>
  Effects of one synthesis. \<open>makeMissingSaveInfo\<close> leaves
  \<^verbatim>\<open>DataManager._globalInfo\<close> and the stored index alone, reads the clock exactly
  once, and appends to the console: the warning that restoration starts, then
  nothing more if the load is rejected, the success message if all three
  fields were extracted, and otherwise the error with what was thrown followed
  by the hint that the file can still be loaded.
\<close>

theorem synthesis_effects:
  "globalInfo (fst (makeMissingSaveInfo w i h)) = globalInfo h \<and>
   storedGlobal (fst (makeMissingSaveInfo w i h)) = storedGlobal h \<and>
   clockReads (fst (makeMissingSaveInfo w i h)) = Suc (clockReads h) \<and>
   console (fst (makeMissingSaveInfo w i h)) =
     console h @
     (case loadObject w (makeSavename w i) of
        Inl e \<Rightarrow> [(ConsoleWarn, msg_restoring i, None)]
      | Inr sc \<Rightarrow> synthesis_log i (extraction_error sc))"
  by (simp add: makeMissingSaveInfo_console)

theorem synthesis_effects_witness:
  "console (fst (makeMissingSaveInfo sample_world 3 sample_host)) =
     [(ConsoleWarn, ''Restoring global save info for File 3...'', None),
      (ConsoleError, ''Failed to restore some of File 3's save info:'', Some TypeError),
      (ConsoleWarn, ''You can still try loading File 3.'', None)] \<and>
   clockReads (fst (makeMissingSaveInfo sample_world 3 sample_host)) = 1"
proof -
  have "console sample_host @
     (case loadObject sample_world (makeSavename sample_world 3) of
        Inl e \<Rightarrow> [(ConsoleWarn, msg_restoring 3, None)]
      | Inr sc \<Rightarrow> synthesis_log 3 (extraction_error sc)) =
     [(ConsoleWarn, ''Restoring global save info for File 3...'', None),
      (ConsoleError, ''Failed to restore some of File 3's save info:'', Some TypeError),
      (ConsoleWarn, ''You can still try loading File 3.'', None)]"
    by code_simp
  moreover have "clockReads sample_host = 0"
    by (simp add: sample_host_def)
  ultimately show ?thesis
    using synthesis_effects [of sample_world 3 sample_host] by simp
qed

end
