(* ===== verification/Index_Loader.thy ===== *)
theory Index_Loader
  imports Index_Reconciler Entry_Synthesis
begin

text \<open>
  \<^verbatim>\<open>DataManager.loadGlobalInfo\<close>, the replacement method of the plugin, and
  \<^verbatim>\<open>DataManager.updateGlobalInfo\<close> as it is called there.

  \<^item> \<open>updateGlobalInfo\<close> is the reconciliation pass of theory \<open>Index_Reconciler\<close>
    with \<open>makeMissingSaveInfo\<close> as synthesiser and the engine's
    \<^verbatim>\<open>savefileExists\<close> and \<^verbatim>\<open>maxSavefiles\<close>;
  \<^item> \<open>updateGlobalInfo_call\<close> is the same method on whatever the closure variable
    \<^verbatim>\<open>pendingGlobalInfo\<close> holds when the method is called: on an array it is
    \<open>updateGlobalInfo\<close>; on \<^verbatim>\<open>null\<close> the first iteration of the loop reads
    \<^verbatim>\<open>globalInfo[0]\<close>, which is a \<open>TypeError\<close> that rejects the promise before
    anything else has happened, and a loop without iterations resolves with
    \<^verbatim>\<open>false\<close>;
  \<^item> the promise chain of \<open>loadGlobalInfo\<close> is one definition per callback:
    \<open>onGlobalLoaded\<close> (\<^verbatim>\<open>then\<close>) and \<open>onGlobalLoadFailed\<close> (\<^verbatim>\<open>catch\<close>) produce the
    value of \<^verbatim>\<open>pendingGlobalInfo\<close> (\<open>loadStoredGlobal\<close> is the
    load of the stored index with the one of them that runs), \<open>onLoadSettled\<close>
    (\<^verbatim>\<open>finally\<close>) runs the pass and hands its outcome to \<open>onUpdated\<close> or
    \<open>onUpdateFailed\<close>. The pass mutates the array that \<^verbatim>\<open>pendingGlobalInfo\<close>
    refers to, so both callbacks receive the array as the pass left it;
  \<^item> \<open>loadGlobalInfo\<close> composes them in the order in which the callbacks run.
    The function itself returns before any callback has run; the model is the
    state once the chain has settled;
  \<^item> \<open>saveGlobalInfo\<close> and \<open>isGlobalInfoLoaded\<close> are the engine's methods of these
    names: the first stores \<^verbatim>\<open>_globalInfo\<close> under the name \<^verbatim>\<open>"global"\<close>, the second
    is what the boot scene waits for.
\<close>

section \<open>Definitions\<close>

definition updateGlobalInfo ::
  "world \<Rightarrow> global_info \<Rightarrow> host \<Rightarrow> (host, save_info) pass_result" where
  "updateGlobalInfo w g h =
     reconcile_pass (makeMissingSaveInfo w) (savefileExists w) (maxSavefiles w) g h"

definition updateGlobalInfo_call ::
  "world \<Rightarrow> global_info option \<Rightarrow> host \<Rightarrow> global_info option \<times> host \<times> (error + bool)" where
  "updateGlobalInfo_call w pending h =
     (case pending of
        None \<Rightarrow> (None, h, if 0 \<le> maxSavefiles w then Inl TypeError else Inr False)
      | Some g \<Rightarrow> (case updateGlobalInfo w g h of (g', h', res) \<Rightarrow> (Some g', h', res)))"

definition onGlobalLoaded ::
  "global_info option \<Rightarrow> host \<Rightarrow> global_info option \<times> host" where
  "onGlobalLoaded loaded h = (loaded, emit ConsoleLog ''Global info loaded.'' None h)"

definition onGlobalLoadFailed :: "host \<Rightarrow> global_info option \<times> host" where
  "onGlobalLoadFailed h =
     (Some [], emit ConsoleWarn ''Could not load global info. Using empty list'' None h)"

definition saveGlobalInfo :: "host \<Rightarrow> host" where
  "saveGlobalInfo h = h\<lparr>storedGlobal := Inr (globalInfo h)\<rparr>"

definition isGlobalInfoLoaded :: "host \<Rightarrow> bool" where
  "isGlobalInfoLoaded h = (globalInfo h \<noteq> None)"

definition onUpdated :: "global_info option \<Rightarrow> bool \<Rightarrow> host \<Rightarrow> host" where
  "onUpdated pending infoUpdated h =
     (let h1 = h\<lparr>globalInfo := pending\<rparr>
      in if infoUpdated then saveGlobalInfo h1 else h1)"

definition onUpdateFailed :: "global_info option \<Rightarrow> error \<Rightarrow> host \<Rightarrow> host" where
  "onUpdateFailed pending err h =
     emit ConsoleError ''Failed to update global info'' (Some err)
       (h\<lparr>globalInfo := pending\<rparr>)"

definition onLoadSettled :: "world \<Rightarrow> global_info option \<Rightarrow> host \<Rightarrow> host" where
  "onLoadSettled w pending h =
     (case updateGlobalInfo_call w pending h of
        (pending', h', Inr infoUpdated) \<Rightarrow> onUpdated pending' infoUpdated h'
      | (pending', h', Inl err) \<Rightarrow> onUpdateFailed pending' err h')"

definition loadStoredGlobal :: "host \<Rightarrow> global_info option \<times> host" where
  "loadStoredGlobal h =
     (case storedGlobal h of
        Inr loaded \<Rightarrow> onGlobalLoaded loaded h
      | Inl err \<Rightarrow> onGlobalLoadFailed h)"

definition loadGlobalInfo :: "world \<Rightarrow> host \<Rightarrow> host" where
  "loadGlobalInfo w h =
     (let (pending, h1) = loadStoredGlobal h
      in onLoadSettled w pending h1)"

subsection \<open>Specification vocabulary\<close>

definition stored_array :: "host \<Rightarrow> bool" where
  "stored_array h \<longleftrightarrow> storedGlobal h \<noteq> Inr None"

definition pending_of :: "host \<Rightarrow> global_info" where
  "pending_of h = (case storedGlobal h of Inr (Some g) \<Rightarrow> g | _ \<Rightarrow> [])"

definition boot_entry :: "host \<Rightarrow> log_entry" where
  "boot_entry h =
     (if ok (storedGlobal h) then (ConsoleLog, ''Global info loaded.'', None)
      else (ConsoleWarn, ''Could not load global info. Using empty list'', None))"

definition update_entry :: "error + bool \<Rightarrow> log_entry list" where
  "update_entry res =
     (case res of
        Inl e \<Rightarrow> [(ConsoleError, ''Failed to update global info'', Some e)]
      | Inr u \<Rightarrow> [])"

definition corrupt_host :: host where
  "corrupt_host = sample_host\<lparr>storedGlobal := Inl LoadError\<rparr>"

definition loadable :: "world \<Rightarrow> global_info \<Rightarrow> bool" where
  "loadable w g =
     list_all (\<lambda>s. savefileExists w s \<and> js_get g s = None \<longrightarrow> ok (loadObject w (makeSavename w s)))
       (all_slots (maxSavefiles w))"

section \<open>The pass on the host\<close>

lemma updateGlobalInfo_host:
  assumes "updateGlobalInfo w g h = (g', h', res)"
  shows "globalInfo h' = globalInfo h" and "storedGlobal h' = storedGlobal h"
    and "clockReads h \<le> clockReads h'"
proof -
  from assms have run:
    "reconcile_pass (makeMissingSaveInfo w) (savefileExists w) (maxSavefiles w) g h = (g', h', res)"
    by (simp add: updateGlobalInfo_def)
  show "globalInfo h' = globalInfo h"
    by (rule pass_state_preserved [OF run, where P = "\<lambda>r. globalInfo r = globalInfo h"]) simp_all
  show "storedGlobal h' = storedGlobal h"
    by (rule pass_state_preserved [OF run, where P = "\<lambda>r. storedGlobal r = storedGlobal h"])
       simp_all
  show "clockReads h \<le> clockReads h'"
    by (rule pass_state_preserved [OF run, where P = "\<lambda>r. clockReads h \<le> clockReads r"])
       simp_all
qed

lemma loadable_iff:
  "loadable w g \<longleftrightarrow>
     (\<forall>s. int s \<le> maxSavefiles w \<and> savefileExists w s \<and> js_get g s = None \<longrightarrow>
          ok (loadObject w (makeSavename w s)))"
  by (auto simp: loadable_def list_all_iff)

lemma updateGlobalInfo_resolves:
  assumes "loadable w g"
  shows "\<exists>g' h' changed. updateGlobalInfo w g h = (g', h', Inr changed)"
  unfolding updateGlobalInfo_def reconcile_pass_eq_slots
proof (rule slots_total)
  fix s r0
  assume "s \<in> set (all_slots (maxSavefiles w))" "savefileExists w s" "js_get g s = None"
  with assms show "ok (snd (makeMissingSaveInfo w s r0))"
    by (simp add: loadable_iff ok_makeMissingSaveInfo_iff)
qed

lemma updateGlobalInfo_ok:
  assumes "updateGlobalInfo w g h = (g', h', Inr changed)"
  shows "in_sync (savefileExists w) (maxSavefiles w) g'"
    and "changed \<longleftrightarrow> \<not> in_sync (savefileExists w) (maxSavefiles w) g"
proof -
  from assms have run:
    "reconcile_slots (makeMissingSaveInfo w) (savefileExists w) (all_slots (maxSavefiles w)) g h
       False = (g', h', Inr changed)"
    by (simp add: updateGlobalInfo_def reconcile_pass_eq_slots)
  show "in_sync (savefileExists w) (maxSavefiles w) g'"
    by (auto simp: in_sync_def list_all_iff intro: slots_ok_reconciled [OF run])
  from slots_ok_flag [OF run]
  show "changed \<longleftrightarrow> \<not> in_sync (savefileExists w) (maxSavefiles w) g"
    by (simp add: in_sync_iff)
qed

lemma updateGlobalInfo_resolves_iff:
  "ok (snd (snd (updateGlobalInfo w g h))) \<longleftrightarrow> loadable w g"
proof
  assume "loadable w g"
  from updateGlobalInfo_resolves [OF this, of h]
  show "ok (snd (snd (updateGlobalInfo w g h)))" by auto
next
  assume resolved: "ok (snd (snd (updateGlobalInfo w g h)))"
  show "loadable w g"
  proof (rule ccontr)
    assume "\<not> loadable w g"
    then obtain s where s: "int s \<le> maxSavefiles w" "savefileExists w s" "js_get g s = None"
      "\<not> ok (loadObject w (makeSavename w s))"
      by (auto simp: loadable_iff)
    then have "\<not> ok (snd (snd (reconcile_slots (makeMissingSaveInfo w) (savefileExists w)
        (all_slots (maxSavefiles w)) g h False)))"
      by (intro slots_rejects [of s]) (simp_all add: ok_makeMissingSaveInfo_iff)
    with resolved show False
      by (simp add: updateGlobalInfo_def reconcile_pass_eq_slots)
  qed
qed

lemma updateGlobalInfo_rejected:
  assumes "updateGlobalInfo w g h = (g', h', Inl e)"
  obtains k where "int k \<le> maxSavefiles w" "savefileExists w k" "js_get g' k = None"
    "loadObject w (makeSavename w k) = Inl e"
proof -
  from assms obtain k r0 where k: "int k \<le> maxSavefiles w" "savefileExists w k"
    "js_get g' k = None" "makeMissingSaveInfo w k r0 = (h', Inl e)"
    unfolding updateGlobalInfo_def by (elim pass_rejected) blast
  from arg_cong [OF k(4), of snd] have "loadObject w (makeSavename w k) = Inl e"
    by (simp add: makeMissingSaveInfo_result split: sum.splits)
  with k show thesis by (intro that [of k])
qed

lemma updateGlobalInfo_beyond:
  "updateGlobalInfo w g h = (g', h', res) \<Longrightarrow> \<not> int s \<le> maxSavefiles w \<Longrightarrow>
   js_get g' s = js_get g s"
  unfolding updateGlobalInfo_def reconcile_pass_eq_slots by (erule slots_other) simp

lemma updateGlobalInfo_kept:
  "updateGlobalInfo w g h = (g', h', res) \<Longrightarrow> savefileExists w s \<Longrightarrow> js_get g s \<noteq> None \<Longrightarrow>
   js_get g' s = js_get g s"
  unfolding updateGlobalInfo_def reconcile_pass_eq_slots by (erule slots_present_kept) simp_all

lemma updateGlobalInfo_console:
  assumes "updateGlobalInfo w g h = (g', h', res)"
  shows "\<exists>ys. console h' = console h @ ys"
proof -
  from assms have run:
    "reconcile_pass (makeMissingSaveInfo w) (savefileExists w) (maxSavefiles w) g h = (g', h', res)"
    by (simp add: updateGlobalInfo_def)
  show ?thesis
    by (rule pass_state_preserved [OF run, where P = "\<lambda>r. \<exists>ys. console r = console h @ ys"])
       (auto simp: makeMissingSaveInfo_console)
qed

lemma updateGlobalInfo_entry:
  assumes "updateGlobalInfo w g h = (g', h', res)" and "js_get g' s = Some info"
  shows "js_get g s = Some info \<or>
         (js_get g s = None \<and> int s \<le> maxSavefiles w \<and> savefileExists w s \<and>
          (\<exists>sc k. loadObject w (makeSavename w s) = Inr sc \<and>
                  info = expected_info w sc (dateNow w k)))"
proof -
  from assms(1) have run:
    "reconcile_slots (makeMissingSaveInfo w) (savefileExists w) (all_slots (maxSavefiles w)) g h
       False = (g', h', res)"
    by (simp add: updateGlobalInfo_def reconcile_pass_eq_slots)
  consider (out) "\<not> int s \<le> maxSavefiles w"
    | (kept) "savefileExists w s" "js_get g s \<noteq> None"
    | (stale) "\<not> savefileExists w s"
    | (restored) "int s \<le> maxSavefiles w" "savefileExists w s" "js_get g s = None"
    by blast
  then show ?thesis
  proof cases
    case out
    with slots_other [OF run, of s] assms(2) show ?thesis by simp
  next
    case kept
    with slots_present_kept [OF run, of s] assms(2) show ?thesis by simp
  next
    case stale
    with slots_stale [OF run, of s] assms(2) show ?thesis by auto
  next
    case restored
    with slots_inserted_from [OF run, of s info] assms(2)
    obtain r0 r1 where "makeMissingSaveInfo w s r0 = (r1, Inr info)" by auto
    from arg_cong [OF this, of snd] restored show ?thesis
      by (auto simp: makeMissingSaveInfo_result split: sum.splits)
  qed
qed

lemma updateGlobalInfo_in_sync:
  "in_sync (savefileExists w) (maxSavefiles w) g \<Longrightarrow> updateGlobalInfo w g h = (g, h, Inr False)"
  by (simp add: updateGlobalInfo_def reconcile_pass_eq_slots in_sync_def slots_in_sync_noop)

section \<open>The callbacks\<close>

lemma loadStoredGlobal_fields [simp, frame_simps]:
  "globalInfo (snd (loadStoredGlobal h)) = globalInfo h"
  "storedGlobal (snd (loadStoredGlobal h)) = storedGlobal h"
  "clockReads (snd (loadStoredGlobal h)) = clockReads h"
  "console (snd (loadStoredGlobal h)) = console h @ [boot_entry h]"
  by (cases "storedGlobal h";
      simp add: loadStoredGlobal_def onGlobalLoaded_def onGlobalLoadFailed_def
        boot_entry_def emit_def)+

lemma loadStoredGlobal_pending [simp]:
  "stored_array h \<Longrightarrow> fst (loadStoredGlobal h) = Some (pending_of h)"
  "storedGlobal h = Inr None \<Longrightarrow> fst (loadStoredGlobal h) = None"
  by (auto simp: loadStoredGlobal_def onGlobalLoaded_def onGlobalLoadFailed_def pending_of_def
        stored_array_def split: sum.splits option.splits)

lemma stored_array_cases:
  obtains (array) "stored_array h" | (null) "storedGlobal h = Inr None"
  by (auto simp: stored_array_def)

lemma loadGlobalInfo_eq:
  "stored_array h \<Longrightarrow>
   loadGlobalInfo w h = onLoadSettled w (Some (pending_of h)) (snd (loadStoredGlobal h))"
  by (simp add: loadGlobalInfo_def split_beta)

lemma loadGlobalInfo_null:
  "storedGlobal h = Inr None \<Longrightarrow>
   loadGlobalInfo w h = onLoadSettled w None (snd (loadStoredGlobal h))"
  by (simp add: loadGlobalInfo_def split_beta)

lemma onUpdated_fields [simp]:
  "globalInfo (onUpdated p u h) = p"
  "storedGlobal (onUpdated p u h) = (if u then Inr p else storedGlobal h)"
  "console (onUpdated p u h) = console h"
  "clockReads (onUpdated p u h) = clockReads h"
  by (simp_all add: onUpdated_def saveGlobalInfo_def Let_def)

lemma onUpdateFailed_fields [simp]:
  "globalInfo (onUpdateFailed p e h) = p"
  "storedGlobal (onUpdateFailed p e h) = storedGlobal h"
  "console (onUpdateFailed p e h) = console h @ [(ConsoleError, ''Failed to update global info'', Some e)]"
  "clockReads (onUpdateFailed p e h) = clockReads h"
  by (simp_all add: onUpdateFailed_def)

lemma onLoadSettled_ok:
  "updateGlobalInfo w p h = (p', h', Inr u) \<Longrightarrow>
   onLoadSettled w (Some p) h = onUpdated (Some p') u h'"
  by (simp add: onLoadSettled_def updateGlobalInfo_call_def)

lemma onLoadSettled_rejected:
  "updateGlobalInfo w p h = (p', h', Inl e) \<Longrightarrow>
   onLoadSettled w (Some p) h = onUpdateFailed (Some p') e h'"
  by (simp add: onLoadSettled_def updateGlobalInfo_call_def)

lemma onLoadSettled_None:
  "onLoadSettled w None h =
     (if 0 \<le> maxSavefiles w then onUpdateFailed None TypeError h else onUpdated None False h)"
  by (simp add: onLoadSettled_def updateGlobalInfo_call_def)

lemma onLoadSettled_loaded: "globalInfo (onLoadSettled w (Some p) h) \<noteq> None"
proof -
  obtain p' h' res where run: "updateGlobalInfo w p h = (p', h', res)"
    by (cases "updateGlobalInfo w p h") auto
  then show ?thesis
    by (cases res) (simp_all add: onLoadSettled_ok onLoadSettled_rejected)
qed

lemma onLoadSettled_in_sync:
  assumes "in_sync (savefileExists w) (maxSavefiles w) p"
  shows "onLoadSettled w (Some p) h = h\<lparr>globalInfo := Some p\<rparr>"
  using assms
  by (simp add: onLoadSettled_def updateGlobalInfo_call_def updateGlobalInfo_in_sync onUpdated_def)

lemma onLoadSettled_loadable:
  assumes "loadable w p"
  obtains g h' where
    "onLoadSettled w (Some p) h =
       onUpdated (Some g) (\<not> in_sync (savefileExists w) (maxSavefiles w) p) h'"
    "updateGlobalInfo w p h = (g, h', Inr (\<not> in_sync (savefileExists w) (maxSavefiles w) p))"
    "in_sync (savefileExists w) (maxSavefiles w) g"
    "in_sync (savefileExists w) (maxSavefiles w) p \<Longrightarrow> g = p"
proof -
  from updateGlobalInfo_resolves [OF assms, of h] obtain g h' changed where
    run: "updateGlobalInfo w p h = (g, h', Inr changed)" by blast
  note ok = updateGlobalInfo_ok [OF run]
  have "g = p" if "in_sync (savefileExists w) (maxSavefiles w) p"
    using run updateGlobalInfo_in_sync [OF that, of h] by simp
  with run ok show thesis
    by (intro that [of g h']) (simp_all add: onLoadSettled_ok)
qed

lemma onLoadSettled_not_loadable:
  assumes "\<not> loadable w p"
  obtains g h' e where "onLoadSettled w (Some p) h = onUpdateFailed (Some g) e h'"
    "updateGlobalInfo w p h = (g, h', Inl e)"
proof -
  obtain g h' res where run: "updateGlobalInfo w p h = (g, h', res)"
    by (cases "updateGlobalInfo w p h") auto
  with assms updateGlobalInfo_resolves_iff [of w p h] obtain e where "res = Inl e"
    by (auto simp: not_ok_iff)
  with run show thesis
    by (intro that [of g e h']) (simp_all add: onLoadSettled_rejected)
qed

text \<open>
  A boot from a stored array (or the empty one) is one pass over it, and the
  outcome of the pass decides the three parts of the host that the chain
  changes.
\<close>

lemma loadGlobalInfo_run:
  assumes "stored_array h"
  obtains g h' res where
    "updateGlobalInfo w (pending_of h) (snd (loadStoredGlobal h)) = (g, h', res)"
    "globalInfo (loadGlobalInfo w h) = Some g"
    "storedGlobal (loadGlobalInfo w h) = (if res = Inr True then Inr (Some g) else storedGlobal h)"
    "console (loadGlobalInfo w h) = console h' @ update_entry res"
    "clockReads (loadGlobalInfo w h) = clockReads h'"
proof -
  obtain g h' res where
    run: "updateGlobalInfo w (pending_of h) (snd (loadStoredGlobal h)) = (g, h', res)"
    by (cases "updateGlobalInfo w (pending_of h) (snd (loadStoredGlobal h))") auto
  from updateGlobalInfo_host(2) [OF run] have stored: "storedGlobal h' = storedGlobal h"
    by simp
  show thesis
  proof (cases res)
    case (Inl e)
    with run stored assms show thesis
      by (intro that [of g h' res])
         (simp_all add: loadGlobalInfo_eq onLoadSettled_rejected update_entry_def)
  next
    case (Inr u)
    with run stored assms show thesis
      by (intro that [of g h' res])
         (simp_all add: loadGlobalInfo_eq onLoadSettled_ok update_entry_def)
  qed
qed

lemma loadGlobalInfo_installs: "globalInfo (loadGlobalInfo w h) \<noteq> None \<longleftrightarrow> stored_array h"
proof (cases h rule: stored_array_cases)
  case array
  then show ?thesis
    by (simp add: loadGlobalInfo_eq onLoadSettled_loaded)
next
  case null
  then show ?thesis
    by (simp add: loadGlobalInfo_null onLoadSettled_None stored_array_def)
qed

lemma pending_of_entry: "js_get (pending_of h) s = Some info \<Longrightarrow> stored_array h"
  by (cases h rule: stored_array_cases) (simp_all add: pending_of_def js_get_def)

lemma pending_of_emit [simp]: "pending_of (emit l m e h) = pending_of h"
  by (simp add: pending_of_def)

lemma pending_of_unreadable: "\<not> ok (storedGlobal h) \<Longrightarrow> pending_of h = []"
  by (auto simp: pending_of_def not_ok_iff)

lemma stored_array_emit [simp]: "stored_array (emit l m e h) = stored_array h"
  by (simp add: stored_array_def)

lemma stored_array_unreadable: "\<not> ok (storedGlobal h) \<Longrightarrow> stored_array h"
  by (auto simp: stored_array_def)

lemma pending_of_stored [simp]: "storedGlobal h = Inr (Some g) \<Longrightarrow> pending_of h = g"
  by (simp add: pending_of_def)

text \<open>
  What a boot from a stored array leaves behind when every save file that
  needs an entry can be read: the facts the properties below are read off.
\<close>

lemma loadGlobalInfo_loadable:
  assumes "stored_array h" and "loadable w (pending_of h)"
  obtains g where "globalInfo (loadGlobalInfo w h) = Some g"
    "in_sync (savefileExists w) (maxSavefiles w) g"
    "storedGlobal (loadGlobalInfo w h) =
       (if in_sync (savefileExists w) (maxSavefiles w) (pending_of h) then storedGlobal h
        else Inr (Some g))"
    "pending_of (loadGlobalInfo w h) = g"
    "stored_array (loadGlobalInfo w h)"
proof -
  let ?h0 = "snd (loadStoredGlobal h)"
  from assms(2) obtain g h' where
    settled: "onLoadSettled w (Some (pending_of h)) ?h0 =
       onUpdated (Some g) (\<not> in_sync (savefileExists w) (maxSavefiles w) (pending_of h)) h'"
    and run: "updateGlobalInfo w (pending_of h) ?h0 =
       (g, h', Inr (\<not> in_sync (savefileExists w) (maxSavefiles w) (pending_of h)))"
    and sync: "in_sync (savefileExists w) (maxSavefiles w) g"
    and same: "in_sync (savefileExists w) (maxSavefiles w) (pending_of h) \<Longrightarrow> g = pending_of h"
    by (rule onLoadSettled_loadable [where h = ?h0]) blast
  from updateGlobalInfo_host(2) [OF run] have stored: "storedGlobal h' = storedGlobal h"
    by simp
  have eq: "loadGlobalInfo w h =
       onUpdated (Some g) (\<not> in_sync (savefileExists w) (maxSavefiles w) (pending_of h)) h'"
    by (simp only: loadGlobalInfo_eq [OF assms(1)] settled)
  show thesis
  proof (rule that [of g])
    show "pending_of (loadGlobalInfo w h) = g"
      using same stored by (auto simp: eq pending_of_def)
    show "stored_array (loadGlobalInfo w h)"
      using assms(1) stored by (simp add: eq stored_array_def)
  qed (simp_all add: eq stored sync)
qed

lemmas loader_sample_defs = sample_host_def corrupt_host_def fresh_host_def pending_of_def
  stored_array_def

lemma stored_array_sample [simp]: "stored_array sample_host" "stored_array corrupt_host"
  by (simp_all add: loader_sample_defs)

lemma loadable_healthy: "loadable healthy_world (pending_of sample_host)"
  by code_simp

lemma not_loadable_sample: "\<not> loadable sample_world (pending_of sample_host)"
  by code_simp

section \<open>Properties of the boot-time load\<close>

text \<open>
  \<^bold>\<open>C2\<close> After the boot the index agrees with the disk. If the stored
  index is an array (or cannot be loaded) and every save file that has no
  entry in it can be read, then for every id from 0 to \<^verbatim>\<open>maxSavefiles()\<close> the
  index that \<open>loadGlobalInfo\<close> installs has an entry exactly when the save file
  exists.
\<close>

theorem loadGlobalInfo_in_sync:
  assumes "stored_array h" and "loadable w (pending_of h)"
  shows "\<exists>g. globalInfo (loadGlobalInfo w h) = Some g \<and>
             in_sync (savefileExists w) (maxSavefiles w) g"
  by (rule loadGlobalInfo_loadable [OF assms]) blast

theorem loadGlobalInfo_in_sync_witness:
  "stored_array sample_host \<and> loadable healthy_world (pending_of sample_host) \<and>
   (\<exists>g. globalInfo (loadGlobalInfo healthy_world sample_host) = Some g \<and>
        in_sync (savefileExists healthy_world) (maxSavefiles healthy_world) g) \<and>
   map (\<lambda>e. e \<noteq> None) (the (globalInfo (loadGlobalInfo healthy_world sample_host))) =
     [False, True, False, True]"
proof -
  have computed:
    "map (\<lambda>e. e \<noteq> None) (the (globalInfo (loadGlobalInfo healthy_world sample_host))) =
       [False, True, False, True]"
    by code_simp
  with loadGlobalInfo_in_sync [OF stored_array_sample(1) loadable_healthy] loadable_healthy
  show ?thesis by simp
qed

text \<open>
  \<^bold>\<open>C25\<close> The index is written back exactly when the pass changed it.
  If the stored index is an array (or cannot be loaded) and every save file
  that has no entry in it can be read, the stored index after the boot is the
  installed one if the stored index (or the empty list that replaces an
  unreadable one) disagreed with the disk, and is untouched otherwise.
\<close>

theorem loadGlobalInfo_saves_iff_changed:
  assumes "stored_array h" and "loadable w (pending_of h)"
  shows "storedGlobal (loadGlobalInfo w h) =
           (if in_sync (savefileExists w) (maxSavefiles w) (pending_of h) then storedGlobal h
            else Inr (globalInfo (loadGlobalInfo w h)))"
  by (rule loadGlobalInfo_loadable [OF assms]) simp

theorem loadGlobalInfo_saves_iff_changed_witness:
  "stored_array sample_host \<and> loadable healthy_world (pending_of sample_host) \<and>
   \<not> in_sync (savefileExists healthy_world) (maxSavefiles healthy_world) (pending_of sample_host) \<and>
   storedGlobal (loadGlobalInfo healthy_world sample_host) =
     Inr (globalInfo (loadGlobalInfo healthy_world sample_host))"
proof -
  have "\<not> in_sync (savefileExists healthy_world) (maxSavefiles healthy_world)
          (pending_of sample_host)"
    by code_simp
  with loadGlobalInfo_saves_iff_changed [OF stored_array_sample(1) loadable_healthy]
    loadable_healthy
  show ?thesis by simp
qed

text \<open>
  \<^bold>\<open>C7\<close> A save file that cannot be read stops the repair. If the
  stored index is an array (or cannot be loaded) and some save file without an
  entry in it cannot be loaded, the boot still installs an
  index, but one in which an existing save file has no entry; the error of
  that load is the last thing logged, under \<^verbatim>\<open>Failed to update global info\<close>, and
  nothing is written back, so ids the pass had already repaired are repaired
  again on every boot.
\<close>

theorem loadGlobalInfo_failure_not_saved:
  assumes "stored_array h" and "\<not> loadable w (pending_of h)"
  shows "\<exists>g k e. globalInfo (loadGlobalInfo w h) = Some g \<and>
           int k \<le> maxSavefiles w \<and> savefileExists w k \<and> js_get g k = None \<and>
           loadObject w (makeSavename w k) = Inl e \<and>
           storedGlobal (loadGlobalInfo w h) = storedGlobal h \<and>
           last (console (loadGlobalInfo w h)) =
             (ConsoleError, ''Failed to update global info'', Some e)"
proof (rule loadGlobalInfo_run [OF assms(1), of w])
  fix g h' res
  assume run: "updateGlobalInfo w (pending_of h) (snd (loadStoredGlobal h)) = (g, h', res)"
    and out: "globalInfo (loadGlobalInfo w h) = Some g"
      "storedGlobal (loadGlobalInfo w h) = (if res = Inr True then Inr (Some g) else storedGlobal h)"
      "console (loadGlobalInfo w h) = console h' @ update_entry res"
  from assms(2) updateGlobalInfo_resolves_iff [of w "pending_of h" "snd (loadStoredGlobal h)"] run
  obtain e where res: "res = Inl e" by (auto simp: not_ok_iff)
  from run [unfolded res] obtain k where "int k \<le> maxSavefiles w" "savefileExists w k"
    "js_get g k = None" "loadObject w (makeSavename w k) = Inl e"
    by (rule updateGlobalInfo_rejected)
  with out res show ?thesis
    by (intro exI [of _ g] exI [of _ k] exI [of _ e]) (simp add: update_entry_def)
qed

theorem loadGlobalInfo_failure_not_saved_witness:
  "stored_array sample_host \<and> \<not> loadable sample_world (pending_of sample_host) \<and>
   (\<exists>g k e. globalInfo (loadGlobalInfo sample_world sample_host) = Some g \<and>
      int k \<le> maxSavefiles sample_world \<and> savefileExists sample_world k \<and> js_get g k = None \<and>
      loadObject sample_world (makeSavename sample_world k) = Inl e \<and>
      storedGlobal (loadGlobalInfo sample_world sample_host) = storedGlobal sample_host \<and>
      last (console (loadGlobalInfo sample_world sample_host)) =
        (ConsoleError, ''Failed to update global info'', Some e)) \<and>
   storedGlobal (loadGlobalInfo sample_world sample_host) = Inr (Some [Some sample_info])"
proof -
  have computed:
    "storedGlobal (loadGlobalInfo sample_world sample_host) = Inr (Some [Some sample_info])"
    by code_simp
  with loadGlobalInfo_failure_not_saved [OF stored_array_sample(1) not_loadable_sample]
    not_loadable_sample
  show ?thesis by simp
qed

text \<open>
  \<^bold>\<open>C33\<close> An unreadable index is rebuilt from the disk. If the stored
  index cannot be loaded and every existing save file can, the boot first
  warns \<^verbatim>\<open>Could not load global info. Using empty list\<close> and then installs an
  index whose entries are exactly the existing save files with ids from 0 to
  \<^verbatim>\<open>maxSavefiles()\<close>: nothing beyond that range, and no hole where a file is.
\<close>

theorem loadGlobalInfo_unreadable_index:
  assumes "\<not> ok (storedGlobal h)" and "loadable w []"
  shows "\<exists>g. globalInfo (loadGlobalInfo w h) = Some g \<and>
           (\<forall>s. js_get g s \<noteq> None \<longleftrightarrow> int s \<le> maxSavefiles w \<and> savefileExists w s) \<and>
           console (loadGlobalInfo w h) ! length (console h) =
             (ConsoleWarn, ''Could not load global info. Using empty list'', None)"
proof (rule loadGlobalInfo_run [OF stored_array_unreadable [OF assms(1)], of w])
  fix g h' res
  assume run: "updateGlobalInfo w (pending_of h) (snd (loadStoredGlobal h)) = (g, h', res)"
    and out: "globalInfo (loadGlobalInfo w h) = Some g"
      "console (loadGlobalInfo w h) = console h' @ update_entry res"
  from assms(1) have empty: "pending_of h = []" by (rule pending_of_unreadable)
  have "ok (snd (snd (updateGlobalInfo w (pending_of h) (snd (loadStoredGlobal h)))))"
    using assms(2) by (simp only: updateGlobalInfo_resolves_iff empty)
  then obtain u where res: "res = Inr u"
    by (cases res) (simp_all add: run)
  from updateGlobalInfo_ok(1) [OF run [unfolded res]]
  have inside: "int s \<le> maxSavefiles w \<Longrightarrow> (js_get g s \<noteq> None) = savefileExists w s" for s
    by (simp add: in_sync_iff reconciled_at_def)
  have outside: "\<not> int s \<le> maxSavefiles w \<Longrightarrow> js_get g s = None" for s
    using updateGlobalInfo_beyond [OF run, of s] by (simp add: empty)
  have entries: "\<forall>s. js_get g s \<noteq> None \<longleftrightarrow> int s \<le> maxSavefiles w \<and> savefileExists w s"
  proof
    fix s
    show "js_get g s \<noteq> None \<longleftrightarrow> int s \<le> maxSavefiles w \<and> savefileExists w s"
      using inside [of s] outside [of s] by (cases "int s \<le> maxSavefiles w") auto
  qed
  from updateGlobalInfo_console [OF run] obtain ys where
    "console h' = (console h @ [boot_entry h]) @ ys" by auto
  with assms(1) have "console (loadGlobalInfo w h) ! length (console h) =
      (ConsoleWarn, ''Could not load global info. Using empty list'', None)"
    by (simp add: out(2) boot_entry_def)
  with out(1) entries show ?thesis by simp
qed

theorem loadGlobalInfo_unreadable_index_witness:
  "\<not> ok (storedGlobal corrupt_host) \<and> loadable healthy_world [] \<and>
   (\<exists>g. globalInfo (loadGlobalInfo healthy_world corrupt_host) = Some g \<and>
      (\<forall>s. js_get g s \<noteq> None \<longleftrightarrow>
           int s \<le> maxSavefiles healthy_world \<and> savefileExists healthy_world s) \<and>
      console (loadGlobalInfo healthy_world corrupt_host) ! length (console corrupt_host) =
        (ConsoleWarn, ''Could not load global info. Using empty list'', None))"
proof -
  have pre: "\<not> ok (storedGlobal corrupt_host)" "loadable healthy_world []"
    by code_simp+
  from loadGlobalInfo_unreadable_index [OF pre] pre show ?thesis by simp
qed

text \<open>
  \<^bold>\<open>C34\<close> A second boot changes nothing. After a boot from a stored
  array (or an unreadable index) in which every
  save file that needed an entry could be read, booting again installs the
  same index, leaves the stored index as it is, reads no clock (no entry is
  synthesised) and logs one line, the outcome of loading the index.
\<close>

theorem loadGlobalInfo_second_boot:
  assumes "stored_array h" and "loadable w (pending_of h)"
  shows "globalInfo (loadGlobalInfo w (loadGlobalInfo w h)) = globalInfo (loadGlobalInfo w h) \<and>
         storedGlobal (loadGlobalInfo w (loadGlobalInfo w h)) = storedGlobal (loadGlobalInfo w h) \<and>
         clockReads (loadGlobalInfo w (loadGlobalInfo w h)) = clockReads (loadGlobalInfo w h) \<and>
         console (loadGlobalInfo w (loadGlobalInfo w h)) =
           console (loadGlobalInfo w h) @ [boot_entry (loadGlobalInfo w h)]"
proof (rule loadGlobalInfo_loadable [OF assms])
  fix g
  assume first: "globalInfo (loadGlobalInfo w h) = Some g"
    "in_sync (savefileExists w) (maxSavefiles w) g" "pending_of (loadGlobalInfo w h) = g"
    and array: "stored_array (loadGlobalInfo w h)"
  then have "loadGlobalInfo w (loadGlobalInfo w h) =
      (snd (loadStoredGlobal (loadGlobalInfo w h)))\<lparr>globalInfo := Some g\<rparr>"
    by (simp add: loadGlobalInfo_eq [OF array] onLoadSettled_in_sync)
  with first(1) show ?thesis by simp
qed

theorem loadGlobalInfo_second_boot_witness:
  "stored_array sample_host \<and> loadable healthy_world (pending_of sample_host) \<and>
   globalInfo (loadGlobalInfo healthy_world (loadGlobalInfo healthy_world sample_host)) =
     globalInfo (loadGlobalInfo healthy_world sample_host) \<and>
   storedGlobal (loadGlobalInfo healthy_world (loadGlobalInfo healthy_world sample_host)) =
     storedGlobal (loadGlobalInfo healthy_world sample_host) \<and>
   clockReads (loadGlobalInfo healthy_world (loadGlobalInfo healthy_world sample_host)) = 2"
proof -
  have "clockReads (loadGlobalInfo healthy_world sample_host) = 2"
    by code_simp
  with loadGlobalInfo_second_boot [OF stored_array_sample(1) loadable_healthy] loadable_healthy
  show ?thesis by simp
qed

end
