(* ===== verification/Async_Machine.thy ===== *)
theory Async_Machine
  imports Index_Loader
begin

text \<open>
  The promise chain of \<^verbatim>\<open>DataManager.loadGlobalInfo\<close> as a machine that stops at
  the points where the JavaScript gives up control.

  Theory \<open>Index_Loader\<close> describes the chain by its settled outcome. Here the
  same code is cut at its suspension points, so that the states in between can
  be talked about: what the engine can observe while the chain is pending, and
  that the chain always gets to its end.

  \<^item> \<open>phase\<close> is the program point: \<open>LoadingIndex\<close> while
    \<^verbatim>\<open>StorageManager.loadObject("global")\<close> is pending, \<open>AtSlot g i u\<close> at the
    head of the \<^verbatim>\<open>for\<close> loop with the array, the loop variable and
    \<^verbatim>\<open>infoUpdated\<close>, \<open>NullLoaded\<close> in its place when the value loaded is
    \<^verbatim>\<open>null\<close>, \<open>AwaitingPayload g i info\<close> inside \<^verbatim>\<open>makeMissingSaveInfo(i)\<close>
    at its \<^verbatim>\<open>await\<close> with the entry built so far, and \<open>Settled\<close> when the last
    callback has run. A \<open>machine\<close> state is a phase with the \<open>host\<close>;
  \<^item> \<open>step\<close> runs the code from one such point to the next: a callback of the
    chain, an iteration of the loop that does not suspend, the part of an
    iteration up to the \<^verbatim>\<open>await\<close>, or the resumption after it;
  \<^item> \<open>run\<close> takes a given number of steps (the event loop, as far as the plugin
    is concerned) and \<open>reachable\<close> is the set of states the chain passes
    through from a given host;
  \<^item> \<open>boot_ready\<close> is what the engine's boot scene sees when it polls
    \<^verbatim>\<open>DataManager.isGlobalInfoLoaded()\<close> after a given number of steps.

  \<open>remaining\<close> bounds the number of steps left, \<open>outcome\<close> is the settled
  host that theory \<open>Index_Loader\<close> predicts from a state, \<open>loop_inv\<close> relates the
  local variables of the chain to the index it loaded, whatever happens to the
  host meanwhile, and \<open>machine_inv\<close> is the invariant of the states a chain
  passes through when it runs alone.
\<close>

section \<open>Definitions\<close>

datatype phase =
    LoadingIndex
  | NullLoaded
  | AtSlot global_info nat bool
  | AwaitingPayload global_info nat save_info
  | Settled

type_synonym machine = "phase \<times> host"

definition initial :: "host \<Rightarrow> machine" where
  "initial h = (LoadingIndex, h)"

fun step :: "world \<Rightarrow> machine \<Rightarrow> machine option" where
  "step w (LoadingIndex, h) =
     (case loadStoredGlobal h of
        (Some pending, h1) \<Rightarrow> Some (AtSlot pending 0 False, h1)
      | (None, h1) \<Rightarrow> Some (NullLoaded, h1))"
| "step w (NullLoaded, h) =
     (if 0 \<le> maxSavefiles w then Some (Settled, onUpdateFailed None TypeError h)
      else Some (Settled, onUpdated None False h))"
| "step w (AtSlot g i u, h) =
     (if int i \<le> maxSavefiles w then
        (if savefileExists w i then
           (if js_get g i = None then
              (let (info, h1) = synthesis_begin w i h in Some (AwaitingPayload g i info, h1))
            else Some (AtSlot g (Suc i) u, h))
         else
           (if js_get g i \<noteq> None then Some (AtSlot (js_delete g i) (Suc i) True, h)
            else Some (AtSlot g (Suc i) u, h)))
      else Some (Settled, onUpdated (Some g) u h))"
| "step w (AwaitingPayload g i info, h) =
     (case loadObject w (makeSavename w i) of
        Inl err \<Rightarrow> Some (Settled, onUpdateFailed (Some g) err h)
      | Inr saveContents \<Rightarrow>
          (let (info', h1) = synthesis_resume i saveContents info h
           in Some (AtSlot (js_set g i info') (Suc i) True, h1)))"
| "step w (Settled, h) = None"

fun run :: "world \<Rightarrow> nat \<Rightarrow> machine \<Rightarrow> machine" where
  "run w 0 s = s"
| "run w (Suc n) s = (case step w s of None \<Rightarrow> s | Some s' \<Rightarrow> run w n s')"

inductive reachable :: "world \<Rightarrow> host \<Rightarrow> machine \<Rightarrow> bool" for w h where
  reach_start: "reachable w h (initial h)"
| reach_step: "reachable w h s \<Longrightarrow> step w s = Some s' \<Longrightarrow> reachable w h s'"

definition boot_ready :: "world \<Rightarrow> host \<Rightarrow> nat \<Rightarrow> bool" where
  "boot_ready w h n = isGlobalInfoLoaded (snd (run w n (initial h)))"

subsection \<open>Measure, predicted outcome and invariant\<close>

definition slot_count :: "world \<Rightarrow> nat" where
  "slot_count w = nat (maxSavefiles w + 1)"

fun remaining :: "world \<Rightarrow> machine \<Rightarrow> nat" where
  "remaining w (LoadingIndex, h) = 2 * slot_count w + 2"
| "remaining w (NullLoaded, h) = 1"
| "remaining w (AtSlot g i u, h) = 2 * (slot_count w - i) + 1"
| "remaining w (AwaitingPayload g i info, h) = 2 * (slot_count w - Suc i) + 2"
| "remaining w (Settled, h) = 0"

definition settle :: "(host, save_info) pass_result \<Rightarrow> host" where
  "settle res =
     (case res of
        (g, h, Inr u) \<Rightarrow> onUpdated (Some g) u h
      | (g, h, Inl e) \<Rightarrow> onUpdateFailed (Some g) e h)"

definition loop_from :: "world \<Rightarrow> nat \<Rightarrow> global_info \<Rightarrow> host \<Rightarrow> bool \<Rightarrow> host" where
  "loop_from w i g h u =
     settle (updateGlobalInfo_loop (makeMissingSaveInfo w) (savefileExists w) (maxSavefiles w)
               i g h u)"

fun outcome :: "world \<Rightarrow> machine \<Rightarrow> host" where
  "outcome w (LoadingIndex, h) = loadGlobalInfo w h"
| "outcome w (NullLoaded, h) = onLoadSettled w None h"
| "outcome w (AtSlot g i u, h) = loop_from w i g h u"
| "outcome w (AwaitingPayload g i info, h) =
     (case loadObject w (makeSavename w i) of
        Inl err \<Rightarrow> onUpdateFailed (Some g) err h
      | Inr sc \<Rightarrow>
          (let (info', h1) = synthesis_resume i sc info h
           in loop_from w (Suc i) (js_set g i info') h1 True))"
| "outcome w (Settled, h) = h"

definition prefix_done :: "world \<Rightarrow> global_info \<Rightarrow> global_info \<Rightarrow> nat \<Rightarrow> bool" where
  "prefix_done w g0 g i \<longleftrightarrow>
     i \<le> slot_count w \<and>
     (\<forall>s < i. reconciled_at (savefileExists w) g s) \<and>
     (\<forall>s \<ge> i. js_get g s = js_get g0 s)"

fun loop_inv :: "world \<Rightarrow> global_info \<Rightarrow> phase \<Rightarrow> bool" where
  "loop_inv w g0 (AtSlot g i u) \<longleftrightarrow>
     prefix_done w g0 g i \<and>
     (u \<longleftrightarrow> (\<exists>s < i. \<not> reconciled_at (savefileExists w) g0 s)) \<and> (u \<or> g = g0)"
| "loop_inv w g0 (AwaitingPayload g i info) \<longleftrightarrow>
     prefix_done w g0 g i \<and> int i \<le> maxSavefiles w \<and> savefileExists w i \<and> js_get g i = None"
| "loop_inv w g0 LoadingIndex \<longleftrightarrow> True"
| "loop_inv w g0 NullLoaded \<longleftrightarrow> True"
| "loop_inv w g0 Settled \<longleftrightarrow> True"

definition hidden :: "host \<Rightarrow> host \<Rightarrow> bool" where
  "hidden h0 h \<longleftrightarrow> globalInfo h = globalInfo h0 \<and> storedGlobal h = storedGlobal h0"

fun machine_inv :: "world \<Rightarrow> host \<Rightarrow> machine \<Rightarrow> bool" where
  "machine_inv w h0 (LoadingIndex, h) \<longleftrightarrow> h = h0"
| "machine_inv w h0 (NullLoaded, h) \<longleftrightarrow> hidden h0 h \<and> storedGlobal h0 = Inr None"
| "machine_inv w h0 (Settled, h) \<longleftrightarrow> (isGlobalInfoLoaded h \<longleftrightarrow> stored_array h0)"
| "machine_inv w h0 (p, h) \<longleftrightarrow> hidden h0 h \<and> stored_array h0 \<and> loop_inv w (pending_of h0) p"

section \<open>Steps\<close>

lemma step_eq_None_iff [simp]: "step w s = None \<longleftrightarrow> fst s = Settled"
  by (cases "(w, s)" rule: step.cases)
     (auto simp: split_beta Let_def split: sum.splits prod.splits option.splits)

lemma in_range_iff: "int i \<le> maxSavefiles w \<longleftrightarrow> i < slot_count w"
  by (auto simp: slot_count_def)

lemma step_LoadingIndex:
  "stored_array h \<Longrightarrow>
   step w (LoadingIndex, h) = Some (AtSlot (pending_of h) 0 False, snd (loadStoredGlobal h))"
  "storedGlobal h = Inr None \<Longrightarrow>
   step w (LoadingIndex, h) = Some (NullLoaded, snd (loadStoredGlobal h))"
  by (simp_all add: split_beta)

text \<open>
  The steps by cases: which part of the code a step has run, with the test
  that selected it, the next program point and the host it leaves.
\<close>

lemma step_elims [consumes 1, case_names load null_loaded null_settle exit keep delete request
    reject resume]:
  assumes "step w (p, h) = Some (p', h')"
  obtains
    (load) "p = LoadingIndex" "stored_array h"
      "p' = AtSlot (pending_of h) 0 False" "h' = snd (loadStoredGlobal h)"
  | (null_loaded) "p = LoadingIndex" "storedGlobal h = Inr None"
      "p' = NullLoaded" "h' = snd (loadStoredGlobal h)"
  | (null_settle) "p = NullLoaded" "p' = Settled"
      "h' = (if 0 \<le> maxSavefiles w then onUpdateFailed None TypeError h
             else onUpdated None False h)"
  | (exit) g i u where "p = AtSlot g i u" "\<not> int i \<le> maxSavefiles w"
      "p' = Settled" "h' = onUpdated (Some g) u h"
  | (keep) g i u where "p = AtSlot g i u" "int i \<le> maxSavefiles w"
      "reconciled_at (savefileExists w) g i" "p' = AtSlot g (Suc i) u" "h' = h"
  | (delete) g i u where "p = AtSlot g i u" "int i \<le> maxSavefiles w"
      "\<not> savefileExists w i" "js_get g i \<noteq> None"
      "p' = AtSlot (js_delete g i) (Suc i) True" "h' = h"
  | (request) g i u where "p = AtSlot g i u" "int i \<le> maxSavefiles w"
      "savefileExists w i" "js_get g i = None"
      "p' = AwaitingPayload g i (fst (synthesis_begin w i h))"
      "h' = snd (synthesis_begin w i h)"
  | (reject) g i info e where "p = AwaitingPayload g i info"
      "loadObject w (makeSavename w i) = Inl e" "p' = Settled"
      "h' = onUpdateFailed (Some g) e h"
  | (resume) g i info sc where "p = AwaitingPayload g i info"
      "loadObject w (makeSavename w i) = Inr sc"
      "p' = AtSlot (js_set g i (fst (synthesis_resume i sc info h))) (Suc i) True"
      "h' = snd (synthesis_resume i sc info h)"
proof (cases p)
  case LoadingIndex
  with assms show thesis
    by (cases h rule: stored_array_cases)
       (auto simp: step_LoadingIndex simp del: step.simps intro: load null_loaded)
next
  case NullLoaded
  with assms show thesis
    by (intro null_settle) (auto split: if_splits)
next
  case (AtSlot g i u)
  with assms exit [of g i u] keep [of g i u] delete [of g i u] request [of g i u]
  show thesis
    by (auto simp: reconciled_at_def split_beta split: if_splits)
next
  case (AwaitingPayload g i info)
  with assms reject [of g i info] resume [of g i info] show thesis
    by (cases "loadObject w (makeSavename w i)") (auto simp: split_beta)
next
  case Settled
  with assms show thesis by simp
qed

lemma remaining_step: "step w s = Some s' \<Longrightarrow> remaining w s' < remaining w s"
  by (cases "(w, s)" rule: step.cases)
     (auto simp: split_beta Let_def in_range_iff
        split: sum.splits if_splits prod.splits option.splits)

lemma remaining_initial: "remaining w (initial h) = 2 * slot_count w + 2"
  by (simp add: initial_def)

lemma remaining_zero_iff [simp]: "remaining w s = 0 \<longleftrightarrow> fst s = Settled"
  by (cases "(w, s)" rule: remaining.cases) simp_all

section \<open>Every step keeps the predicted outcome\<close>

lemma onLoadSettled_settle: "onLoadSettled w (Some p) h = settle (updateGlobalInfo w p h)"
  by (simp add: onLoadSettled_def updateGlobalInfo_call_def settle_def
        split: prod.splits sum.splits)

lemma loop_from_start: "loop_from w 0 g h False = onLoadSettled w (Some g) h"
  by (simp add: loop_from_def onLoadSettled_settle updateGlobalInfo_def reconcile_pass_def)

lemma loop_from_exit:
  "\<not> int i \<le> maxSavefiles w \<Longrightarrow> loop_from w i g h u = onUpdated (Some g) u h"
  by (simp add: loop_from_def loop_exit settle_def)

lemma loop_from_keep:
  "int i \<le> maxSavefiles w \<Longrightarrow> reconciled_at (savefileExists w) g i \<Longrightarrow>
   loop_from w i g h u = loop_from w (Suc i) g h u"
  by (simp add: loop_from_def loop_step slot_keep)

lemma loop_from_delete:
  "int i \<le> maxSavefiles w \<Longrightarrow> \<not> savefileExists w i \<Longrightarrow> js_get g i \<noteq> None \<Longrightarrow>
   loop_from w i g h u = loop_from w (Suc i) (js_delete g i) h True"
  by (simp add: loop_from_def loop_step slot_delete)

lemma makeMissingSaveInfo_split:
  "makeMissingSaveInfo w i h =
     (case loadObject w (makeSavename w i) of
        Inl err \<Rightarrow> (snd (synthesis_begin w i h), Inl err)
      | Inr sc \<Rightarrow>
          (let (info', h1) = synthesis_resume i sc (fst (synthesis_begin w i h))
                               (snd (synthesis_begin w i h))
           in (h1, Inr info')))"
  by (simp add: makeMissingSaveInfo_def split_beta Let_def)

lemma loop_from_restore:
  assumes "int i \<le> maxSavefiles w" and "savefileExists w i" and "js_get g i = None"
  shows "loop_from w i g h u =
           outcome w (AwaitingPayload g i (fst (synthesis_begin w i h)),
                      snd (synthesis_begin w i h))"
proof (cases "loadObject w (makeSavename w i)")
  case (Inl e)
  then have "makeMissingSaveInfo w i h = (snd (synthesis_begin w i h), Inl e)"
    by (simp add: makeMissingSaveInfo_split)
  with assms Inl show ?thesis
    by (simp add: loop_from_def loop_step slot_reject settle_def)
next
  case (Inr sc)
  obtain info' h1 where resume:
    "synthesis_resume i sc (fst (synthesis_begin w i h)) (snd (synthesis_begin w i h)) = (info', h1)"
    by (cases "synthesis_resume i sc (fst (synthesis_begin w i h)) (snd (synthesis_begin w i h))")
  with Inr have "makeMissingSaveInfo w i h = (h1, Inr info')"
    by (simp add: makeMissingSaveInfo_split)
  with assms Inr resume show ?thesis
    by (simp add: loop_from_def loop_step slot_insert)
qed

lemma outcome_step: "step w s = Some s' \<Longrightarrow> outcome w s' = outcome w s"
proof (cases "(w, s)" rule: step.cases)
  case (1 w' h)
  assume "step w s = Some s'"
  with 1 show ?thesis
    by (cases h rule: stored_array_cases)
       (auto simp: step_LoadingIndex loop_from_start loadGlobalInfo_eq loadGlobalInfo_null
          simp del: step.simps)
next
  case (2 w' h)
  assume "step w s = Some s'"
  with 2 show ?thesis
    by (auto simp: onLoadSettled_None split: if_splits)
next
  case (3 w' g i u h)
  assume "step w s = Some s'"
  with 3 show ?thesis
    by (auto simp: split_beta loop_from_exit loop_from_keep loop_from_delete loop_from_restore
          reconciled_at_def split: if_splits)
next
  case (4 w' g i info h)
  assume "step w s = Some s'"
  with 4 show ?thesis
    by (auto simp: split_beta split: sum.splits)
next
  case (5 w' h)
  assume "step w s = Some s'"
  with 5 show ?thesis by simp
qed

lemma run_outcome: "remaining w s \<le> n \<Longrightarrow> run w n s = (Settled, outcome w s)"
proof (induction n arbitrary: s)
  case 0
  then show ?case by (cases s) simp
next
  case (Suc n)
  show ?case
  proof (cases "step w s")
    case None
    then show ?thesis by (cases s) simp
  next
    case (Some s')
    with remaining_step [OF Some] Suc.prems have "remaining w s' \<le> n" by simp
    from Suc.IH [OF this] Some outcome_step [OF Some] show ?thesis by simp
  qed
qed

lemma reachable_outcome: "reachable w h0 s \<Longrightarrow> outcome w s = loadGlobalInfo w h0"
  by (induction rule: reachable.induct) (simp_all add: initial_def outcome_step)

lemma run_reachable: "reachable w h0 s \<Longrightarrow> reachable w h0 (run w n s)"
proof (induction n arbitrary: s)
  case 0
  then show ?case by simp
next
  case (Suc n)
  show ?case
  proof (cases "step w s")
    case None
    with Suc.prems show ?thesis by (simp del: step_eq_None_iff)
  next
    case (Some s')
    from Suc.prems Some have "reachable w h0 s'" by (rule reach_step)
    from Suc.IH [OF this] Some show ?thesis by simp
  qed
qed

lemma run_loadGlobalInfo: "run w (2 * slot_count w + 2) (initial h) = (Settled, loadGlobalInfo w h)"
proof -
  have "run w (2 * slot_count w + 2) (initial h) = (Settled, outcome w (initial h))"
    by (rule run_outcome) (simp add: remaining_initial)
  then show ?thesis by (simp add: initial_def)
qed

lemma loadGlobalInfo_reachable: "reachable w h (Settled, loadGlobalInfo w h)"
  using run_reachable [OF reach_start, of w h "2 * slot_count w + 2"]
  unfolding run_loadGlobalInfo .

section \<open>The invariant\<close>

lemma hidden_refl [simp]: "hidden h h"
  by (simp add: hidden_def)

lemma hidden_loadStoredGlobal [simp]: "hidden h0 (snd (loadStoredGlobal h)) = hidden h0 h"
  by (simp add: hidden_def)

lemma hidden_synthesis_begin [simp]: "hidden h0 (snd (synthesis_begin w i h)) = hidden h0 h"
  by (simp add: hidden_def synthesis_begin_def split_beta Let_def)

lemma hidden_synthesis_resume [simp]: "hidden h0 (snd (synthesis_resume i sc info h)) = hidden h0 h"
  by (simp add: hidden_def synthesis_resume_def split: prod.splits option.splits)

lemma hidden_trans: "hidden h0 h \<Longrightarrow> hidden h h' \<Longrightarrow> hidden h0 h'"
  by (simp add: hidden_def)

lemma step_hidden:
  assumes "step w (p, h) = Some (p', h')" and "p' \<noteq> Settled"
  shows "hidden h h'"
  using assms by (cases rule: step_elims) simp_all

lemma step_settled_loaded:
  assumes "step w (p, h) = Some (Settled, h')" and "p \<noteq> NullLoaded"
  shows "isGlobalInfoLoaded h'"
  using assms by (cases rule: step_elims) (simp_all add: isGlobalInfoLoaded_def)

lemma prefix_done_start: "prefix_done w g0 g0 0"
  by (simp add: prefix_done_def)

lemma prefix_done_Suc:
  assumes "prefix_done w g0 g i" and "int i \<le> maxSavefiles w"
    and "reconciled_at (savefileExists w) g' i" and "\<And>s. s \<noteq> i \<Longrightarrow> js_get g' s = js_get g s"
  shows "prefix_done w g0 g' (Suc i)"
  unfolding prefix_done_def
proof (intro conjI allI impI)
  from assms(2) show "Suc i \<le> slot_count w" by (simp add: in_range_iff)
next
  fix s assume "s < Suc i"
  then consider "s < i" | "s = i" by linarith
  then show "reconciled_at (savefileExists w) g' s"
  proof cases
    case 1
    with assms(1) assms(4) [of s] show ?thesis by (simp add: prefix_done_def reconciled_at_def)
  next
    case 2
    with assms(3) show ?thesis by simp
  qed
next
  fix s assume "Suc i \<le> s"
  with assms(1) assms(4) [of s] show "js_get g' s = js_get g0 s"
    by (simp add: prefix_done_def)
qed

lemma prefix_done_here: "prefix_done w g0 g i \<Longrightarrow> js_get g0 i = js_get g i"
  by (simp add: prefix_done_def)

lemma prefix_done_in_sync:
  assumes "prefix_done w g0 g i" and "\<not> int i \<le> maxSavefiles w"
  shows "in_sync (savefileExists w) (maxSavefiles w) g"
  using assms by (auto simp: prefix_done_def in_sync_iff in_range_iff)

lemma flag_Suc:
  "(\<exists>s < Suc i. \<not> reconciled_at ex g0 s) \<longleftrightarrow>
   (\<exists>s < i. \<not> reconciled_at ex g0 s) \<or> \<not> reconciled_at ex g0 i"
  by (auto simp: less_Suc_eq)

lemma flag_here: "\<not> reconciled_at ex g0 i \<Longrightarrow> \<exists>s < Suc i. \<not> reconciled_at ex g0 s"
  by auto

text \<open>
  The loop invariant is kept by every step of a chain after the load, on
  whatever host the step runs: it only speaks of the chain's local variables.
\<close>

lemma loop_inv_load:
  assumes "step w (LoadingIndex, h) = Some (p', h')" and "stored_array h"
  shows "loop_inv w (pending_of h) p'"
  using assms by (cases rule: step_elims) (simp_all add: prefix_done_start stored_array_def)

lemma loop_inv_step:
  assumes inv: "loop_inv w g0 p" and step: "step w (p, h) = Some (p', h')"
    and loaded: "p \<noteq> LoadingIndex"
  shows "loop_inv w g0 p'"
  using step
proof (cases rule: step_elims)
  case (keep g i u)
  with inv have pre: "prefix_done w g0 g i" by simp
  from keep have "prefix_done w g0 g (Suc i)"
    by (intro prefix_done_Suc [OF pre]) simp_all
  moreover from keep(3) prefix_done_here [OF pre]
  have "reconciled_at (savefileExists w) g0 i"
    by (simp add: reconciled_at_def)
  ultimately show ?thesis
    using inv keep(1,4) by (auto simp: flag_Suc)
next
  case (delete g i u)
  with inv have pre: "prefix_done w g0 g i" by simp
  from delete have "prefix_done w g0 (js_delete g i) (Suc i)"
    by (intro prefix_done_Suc [OF pre]) (simp_all add: reconciled_at_def)
  moreover from delete prefix_done_here [OF pre]
  have "\<not> reconciled_at (savefileExists w) g0 i"
    by (simp add: reconciled_at_def)
  ultimately show ?thesis
    using delete(5) by (simp add: flag_here)
next
  case (resume g i info sc)
  with inv have pre: "prefix_done w g0 g i"
    and miss: "int i \<le> maxSavefiles w" "savefileExists w i" "js_get g i = None"
    by simp_all
  from miss have "prefix_done w g0 (js_set g i (fst (synthesis_resume i sc info h))) (Suc i)"
    by (intro prefix_done_Suc [OF pre]) (simp_all add: reconciled_at_def)
  moreover from miss prefix_done_here [OF pre]
  have "\<not> reconciled_at (savefileExists w) g0 i"
    by (simp add: reconciled_at_def)
  ultimately show ?thesis
    using resume(3) by (simp add: flag_here)
qed (use inv loaded in simp_all)

lemma machine_inv_initial: "machine_inv w h0 (initial h0)"
  by (simp add: initial_def)

lemma machine_inv_running:
  assumes "hidden h0 h" and "stored_array h0" and "loop_inv w (pending_of h0) p"
    and "p \<noteq> LoadingIndex" and "p \<noteq> NullLoaded" and "p \<noteq> Settled"
  shows "machine_inv w h0 (p, h)"
  using assms by (cases p) simp_all

lemma machine_inv_runningD:
  assumes "machine_inv w h0 (p, h)"
    and "p \<noteq> LoadingIndex" and "p \<noteq> NullLoaded" and "p \<noteq> Settled"
  shows "hidden h0 h" and "stored_array h0" and "loop_inv w (pending_of h0) p"
  using assms by (cases p; simp)+

lemma machine_inv_step:
  assumes inv: "machine_inv w h0 s" and step: "step w s = Some s'"
  shows "machine_inv w h0 s'"
proof -
  obtain p h p' h' where s: "s = (p, h)" "s' = (p', h')"
    by (cases s, cases s') auto
  note step' = step [unfolded s]
  show ?thesis
  proof (cases "p = LoadingIndex \<or> p = NullLoaded")
    case True
    from step' inv True show ?thesis
      unfolding s
      by (cases rule: step_elims)
         (auto simp: prefix_done_start isGlobalInfoLoaded_def stored_array_def)
  next
    case False
    with step' have p: "p \<noteq> LoadingIndex" "p \<noteq> NullLoaded" "p \<noteq> Settled"
      by auto
    note run = machine_inv_runningD [OF inv [unfolded s] p]
    show ?thesis
    proof (cases "p' = Settled")
      case True
      with step_settled_loaded [of w p h h'] step' p(2) run(2) show ?thesis
        by (simp add: s)
    next
      case False
      from step' False p(1) have "p' \<noteq> LoadingIndex" "p' \<noteq> NullLoaded"
        by (cases rule: step_elims; simp)+
      with False run hidden_trans [OF run(1) step_hidden [OF step' False]]
        loop_inv_step [OF run(3) step' p(1)]
      show ?thesis
        unfolding s by (intro machine_inv_running) simp_all
    qed
  qed
qed

lemma reachable_machine_inv: "reachable w h0 s \<Longrightarrow> machine_inv w h0 s"
  by (induction rule: reachable.induct) (auto intro: machine_inv_initial machine_inv_step)

lemma null_unloaded:
  assumes "reachable w h0 (p, h)" and "storedGlobal h0 = Inr None" and "globalInfo h0 = None"
  shows "\<not> isGlobalInfoLoaded h"
  using reachable_machine_inv [OF assms(1)] assms(2,3)
  by (cases p) (simp_all add: hidden_def isGlobalInfoLoaded_def stored_array_def)

lemma loaded_settled:
  assumes "reachable w h0 (p, h)" and "globalInfo h0 = None" and "isGlobalInfoLoaded h"
  shows "p = Settled \<and> h = loadGlobalInfo w h0 \<and> stored_array h0"
proof -
  from reachable_machine_inv [OF assms(1)] assms(2,3) have settled: "p = Settled"
    by (cases p) (simp_all add: hidden_def isGlobalInfoLoaded_def)
  with reachable_outcome [OF assms(1)] reachable_machine_inv [OF assms(1)] assms(3)
  show ?thesis by simp
qed

subsection \<open>Sample states\<close>

lemma sample_reachable:
  "reachable healthy_world sample_host
     (AtSlot [None] 1 True, sample_host\<lparr>console := [(ConsoleLog, ''Global info loaded.'', None)]\<rparr>)"
proof -
  have "run healthy_world 2 (initial sample_host) =
      (AtSlot [None] 1 True, sample_host\<lparr>console := [(ConsoleLog, ''Global info loaded.'', None)]\<rparr>)"
    by code_simp
  with run_reachable [OF reach_start, of healthy_world sample_host 2] show ?thesis by simp
qed


section \<open>Properties of the chain\<close>

text \<open>
  \<^bold>\<open>C9\<close> The chain settles, within a bound, in the state the settled
  model predicts. From any host, \<open>2 * (maxSavefiles + 1) + 2\<close> steps are enough
  to reach \<open>Settled\<close> (one callback for the stored index, at most two steps for
  each id, one callback at the end), and the host is then the one
  \<open>loadGlobalInfo\<close> describes; this state is reachable.
\<close>

theorem run_settles:
  "run w (2 * slot_count w + 2) (initial h) = (Settled, loadGlobalInfo w h) \<and>
   reachable w h (Settled, loadGlobalInfo w h)"
  using run_loadGlobalInfo [of w h] loadGlobalInfo_reachable [of w h] by blast

theorem run_settles_witness:
  "run healthy_world 10 (initial sample_host) = (Settled, loadGlobalInfo healthy_world sample_host) \<and>
   reachable healthy_world sample_host (Settled, loadGlobalInfo healthy_world sample_host) \<and>
   isGlobalInfoLoaded (snd (run healthy_world 10 (initial sample_host)))"
proof -
  have n: "2 * slot_count healthy_world + 2 = 10" by code_simp
  have computed: "isGlobalInfoLoaded (snd (run healthy_world 10 (initial sample_host)))"
    by code_simp
  from run_settles [of healthy_world sample_host] have
    "run healthy_world 10 (initial sample_host) = (Settled, loadGlobalInfo healthy_world sample_host) \<and>
     reachable healthy_world sample_host (Settled, loadGlobalInfo healthy_world sample_host)"
    unfolding n .
  with computed show ?thesis by blast
qed

text \<open>
  \<^bold>\<open>C30\<close> The loop invariant. Whenever the chain is at the head of the
  loop with array \<open>g\<close>, loop variable \<open>i\<close> and flag \<open>u\<close>: \<open>i\<close> is at most
  \<open>maxSavefiles + 1\<close>, every id below \<open>i\<close> is reconciled in \<open>g\<close>, every id from
  \<open>i\<close> on is as in the loaded index, and \<open>u\<close> is true exactly when some id below
  \<open>i\<close> was not reconciled in the loaded index.
\<close>

theorem loop_invariant:
  assumes "reachable w h0 (AtSlot g i u, h)"
  shows "i \<le> slot_count w \<and>
         (\<forall>s < i. reconciled_at (savefileExists w) g s) \<and>
         (\<forall>s \<ge> i. js_get g s = js_get (pending_of h0) s) \<and>
         (u \<longleftrightarrow> (\<exists>s < i. \<not> reconciled_at (savefileExists w) (pending_of h0) s))"
  using reachable_machine_inv [OF assms] by (simp add: prefix_done_def)

theorem loop_invariant_witness:
  "reachable healthy_world sample_host
     (AtSlot [None] 1 True, sample_host\<lparr>console := [(ConsoleLog, ''Global info loaded.'', None)]\<rparr>) \<and>
   1 \<le> slot_count healthy_world \<and>
   reconciled_at (savefileExists healthy_world) ([None] :: global_info) 0 \<and>
   js_get [None] 1 = js_get (pending_of sample_host) 1 \<and>
   (\<exists>s < 1. \<not> reconciled_at (savefileExists healthy_world) (pending_of sample_host) s)"
proof -
  note inv = loop_invariant [OF sample_reachable]
  note bound = inv [THEN conjunct1]
    and below = inv [THEN conjunct2, THEN conjunct1, rule_format, of 0]
    and above = inv [THEN conjunct2, THEN conjunct2, THEN conjunct1, rule_format, of 1]
    and flag = inv [THEN conjunct2, THEN conjunct2, THEN conjunct2]
  from bound below above flag sample_reachable show ?thesis by simp
qed

text \<open>
  \<^bold>\<open>C29\<close> Nothing is visible before the chain has settled. In every
  state the chain passes through before \<open>Settled\<close>, \<^verbatim>\<open>DataManager._globalInfo\<close>
  and the stored index are what they were when the chain started: the engine
  never sees a partly repaired index, and none is written.
\<close>

theorem index_hidden_until_settled:
  assumes "reachable w h0 (p, h)" and "p \<noteq> Settled"
  shows "globalInfo h = globalInfo h0 \<and> storedGlobal h = storedGlobal h0"
  using reachable_machine_inv [OF assms(1)] assms(2)
  by (cases p) (simp_all add: hidden_def)

theorem index_hidden_until_settled_witness:
  "reachable healthy_world sample_host
     (AtSlot [None] 1 True, sample_host\<lparr>console := [(ConsoleLog, ''Global info loaded.'', None)]\<rparr>) \<and>
   AtSlot [None] 1 True \<noteq> Settled \<and>
   globalInfo (sample_host\<lparr>console := [(ConsoleLog, ''Global info loaded.'', None)]\<rparr>) =
     globalInfo sample_host \<and>
   storedGlobal (sample_host\<lparr>console := [(ConsoleLog, ''Global info loaded.'', None)]\<rparr>) =
     storedGlobal sample_host"
  using index_hidden_until_settled [OF sample_reachable] sample_reachable by simp



text \<open>
  \<^bold>\<open>C10\<close> A stored index that is \<^verbatim>\<open>null\<close> is never replaced. If
  \<^verbatim>\<open>StorageManager.loadObject("global")\<close> resolves with \<^verbatim>\<open>null\<close> while
  \<^verbatim>\<open>_globalInfo\<close> is still unset and there is at least the autosave slot, the
  chain logs \<^verbatim>\<open>Global info loaded.\<close>, then the \<open>TypeError\<close> of reading
  \<^verbatim>\<open>globalInfo[0]\<close> under \<^verbatim>\<open>Failed to update global info\<close>, and changes
  nothing else: no save file is looked at, nothing is stored, and
  \<^verbatim>\<open>isGlobalInfoLoaded()\<close> is false after every number of steps, so a scene
  that waits for it waits forever.
\<close>

theorem null_index_never_loaded:
  assumes "storedGlobal h = Inr None" and "0 \<le> maxSavefiles w" and "globalInfo h = None"
  shows "loadGlobalInfo w h =
           h\<lparr>console := console h @
                [(ConsoleLog, ''Global info loaded.'', None),
                 (ConsoleError, ''Failed to update global info'', Some TypeError)]\<rparr> \<and>
         (\<forall>n. \<not> boot_ready w h n)"
proof (intro conjI allI)
  from assms show "loadGlobalInfo w h =
      h\<lparr>console := console h @
           [(ConsoleLog, ''Global info loaded.'', None),
            (ConsoleError, ''Failed to update global info'', Some TypeError)]\<rparr>"
    by (cases h)
       (simp add: loadGlobalInfo_null onLoadSettled_None onUpdateFailed_def loadStoredGlobal_def
          onGlobalLoaded_def emit_def)
next
  fix n
  have "reachable w h (fst (run w n (initial h)), snd (run w n (initial h)))"
    using run_reachable [OF reach_start, of w h n] by simp
  from null_unloaded [OF this assms(1,3)]
  show "\<not> boot_ready w h n" by (simp add: boot_ready_def)
qed

theorem null_index_never_loaded_witness:
  "storedGlobal fresh_host = Inr None \<and> 0 \<le> maxSavefiles sample_world \<and>
   globalInfo fresh_host = None \<and>
   loadGlobalInfo sample_world fresh_host =
     fresh_host\<lparr>console := console fresh_host @
       [(ConsoleLog, ''Global info loaded.'', None),
        (ConsoleError, ''Failed to update global info'', Some TypeError)]\<rparr> \<and>
   \<not> boot_ready sample_world fresh_host 2 \<and>
   fst (run sample_world 2 (initial fresh_host)) = Settled"
proof -
  have pre: "storedGlobal fresh_host = Inr None" "0 \<le> maxSavefiles sample_world"
    "globalInfo fresh_host = None"
    by code_simp+
  have computed: "fst (run sample_world 2 (initial fresh_host)) = Settled"
    "\<not> boot_ready sample_world fresh_host 2"
    by code_simp+
  note never = null_index_never_loaded [OF pre, THEN conjunct2, rule_format, of 2]
    and settled = null_index_never_loaded [OF pre, THEN conjunct1]
  from pre computed never settled show ?thesis by simp
qed

text \<open>
  \<^bold>\<open>C32\<close> The boot scene proceeds when the chain has settled, and only
  then. The scene polls \<^verbatim>\<open>isGlobalInfoLoaded()\<close> while the chain runs. If
  \<^verbatim>\<open>_globalInfo\<close> is unset when the chain starts, the poll is true after \<open>n\<close>
  steps only if the chain has settled by then, in the state \<open>loadGlobalInfo\<close>
  describes and from a stored index that was an array or could not be
  loaded; and from \<open>2 * (maxSavefiles + 1) + 2\<close> steps on the poll is true
  exactly for such a stored index. So the scene never sees a partly repaired
  index, and it is not held up by save files that cannot be read.
\<close>

theorem boot_scene_proceeds:
  assumes "globalInfo h = None"
  shows "(boot_ready w h n \<longrightarrow>
            run w n (initial h) = (Settled, loadGlobalInfo w h) \<and> stored_array h) \<and>
         (2 * slot_count w + 2 \<le> n \<longrightarrow> boot_ready w h n = stored_array h)"
proof (intro conjI impI)
  assume "boot_ready w h n"
  moreover have "reachable w h (fst (run w n (initial h)), snd (run w n (initial h)))"
    using run_reachable [OF reach_start, of w h n] by simp
  ultimately have "fst (run w n (initial h)) = Settled \<and>
      snd (run w n (initial h)) = loadGlobalInfo w h \<and> stored_array h"
    using assms by (intro loaded_settled) (simp_all add: boot_ready_def)
  then show "run w n (initial h) = (Settled, loadGlobalInfo w h)" and "stored_array h"
    by (simp_all add: prod_eq_iff)
next
  assume "2 * slot_count w + 2 \<le> n"
  then have "run w n (initial h) = (Settled, outcome w (initial h))"
    by (intro run_outcome) (simp add: remaining_initial)
  then show "boot_ready w h n = stored_array h"
    using loadGlobalInfo_installs [of w h]
    by (simp add: boot_ready_def initial_def isGlobalInfoLoaded_def)
qed

theorem boot_scene_proceeds_witness:
  "globalInfo sample_host = None \<and> boot_ready sample_world sample_host 6 \<and>
   \<not> boot_ready sample_world sample_host 5 \<and>
   run sample_world 6 (initial sample_host) = (Settled, loadGlobalInfo sample_world sample_host) \<and>
   stored_array sample_host \<and> 2 * slot_count sample_world + 2 \<le> 10 \<and>
   boot_ready sample_world sample_host 10"
proof -
  have pre: "globalInfo sample_host = None" "boot_ready sample_world sample_host 6"
    "2 * slot_count sample_world + 2 \<le> 10"
    and computed: "\<not> boot_ready sample_world sample_host 5"
    by code_simp+
  note proceeds = boot_scene_proceeds [OF pre(1), of sample_world]
  from proceeds [of 6] proceeds [of 10] pre computed show ?thesis by simp
qed

end
