(* ===== verification/Index_Typing.thy ===== *)
theory Index_Typing
  imports Async_Machine
begin

text \<open>
  The shapes of the values the plugin handles, and that the chain keeps them.

  JavaScript checks no types. What the types of the model leave open is what
  the code relies on without checking: that a value is not \<^verbatim>\<open>null\<close> or
  \<^verbatim>\<open>undefined\<close>, that a number is not \<^verbatim>\<open>NaN\<close> or negative, and the form of the
  playtime string.

  \<^item> \<open>entry_typed\<close> is the shape of an index entry: as many character sprites
    as face sprites, and a playtime that is \<^verbatim>\<open>HH:MM:SS\<close> or the placeholder;
    \<open>index_typed\<close> asks it of every entry of an array;
  \<^item> \<open>payload_typed\<close> is the shape of a save payload: a party whose active
    members are all in the actor table, and a system record with a
    non-negative frame count;
  \<^item> \<open>world_typed\<close> asks it of the payload of every save file in range, and
    that a load that is rejected is rejected with a load error;
  \<^item> \<open>host_typed\<close> is the shape of the mutable state: the stored index is an
    array of typed entries (or cannot be loaded), \<^verbatim>\<open>_globalInfo\<close> is unset or such
    an array, and no \<open>TypeError\<close> has been logged;
  \<^item> \<open>machine_typed\<close> extends it to the states of the chain: the array the loop
    works on and the entry under construction are typed, and the chain is
    never at the call of \<^verbatim>\<open>updateGlobalInfo(null)\<close>.

  The lemmas show that every step keeps \<open>machine_typed\<close>, in the manner of a
  type preservation proof, and \<open>synthesised_typed_iff\<close> gives the payloads for
  which a synthesised entry is typed.
\<close>

section \<open>Definitions\<close>

definition entry_typed :: "save_info \<Rightarrow> bool" where
  "entry_typed info \<longleftrightarrow>
     length (characters info) = length (faces info) \<and>
     (playtime info = ''??:??:??'' \<or> playtime_wf (playtime info))"

definition index_typed :: "global_info \<Rightarrow> bool" where
  "index_typed g = list_all (\<lambda>e. case e of None \<Rightarrow> True | Some info \<Rightarrow> entry_typed info) g"

definition frames_typed :: "save_contents \<Rightarrow> bool" where
  "frames_typed sc =
     (case system sc of
        None \<Rightarrow> False
      | Some sys \<Rightarrow> (case framesOnSave sys of None \<Rightarrow> False | Some f \<Rightarrow> 0 \<le> f))"

definition payload_typed :: "save_contents \<Rightarrow> bool" where
  "payload_typed sc \<longleftrightarrow> portraits_ok sc \<and> frames_typed sc"

definition world_typed :: "world \<Rightarrow> bool" where
  "world_typed w =
     list_all (\<lambda>s. savefileExists w s \<longrightarrow>
                 (case loadObject w (makeSavename w s) of
                    Inl e \<Rightarrow> e = LoadError
                  | Inr sc \<Rightarrow> payload_typed sc))
       (all_slots (maxSavefiles w))"

definition no_type_error :: "log_entry list \<Rightarrow> bool" where
  "no_type_error es = list_all (\<lambda>entry. snd (snd entry) \<noteq> Some TypeError) es"

definition host_typed :: "host \<Rightarrow> bool" where
  "host_typed h \<longleftrightarrow>
     (case storedGlobal h of
        Inl e \<Rightarrow> True
      | Inr None \<Rightarrow> False
      | Inr (Some g) \<Rightarrow> index_typed g) \<and>
     (case globalInfo h of None \<Rightarrow> True | Some g \<Rightarrow> index_typed g) \<and>
     no_type_error (console h)"

fun machine_typed :: "world \<Rightarrow> machine \<Rightarrow> bool" where
  "machine_typed w (LoadingIndex, h) \<longleftrightarrow> host_typed h"
| "machine_typed w (NullLoaded, h) \<longleftrightarrow> False"
| "machine_typed w (AtSlot g i u, h) \<longleftrightarrow> host_typed h \<and> index_typed g"
| "machine_typed w (AwaitingPayload g i info, h) \<longleftrightarrow>
     host_typed h \<and> index_typed g \<and> entry_typed info \<and>
     int i \<le> maxSavefiles w \<and> savefileExists w i"
| "machine_typed w (Settled, h) \<longleftrightarrow> host_typed h \<and> globalInfo h \<noteq> None"

subsection \<open>Sample data\<close>

text \<open>
  The sample world with typed payloads: every save file that can be loaded
  holds the sample save, and save file 2 still cannot be loaded.
\<close>

definition typed_world :: world where
  "typed_world =
     sample_world\<lparr>loadObject := (\<lambda>n. if n = ''file2'' then Inl LoadError else Inr sample_save)\<rparr>"

section \<open>Typed entries and arrays\<close>

lemma index_typed_iff:
  "index_typed g \<longleftrightarrow> (\<forall>s info. js_get g s = Some info \<longrightarrow> entry_typed info)"
proof
  assume typed: "index_typed g"
  show "\<forall>s info. js_get g s = Some info \<longrightarrow> entry_typed info"
  proof (intro allI impI)
    fix s info
    assume get: "js_get g s = Some info"
    with js_get_Some_less [OF get] have "Some info \<in> set g"
      by (auto simp: js_get_def in_set_conv_nth)
    with typed show "entry_typed info"
      by (auto simp: index_typed_def list_all_iff)
  qed
next
  assume entries: "\<forall>s info. js_get g s = Some info \<longrightarrow> entry_typed info"
  show "index_typed g"
    unfolding index_typed_def list_all_iff
  proof
    fix e
    assume "e \<in> set g"
    then obtain s where "s < length g" "g ! s = e"
      by (auto simp: in_set_conv_nth)
    with entries [rule_format, of s] show "case e of None \<Rightarrow> True | Some info \<Rightarrow> entry_typed info"
      by (cases e) (simp_all add: js_get_def)
  qed
qed

lemma index_typed_Nil [simp]: "index_typed []"
  by (simp add: index_typed_def)

lemma index_typed_js_set: "index_typed g \<Longrightarrow> entry_typed info \<Longrightarrow> index_typed (js_set g i info)"
  by (auto simp: index_typed_iff js_get_js_set split: if_splits)

lemma index_typed_js_delete: "index_typed g \<Longrightarrow> index_typed (js_delete g i)"
  by (auto simp: index_typed_iff js_get_js_delete split: if_splits)

lemma entry_typed_default [simp]: "entry_typed (default_info w now)"
  by (simp add: entry_typed_def default_info_def)

lemma payload_typedE:
  assumes "payload_typed sc"
  obtains sys f where "portraits_ok sc" "system sc = Some sys" "framesOnSave sys = Some f" "0 \<le> f"
  using assms by (auto simp: payload_typed_def frames_typed_def split: option.splits)

lemma try_extract_typed:
  assumes "payload_typed sc"
  shows "snd (try_extract sc info) = None" and "entry_typed (fst (try_extract sc info))"
proof -
  from assms obtain sys f where sc: "portraits_ok sc" "system sc = Some sys"
    and frames: "framesOnSave sys = Some f" "0 \<le> f"
    by (rule payload_typedE)
  note run = try_extract_all [OF sc, of info]
  show "snd (try_extract sc info) = None" by (simp add: run)
  show "entry_typed (fst (try_extract sc info))"
    by (simp add: run entry_typed_def playtime_string_nonneg [OF frames] playtime_wf_spec)
qed

section \<open>Typed hosts\<close>

lemma no_type_error_append [simp]:
  "no_type_error (xs @ ys) \<longleftrightarrow> no_type_error xs \<and> no_type_error ys"
  by (simp add: no_type_error_def)

lemma no_type_error_single [simp]: "no_type_error [(l, m, e)] \<longleftrightarrow> e \<noteq> Some TypeError"
  by (simp add: no_type_error_def)

lemma host_typed_emit [simp]:
  "host_typed (emit l m e h) \<longleftrightarrow> host_typed h \<and> e \<noteq> Some TypeError"
  by (auto simp: host_typed_def)

lemma host_typed_array: "host_typed h \<Longrightarrow> stored_array h"
  by (auto simp: host_typed_def stored_array_def)

lemma host_typed_pending: "host_typed h \<Longrightarrow> index_typed (pending_of h)"
  by (auto simp: host_typed_def pending_of_def split: sum.splits option.splits)

lemma host_typed_loadStoredGlobal [simp]:
  "host_typed (snd (loadStoredGlobal h)) = host_typed h"
  by (auto simp: host_typed_def boot_entry_def)

lemma host_typed_synthesis_begin [simp]:
  "host_typed (snd (synthesis_begin w i h)) = host_typed h"
  by (simp add: synthesis_begin_def split_beta Let_def host_typed_def)

lemma entry_typed_synthesis_begin [simp]: "entry_typed (fst (synthesis_begin w i h))"
  by (simp add: synthesis_begin_def split_beta Let_def)

lemma synthesis_resume_typed:
  assumes "payload_typed sc"
  shows "entry_typed (fst (synthesis_resume i sc info h))"
    and "host_typed (snd (synthesis_resume i sc info h)) = host_typed h"
  using try_extract_typed [OF assms, of info]
  by (cases "try_extract sc info"; simp add: synthesis_resume_def)+

lemma host_typed_onUpdated:
  "host_typed h \<Longrightarrow> index_typed g \<Longrightarrow> host_typed (onUpdated (Some g) u h)"
  by (simp add: host_typed_def)

lemma host_typed_onUpdateFailed:
  "host_typed h \<Longrightarrow> index_typed g \<Longrightarrow> e \<noteq> TypeError \<Longrightarrow>
   host_typed (onUpdateFailed (Some g) e h)"
  by (simp add: host_typed_def)

lemma world_typed_load:
  assumes "world_typed w" and "int s \<le> maxSavefiles w" and "savefileExists w s"
  shows "loadObject w (makeSavename w s) = Inr sc \<Longrightarrow> payload_typed sc"
    and "loadObject w (makeSavename w s) = Inl e \<Longrightarrow> e = LoadError"
  using assms by (auto simp: world_typed_def list_all_iff split: sum.splits)

section \<open>Preservation\<close>

lemma machine_typed_at_slot:
  assumes "machine_typed w (AtSlot g i u, h)" and "step w (AtSlot g i u, h) = Some s'"
  shows "machine_typed w s'"
  using assms
  by (auto simp: split_beta index_typed_js_delete host_typed_onUpdated split: if_splits)

lemma machine_typed_awaiting:
  assumes world: "world_typed w" and typed: "machine_typed w (AwaitingPayload g i info, h)"
    and step: "step w (AwaitingPayload g i info, h) = Some s'"
  shows "machine_typed w s'"
proof (cases "loadObject w (makeSavename w i)")
  case (Inl e)
  from typed have "e = LoadError"
    by (intro world_typed_load(2) [OF world _ _ Inl]) simp_all
  with typed step Inl show ?thesis
    by (auto simp: host_typed_onUpdateFailed)
next
  case (Inr sc)
  from typed have "payload_typed sc"
    by (intro world_typed_load(1) [OF world _ _ Inr]) simp_all
  note resumed = synthesis_resume_typed [OF this, of i info h]
  with typed step Inr show ?thesis
    by (auto simp: split_beta index_typed_js_set)
qed

lemma machine_typed_step:
  assumes "world_typed w" and "machine_typed w s" and "step w s = Some s'"
  shows "machine_typed w s'"
proof (cases "(w, s)" rule: step.cases)
  case (1 w' h)
  with assms(2) have typed: "host_typed h" by simp
  from 1 assms(3) step_LoadingIndex(1) [OF host_typed_array [OF typed], of w]
  have "s' = (AtSlot (pending_of h) 0 False, snd (loadStoredGlobal h))"
    by (simp del: step.simps)
  with typed show ?thesis by (simp add: host_typed_pending)
next
  case (2 w' h)
  with assms(2) show ?thesis by simp
next
  case (3 w' g i u h)
  with assms(2,3) show ?thesis by (auto intro: machine_typed_at_slot)
next
  case (4 w' g i info h)
  with assms show ?thesis by (auto intro: machine_typed_awaiting)
next
  case (5 w' h)
  with assms(3) show ?thesis by simp
qed

lemma reachable_typed:
  assumes "world_typed w" and "host_typed h0"
  shows "reachable w h0 s \<Longrightarrow> machine_typed w s"
  by (induction rule: reachable.induct)
     (use assms in \<open>auto simp: initial_def intro: machine_typed_step\<close>)

section \<open>The payloads that give a typed entry\<close>

lemma playtime_not_wf [simp]:
  "\<not> playtime_wf ''NaN:NaN:NaN''" "\<not> playtime_wf ''??:??:??''"
  by code_simp+

lemma playtime_wf_digit: "playtime_wf (c # s) \<Longrightarrow> is_digit c"
  by (auto simp: playtime_wf_def split_colon_def Let_def split: if_splits)

lemma playtime_wf_minus [simp]: "\<not> playtime_wf (CHR ''-'' # s)"
  using playtime_wf_digit [of "CHR ''-''" s] by (auto simp: is_digit_def digit_val_def)

lemma playtime_string_minus:
  assumes "framesOnSave sys = Some f" and "f < 0"
  shows "\<exists>rest. playtime_string sys = CHR ''-'' # rest"
proof -
  from assms(2) have "f div 60 div 3600 < 0" by simp
  then have "String_of (JInt (f div 60 div 3600)) =
      CHR ''-'' # digits10 (nat (- (f div 60 div 3600)))"
    by (rule String_of_neg)
  then obtain rest where "padZero (JInt (f div 60 div 3600)) 2 = CHR ''-'' # rest"
    by (cases "length (digits10 (nat (- (f div 60 div 3600))))")
       (auto simp: padZero_def padStart_def)
  with assms(1) show ?thesis
    by (simp add: playtime_string_def)
qed

lemma playtime_string_wf_iff:
  "playtime_wf (playtime_string sys) \<longleftrightarrow> (\<exists>f. framesOnSave sys = Some f \<and> 0 \<le> f)"
proof (cases "framesOnSave sys")
  case None
  then show ?thesis by (simp add: playtime_string_def)
next
  case (Some f)
  show ?thesis
  proof (cases "0 \<le> f")
    case True
    with Some playtime_wf_spec [of "nat f"] show ?thesis
      by (simp add: playtime_string_nonneg)
  next
    case False
    with playtime_string_minus [OF Some] Some show ?thesis
      by auto
  qed
qed

lemma playtime_string_not_placeholder: "playtime_string sys \<noteq> ''??:??:??''"
proof (cases "\<exists>f. framesOnSave sys = Some f \<and> 0 \<le> f")
  case True
  then have "playtime_wf (playtime_string sys)" by (simp only: playtime_string_wf_iff)
  then show ?thesis by auto
next
  case False
  then consider "framesOnSave sys = None" | f where "framesOnSave sys = Some f" "f < 0"
    by (cases "framesOnSave sys") auto
  then show ?thesis
  proof cases
    case 1
    then show ?thesis by (simp add: playtime_string_def)
  next
    case 2
    with playtime_string_minus [OF 2] show ?thesis by auto
  qed
qed

lemma synthesised_typed_iff:
  "entry_typed (expected_info w sc now) \<longleftrightarrow> \<not> portraits_ok sc \<or> system sc = None \<or> frames_typed sc"
proof (cases "portraits_ok sc")
  case False
  then show ?thesis by (simp add: expected_info_def)
next
  case True
  show ?thesis
  proof (cases "system sc")
    case None
    with True show ?thesis
      by (simp add: expected_info_def entry_typed_def default_info_def)
  next
    case (Some sys)
    then have "playtime_wf (playtime_string sys) \<longleftrightarrow> frames_typed sc"
      by (auto simp: playtime_string_wf_iff frames_typed_def split: option.splits)
    with True Some playtime_string_not_placeholder [of sys] show ?thesis
      by (simp add: expected_info_def entry_typed_def default_info_def)
  qed
qed

section \<open>Type soundness of the chain\<close>

text \<open>
  \<^bold>\<open>C11\<close> Typed inputs never go wrong. If every save file in range
  holds a typed payload or is rejected with a load error, and the chain
  starts from a typed host (a stored index that is an array of typed entries
  or cannot be loaded, no \<open>TypeError\<close> logged), then every state the chain
  passes through is typed: the array the loop works on and the entry under
  construction have the shape of the data model, no \<open>TypeError\<close> is ever
  logged, the call \<^verbatim>\<open>updateGlobalInfo(null)\<close> is never reached, and at the end
  \<^verbatim>\<open>_globalInfo\<close> is an array of typed entries.
\<close>

theorem chain_type_sound:
  assumes "world_typed w" and "host_typed h0" and "reachable w h0 s"
  shows "machine_typed w s"
  using assms(3) by (rule reachable_typed [OF assms(1,2)])

theorem chain_type_sound_witness:
  "world_typed typed_world \<and> host_typed sample_host \<and>
   reachable typed_world sample_host (Settled, loadGlobalInfo typed_world sample_host) \<and>
   machine_typed typed_world (Settled, loadGlobalInfo typed_world sample_host) \<and>
   map (map_option playtime) (the (globalInfo (loadGlobalInfo typed_world sample_host))) =
     [None, Some ''00:01:30''] \<and>
   index_typed (the (globalInfo (loadGlobalInfo typed_world sample_host)))"
proof -
  have pre: "world_typed typed_world" "host_typed sample_host"
    by code_simp+
  have computed:
    "map (map_option playtime) (the (globalInfo (loadGlobalInfo typed_world sample_host))) =
       [None, Some ''00:01:30'']"
    "index_typed (the (globalInfo (loadGlobalInfo typed_world sample_host)))"
    by code_simp+
  note reach = loadGlobalInfo_reachable [of typed_world sample_host]
  from chain_type_sound [OF pre reach] pre reach computed show ?thesis by simp
qed

end
