(* ===== verification/Concurrent_Boots.thy ===== *)
theory Concurrent_Boots
  imports Async_Machine
begin

text \<open>
  Two calls of \<^verbatim>\<open>DataManager.loadGlobalInfo\<close> whose promise chains overlap.

  The plugin does not keep a second call from starting while the chain of the
  first is pending. Each call has its own \<^verbatim>\<open>pendingGlobalInfo\<close>, loop
  variable and flag, which are in the \<open>phase\<close> of its chain; the two chains
  share what is in the \<open>host\<close>: \<^verbatim>\<open>DataManager._globalInfo\<close>, the stored index,
  the console and the clock. JavaScript runs one callback at a time, so an
  execution is a sequence of steps of theory \<open>Async_Machine\<close>, each taken by one
  of the chains on the shared host; in which order the storage answers is not
  determined.

  \<^item> \<open>chains_step\<close> is one such step and \<open>chains_reachable\<close> the states two
    chains started on a host can get to, under every order of the callbacks;
  \<^item> \<open>take_turn\<close> lets one chain run its next callback, if it has one, and
    \<open>interleave\<close> runs the chains under a given order, a list of \<open>turn\<close>s;
  \<^item> \<open>disk_readable\<close> says that every save file in range that exists can be
    loaded, \<open>settled_ok\<close> that the installed index is the stored one and agrees
    with the disk, and \<open>chains_inv\<close> is the invariant of the reachable states:
    a chain in its loop has loaded the index that is stored now, or the index
    stored at the start if that one needs repair.

  None of these definitions is code of the plugin; the steps they schedule
  are.
\<close>

section \<open>Definitions\<close>

type_synonym chains = "phase \<times> phase \<times> host"

inductive chains_step :: "world \<Rightarrow> chains \<Rightarrow> chains \<Rightarrow> bool" for w where
  first: "step w (p, h) = Some (p', h') \<Longrightarrow> chains_step w (p, q, h) (p', q, h')"
| second: "step w (q, h) = Some (q', h') \<Longrightarrow> chains_step w (p, q, h) (p, q', h')"

inductive chains_reachable :: "world \<Rightarrow> host \<Rightarrow> chains \<Rightarrow> bool" for w h0 where
  chains_start: "chains_reachable w h0 (LoadingIndex, LoadingIndex, h0)"
| chains_next: "chains_reachable w h0 s \<Longrightarrow> chains_step w s t \<Longrightarrow> chains_reachable w h0 t"

datatype turn = First | Second

fun take_turn :: "world \<Rightarrow> turn \<Rightarrow> chains \<Rightarrow> chains" where
  "take_turn w First (p, q, h) =
     (case step w (p, h) of None \<Rightarrow> (p, q, h) | Some (p', h') \<Rightarrow> (p', q, h'))"
| "take_turn w Second (p, q, h) =
     (case step w (q, h) of None \<Rightarrow> (p, q, h) | Some (q', h') \<Rightarrow> (p, q', h'))"

definition interleave :: "world \<Rightarrow> turn list \<Rightarrow> chains \<Rightarrow> chains" where
  "interleave w ts s = fold (take_turn w) ts s"

subsection \<open>Invariant and measure\<close>

definition disk_readable :: "world \<Rightarrow> bool" where
  "disk_readable w =
     list_all (\<lambda>s. savefileExists w s \<longrightarrow> ok (loadObject w (makeSavename w s)))
       (all_slots (maxSavefiles w))"

definition settled_ok :: "world \<Rightarrow> host \<Rightarrow> bool" where
  "settled_ok w h \<longleftrightarrow>
     globalInfo h = Some (pending_of h) \<and>
     in_sync (savefileExists w) (maxSavefiles w) (pending_of h)"

fun in_loop :: "phase \<Rightarrow> bool" where
  "in_loop (AtSlot g i u) = True"
| "in_loop (AwaitingPayload g i info) = True"
| "in_loop p = False"

definition chain_ok :: "world \<Rightarrow> host \<Rightarrow> host \<Rightarrow> phase \<Rightarrow> bool" where
  "chain_ok w h0 h p \<longleftrightarrow>
     p \<noteq> NullLoaded \<and>
     (in_loop p \<longrightarrow>
        (\<exists>g0. loop_inv w g0 p \<and>
           (g0 = pending_of h \<or>
            g0 = pending_of h0 \<and> \<not> in_sync (savefileExists w) (maxSavefiles w) g0)))"

fun chains_inv :: "world \<Rightarrow> host \<Rightarrow> chains \<Rightarrow> bool" where
  "chains_inv w h0 (p, q, h) \<longleftrightarrow>
     stored_array h \<and> chain_ok w h0 h p \<and> chain_ok w h0 h q \<and>
     (if p = Settled \<or> q = Settled then settled_ok w h else hidden h0 h)"

definition left_first :: "world \<Rightarrow> chains \<Rightarrow> nat" where
  "left_first w s = remaining w (fst s, snd (snd s))"

definition left_second :: "world \<Rightarrow> chains \<Rightarrow> nat" where
  "left_second w s = remaining w (fst (snd s), snd (snd s))"

definition chains_remaining :: "world \<Rightarrow> chains \<Rightarrow> nat" where
  "chains_remaining w s = left_first w s + left_second w s"

subsection \<open>Sample schedule\<close>

text \<open>
  The two chains take turns, \<open>n\<close> callbacks each; with \<open>sample_host\<close> on
  \<open>healthy_world\<close> both load the stored index before either has repaired it.
\<close>

definition round_robin :: "nat \<Rightarrow> turn list" where
  "round_robin n = concat (replicate n [First, Second])"

definition both_started :: chains where
  "both_started = interleave healthy_world (round_robin 1) (LoadingIndex, LoadingIndex, sample_host)"

definition both_settled :: chains where
  "both_settled = interleave healthy_world (round_robin 10) (LoadingIndex, LoadingIndex, sample_host)"

inductive_cases chains_stepE [elim]: "chains_step w (p, q, h) t"

declare step.simps [simp del] chains_inv.simps [simp del]

section \<open>What a step of one chain does to the shared host\<close>

lemma in_loop_iff: "in_loop p \<longleftrightarrow> p \<noteq> LoadingIndex \<and> p \<noteq> NullLoaded \<and> p \<noteq> Settled"
  by (cases p) simp_all

lemma pending_of_hidden: "hidden h h' \<Longrightarrow> pending_of h' = pending_of h"
  by (simp add: hidden_def pending_of_def)

lemma stored_array_hidden: "hidden h h' \<Longrightarrow> stored_array h' = stored_array h"
  by (simp add: hidden_def stored_array_def)

lemma settled_ok_hidden: "hidden h h' \<Longrightarrow> settled_ok w h' = settled_ok w h"
  by (simp add: settled_ok_def pending_of_hidden) (simp add: hidden_def)

lemma chain_ok_hidden: "hidden h h' \<Longrightarrow> chain_ok w h0 h' p = chain_ok w h0 h p"
  by (simp add: chain_ok_def pending_of_hidden)

lemma disk_readableD:
  "disk_readable w \<Longrightarrow> int s \<le> maxSavefiles w \<Longrightarrow> savefileExists w s \<Longrightarrow>
   \<exists>sc. loadObject w (makeSavename w s) = Inr sc"
  by (cases "loadObject w (makeSavename w s)") (auto simp: disk_readable_def list_all_iff ok_def)

lemma loop_inv_exit:
  assumes "loop_inv w g0 (AtSlot g i u)" and "\<not> int i \<le> maxSavefiles w"
  shows "in_sync (savefileExists w) (maxSavefiles w) g"
    and "u \<longleftrightarrow> \<not> in_sync (savefileExists w) (maxSavefiles w) g0"
    and "u \<or> g = g0"
proof -
  from assms have pre: "prefix_done w g0 g i" and i: "i = slot_count w"
    by (auto simp: prefix_done_def in_range_iff)
  from pre assms(2) show "in_sync (savefileExists w) (maxSavefiles w) g"
    by (rule prefix_done_in_sync)
  from assms(1) i show "u \<longleftrightarrow> \<not> in_sync (savefileExists w) (maxSavefiles w) g0"
    by (auto simp: in_sync_iff in_range_iff)
  from assms(1) show "u \<or> g = g0" by auto
qed

text \<open>
  A step that does not settle leaves the installed and the stored index
  alone, and the chain that took it keeps its relation to the index it
  loaded.
\<close>

lemma chain_ok_step:
  assumes ok: "chain_ok w h0 h p" and step: "step w (p, h) = Some (p', h')"
    and running: "p' \<noteq> Settled" and array: "stored_array h"
  shows "chain_ok w h0 h' p'"
proof (cases "p = LoadingIndex")
  case True
  from step [unfolded True] array have "loop_inv w (pending_of h) p'"
    by (rule loop_inv_load)
  moreover from step array True have "p' \<noteq> NullLoaded"
    by (cases rule: step_elims) (simp_all add: stored_array_def)
  ultimately show ?thesis
    using pending_of_hidden [OF step_hidden [OF step running]] by (auto simp: chain_ok_def)
next
  case False
  with step ok have loop: "in_loop p" and p': "p' \<noteq> NullLoaded"
    by (cases rule: step_elims; simp add: chain_ok_def)+
  with ok obtain g0 where g0: "loop_inv w g0 p"
    "g0 = pending_of h \<or>
     g0 = pending_of h0 \<and> \<not> in_sync (savefileExists w) (maxSavefiles w) g0"
    by (auto simp: chain_ok_def)
  from loop_inv_step [OF g0(1) step False] g0(2) p' show ?thesis
    using pending_of_hidden [OF step_hidden [OF step running]] by (auto simp: chain_ok_def)
qed

text \<open>
  The step that settles a chain: on a readable disk it is the exit of the loop,
  so it installs an index in sync with the disk, and it saves that index
  exactly when the index the chain had loaded was not in sync.
\<close>

lemma settle_step:
  assumes ok: "chain_ok w h0 h p" and step: "step w (p, h) = Some (Settled, h')"
    and disk: "disk_readable w"
  obtains g u g0 where "h' = onUpdated (Some g) u h"
    and "in_sync (savefileExists w) (maxSavefiles w) g"
    and "u \<longleftrightarrow> \<not> in_sync (savefileExists w) (maxSavefiles w) g0" and "u \<or> g = g0"
    and "g0 = pending_of h \<or>
         g0 = pending_of h0 \<and> \<not> in_sync (savefileExists w) (maxSavefiles w) g0"
    and "in_loop p"
  using step
proof (cases rule: step_elims)
  case (exit g i u)
  with ok obtain g0 where g0: "loop_inv w g0 (AtSlot g i u)"
    "g0 = pending_of h \<or>
     g0 = pending_of h0 \<and> \<not> in_sync (savefileExists w) (maxSavefiles w) g0"
    by (auto simp: chain_ok_def)
  from loop_inv_exit [OF g0(1) exit(2)] g0(2) exit show thesis
    by (intro that [of g u g0]) simp_all
next
  case (reject g i info e)
  with ok have "int i \<le> maxSavefiles w" "savefileExists w i"
    by (auto simp: chain_ok_def)
  from disk_readableD [OF disk this] reject(2) show thesis by simp
qed (use ok in \<open>simp_all add: chain_ok_def\<close>)

section \<open>The invariant\<close>

lemma chains_inv_swap: "chains_inv w h0 (p, q, h) = chains_inv w h0 (q, p, h)"
  by (auto simp: chains_inv.simps)

lemma chains_inv_start: "stored_array h0 \<Longrightarrow> chains_inv w h0 (LoadingIndex, LoadingIndex, h0)"
  by (simp add: chains_inv.simps chain_ok_def)

lemma chains_inv_running:
  assumes inv: "chains_inv w h0 (p, q, h)" and step: "step w (p, h) = Some (p', h')"
    and running: "p' \<noteq> Settled"
  shows "chains_inv w h0 (p', q, h')"
proof -
  note hid = step_hidden [OF step running]
  from step have "p \<noteq> Settled" by (auto simp: step.simps)
  with inv running hid chain_ok_step [OF _ step running] show ?thesis
    by (auto simp: chains_inv.simps stored_array_hidden chain_ok_hidden settled_ok_hidden
          intro: hidden_trans)
qed

lemma chains_inv_settling:
  assumes inv: "chains_inv w h0 (p, q, h)" and step: "step w (p, h) = Some (Settled, h')"
    and disk: "disk_readable w"
  shows "chains_inv w h0 (Settled, q, h')"
proof -
  from inv have array: "stored_array h" and p: "chain_ok w h0 h p" and q: "chain_ok w h0 h q"
    by (simp_all add: chains_inv.simps)
  from p step disk obtain g u g0 where h': "h' = onUpdated (Some g) u h"
    and sync: "in_sync (savefileExists w) (maxSavefiles w) g"
    and flag: "u \<longleftrightarrow> \<not> in_sync (savefileExists w) (maxSavefiles w) g0" and same: "u \<or> g = g0"
    and origin: "g0 = pending_of h \<or>
      g0 = pending_of h0 \<and> \<not> in_sync (savefileExists w) (maxSavefiles w) g0"
    and loop: "in_loop p"
    by (rule settle_step)
  have stored: "pending_of h' = (if u then g else pending_of h)"
    "stored_array h' = (u \<or> stored_array h)" "globalInfo h' = Some g"
    by (simp_all add: h' pending_of_def stored_array_def)
  have start: "pending_of h = pending_of h0" if "in_loop q"
    using that inv loop by (auto simp: chains_inv.simps in_loop_iff pending_of_hidden)
  have "settled_ok w h'"
  proof (cases u)
    case True
    with sync show ?thesis by (simp add: settled_ok_def stored)
  next
    case False
    with flag same origin have "g = pending_of h" by auto
    with False sync show ?thesis by (simp add: settled_ok_def stored)
  qed
  moreover have "chain_ok w h0 h' q"
  proof (cases "in_loop q \<and> u")
    case True
    with origin start have "g0 = pending_of h0" "pending_of h = pending_of h0" by auto
    with True flag q show ?thesis by (auto simp: chain_ok_def)
  next
    case False
    with q show ?thesis by (auto simp: chain_ok_def stored)
  qed
  ultimately show ?thesis
    using array by (simp add: chains_inv.simps stored chain_ok_def)
qed

lemma chains_inv_first:
  assumes "chains_inv w h0 (p, q, h)" and "step w (p, h) = Some (p', h')" and "disk_readable w"
  shows "chains_inv w h0 (p', q, h')"
  using assms by (cases "p' = Settled") (blast intro: chains_inv_settling chains_inv_running)+

lemma chains_inv_step:
  assumes "chains_step w s t" and "chains_inv w h0 s" and "disk_readable w"
  shows "chains_inv w h0 t"
  using assms
proof (induction rule: chains_step.induct)
  case (first p h p' h' q)
  then show ?case by (blast intro: chains_inv_first)
next
  case (second q h q' h' p)
  from second(2) have "chains_inv w h0 (q, p, h)" by (subst chains_inv_swap)
  with second(1,3) have "chains_inv w h0 (q', p, h')" by (blast intro: chains_inv_first)
  then show ?case by (subst chains_inv_swap)
qed

lemma chains_reachable_inv:
  assumes "chains_reachable w h0 s" and "stored_array h0" and "disk_readable w"
  shows "chains_inv w h0 s"
  using assms
  by (induction rule: chains_reachable.induct) (blast intro: chains_inv_start chains_inv_step)+

section \<open>Schedules\<close>

lemma step_Some: "p \<noteq> Settled \<Longrightarrow> \<exists>p' h'. step w (p, h) = Some (p', h')"
  by (cases "step w (p, h)") auto

lemma take_turn_cases [case_names idle first second]:
  obtains (idle) "take_turn w t s = s"
  | (first) p q h p' h' where "s = (p, q, h)" "step w (p, h) = Some (p', h')" "t = First"
      "take_turn w t s = (p', q, h')"
  | (second) p q h q' h' where "s = (p, q, h)" "step w (q, h) = Some (q', h')" "t = Second"
      "take_turn w t s = (p, q', h')"
proof -
  obtain p q h where s: "s = (p, q, h)" by (cases s)
  show thesis
  proof (cases t)
    case First
    with s idle first [of p q h] show thesis
      by (cases "step w (p, h)") auto
  next
    case Second
    with s idle second [of p q h] show thesis
      by (cases "step w (q, h)") auto
  qed
qed

lemma take_turn_reachable:
  "chains_reachable w h0 s \<Longrightarrow> chains_reachable w h0 (take_turn w t s)"
  by (cases w t s rule: take_turn_cases)
     (auto intro: chains_next chains_step.intros)

lemma interleave_reachable:
  "chains_reachable w h0 s \<Longrightarrow> chains_reachable w h0 (interleave w ts s)"
  unfolding interleave_def
  by (induction ts arbitrary: s) (simp_all add: take_turn_reachable)

lemma remaining_host: "remaining w (p, h) = remaining w (p, h')"
  by (cases p) simp_all

lemma chains_remaining_step: "chains_step w s t \<Longrightarrow> chains_remaining w t < chains_remaining w s"
proof (induction rule: chains_step.induct)
  case (first p h p' h' q)
  from remaining_step [OF first] remaining_host [of w q h h'] show ?case
    by (simp add: chains_remaining_def left_first_def left_second_def)
next
  case (second q h q' h' p)
  from remaining_step [OF second] remaining_host [of w p h h'] show ?case
    by (simp add: chains_remaining_def left_first_def left_second_def)
qed

lemma chains_progress:
  assumes "p \<noteq> Settled \<or> q \<noteq> Settled"
  shows "\<exists>t. chains_step w (p, q, h) t"
  using assms step_Some [of p w h] step_Some [of q w h]
  by (blast intro: chains_step.intros)

text \<open>
  Under a schedule each chain is as far as its own turns have taken it: the
  turns of the other chain change the host, not the number of steps left.
\<close>

lemma take_turn_left:
  "left_first w (take_turn w t s) \<le> left_first w s - (if t = First then 1 else 0) \<and>
   left_second w (take_turn w t s) \<le> left_second w s - (if t = Second then 1 else 0)"
proof (cases w t s rule: take_turn_cases)
  case idle
  obtain p q h where s: "s = (p, q, h)" by (cases s)
  have "take_turn w First (p, q, h) = (p, q, h) \<Longrightarrow> p = Settled"
    "take_turn w Second (p, q, h) = (p, q, h) \<Longrightarrow> q = Settled"
    using step_Some [of p w h] step_Some [of q w h] remaining_step [of w "(p, h)"]
      remaining_step [of w "(q, h)"]
    by (auto split: option.splits)
  with idle s show ?thesis
    by (cases t) (auto simp: left_first_def left_second_def)
next
  case (first p q h p' h')
  with remaining_step [OF first(2)] remaining_host [of w q h h'] show ?thesis
    by (simp add: left_first_def left_second_def)
next
  case (second p q h q' h')
  with remaining_step [OF second(2)] remaining_host [of w p h h'] show ?thesis
    by (simp add: left_first_def left_second_def)
qed

lemma interleave_left:
  "left_first w (interleave w ts s) \<le> left_first w s - count_list ts First \<and>
   left_second w (interleave w ts s) \<le> left_second w s - count_list ts Second"
  unfolding interleave_def
proof (induction ts arbitrary: s)
  case Nil
  show ?case by simp
next
  case (Cons t ts)
  from Cons [of "take_turn w t s"] take_turn_left [of w t s] show ?case
    by (cases t) auto
qed

lemma interleave_settles:
  assumes "2 * slot_count w + 2 \<le> count_list ts First"
    and "2 * slot_count w + 2 \<le> count_list ts Second"
  shows "\<exists>h'. interleave w ts (LoadingIndex, LoadingIndex, h) = (Settled, Settled, h')"
proof -
  let ?s = "interleave w ts (LoadingIndex, LoadingIndex, h)"
  from interleave_left [of w ts "(LoadingIndex, LoadingIndex, h)"] assms
  have "left_first w ?s = 0" "left_second w ?s = 0"
    by (simp_all add: left_first_def left_second_def)
  then show ?thesis
    by (cases ?s) (simp add: left_first_def left_second_def)
qed

lemma sample_chains_reachable:
  "chains_reachable healthy_world sample_host both_started"
  "chains_reachable healthy_world sample_host both_settled"
  unfolding both_started_def both_settled_def
  by (rule interleave_reachable [OF chains_start])+

section \<open>Properties of overlapping boots\<close>

text \<open>
  \<^bold>\<open>C14\<close> Two overlapping boots never show or store an index that
  disagrees with the disk. Let \<^verbatim>\<open>loadGlobalInfo\<close> be called twice on a host
  whose stored index is an array or cannot be loaded, with a disk on which every
  save file in range that exists can be read, and let the callbacks of the two
  chains run in any order. Then, in every state they can reach: as long as
  neither chain has settled, \<^verbatim>\<open>DataManager._globalInfo\<close> and the stored index
  are untouched; and from the moment one of them has settled, the installed
  index is the one a reload would get from storage and agrees with the disk
  on every id from 0 to \<^verbatim>\<open>maxSavefiles()\<close>, also while the other chain is still
  running and after it has settled in turn.
\<close>

theorem overlapping_boots_consistent:
  assumes "disk_readable w" and "stored_array h0" and "chains_reachable w h0 (p, q, h)"
  shows "(p = Settled \<or> q = Settled \<longrightarrow>
            globalInfo h = Some (pending_of h) \<and>
            in_sync (savefileExists w) (maxSavefiles w) (pending_of h)) \<and>
         (p \<noteq> Settled \<and> q \<noteq> Settled \<longrightarrow>
            globalInfo h = globalInfo h0 \<and> storedGlobal h = storedGlobal h0)"
  using chains_reachable_inv [OF assms(3,2,1)]
  by (auto simp: chains_inv.simps settled_ok_def hidden_def)

theorem overlapping_boots_consistent_witness:
  "disk_readable healthy_world \<and> stored_array sample_host \<and>
   chains_reachable healthy_world sample_host both_settled \<and>
   fst both_settled = Settled \<and> fst (snd both_settled) = Settled \<and>
   globalInfo (snd (snd both_settled)) = Some (pending_of (snd (snd both_settled))) \<and>
   in_sync (savefileExists healthy_world) (maxSavefiles healthy_world)
     (pending_of (snd (snd both_settled))) \<and>
   chains_reachable healthy_world sample_host both_started \<and>
   fst both_started \<noteq> Settled \<and> fst (snd both_started) \<noteq> Settled \<and>
   globalInfo (snd (snd both_started)) = globalInfo sample_host \<and>
   storedGlobal (snd (snd both_started)) = storedGlobal sample_host \<and>
   globalInfo (snd (snd both_started)) = None"
proof -
  have pre: "disk_readable healthy_world" "stored_array sample_host"
    by code_simp+
  have computed: "fst both_settled = Settled" "fst (snd both_settled) = Settled"
    "fst both_started \<noteq> Settled" "fst (snd both_started) \<noteq> Settled"
    "globalInfo (snd (snd both_settled)) \<noteq> None" "globalInfo (snd (snd both_started)) = None"
    by code_simp+
  note safe = overlapping_boots_consistent [OF pre, of "fst s" "fst (snd s)" "snd (snd s)" for s,
      simplified]
  from safe [OF sample_chains_reachable(1)] safe [OF sample_chains_reachable(2)]
    pre computed sample_chains_reachable
  show ?thesis by simp
qed

text \<open>
  \<^bold>\<open>C16\<close> Two overlapping boots both settle. Whatever is on the disk
  and in storage, and in whatever order the callbacks of the two chains run:
  once each chain has had \<open>2 * (maxSavefiles + 1) + 2\<close> turns, both have
  settled. A chain is never held up by the other one; the turns of the other
  chain only change the host. (Every step of either chain also lowers
  \<open>chains_remaining\<close>, so no execution of the two has more than twice that
  many steps, and a step is possible until both have settled.)
\<close>

theorem overlapping_boots_settle:
  assumes "2 * slot_count w + 2 \<le> count_list ts First"
    and "2 * slot_count w + 2 \<le> count_list ts Second"
  shows "\<exists>h'. interleave w ts (LoadingIndex, LoadingIndex, h) = (Settled, Settled, h') \<and>
              chains_reachable w h (Settled, Settled, h')"
proof -
  from interleave_settles [OF assms] obtain h' where
    "interleave w ts (LoadingIndex, LoadingIndex, h) = (Settled, Settled, h')" ..
  with interleave_reachable [OF chains_start, of w h ts] show ?thesis by auto
qed

theorem overlapping_boots_settle_witness:
  "2 * slot_count healthy_world + 2 \<le> count_list (round_robin 10) First \<and>
   2 * slot_count healthy_world + 2 \<le> count_list (round_robin 10) Second \<and>
   (\<exists>h'. both_settled = (Settled, Settled, h') \<and>
         chains_reachable healthy_world sample_host (Settled, Settled, h')) \<and>
   fst (interleave healthy_world (round_robin 7) (LoadingIndex, LoadingIndex, sample_host))
     \<noteq> Settled \<and>
   fst (interleave healthy_world (round_robin 8) (LoadingIndex, LoadingIndex, sample_host))
     = Settled"
proof -
  have pre: "2 * slot_count healthy_world + 2 \<le> count_list (round_robin 10) First"
    "2 * slot_count healthy_world + 2 \<le> count_list (round_robin 10) Second"
    by code_simp+
  have computed:
    "fst (interleave healthy_world (round_robin 7) (LoadingIndex, LoadingIndex, sample_host))
       \<noteq> Settled"
    "fst (interleave healthy_world (round_robin 8) (LoadingIndex, LoadingIndex, sample_host))
       = Settled"
    by code_simp+
  from overlapping_boots_settle [OF pre, of sample_host] pre computed show ?thesis
    by (simp add: both_settled_def)
qed

end
