(* ===== verification/Boot_Log.thy ===== *)
theory Boot_Log
  imports Index_Loader
begin

text \<open>
  What a boot writes to the console and when it reads the clock, in closed
  form.

  The pass calls \<^verbatim>\<open>makeMissingSaveInfo\<close> for the ids that need an entry, in
  ascending order, until the load of a save file is rejected. So the console
  and the clock of a whole boot are determined by the stored index and the
  disk alone:

  \<^item> \<open>missing\<close> are the ids from 0 to \<^verbatim>\<open>maxSavefiles()\<close> whose save file exists
    and has no entry in an index, \<open>loads\<close> says that the save file of an id can
    be loaded, and \<open>attempted\<close> are the missing ids up to and including the
    first that cannot;
  \<^item> \<open>slot_log\<close> is what \<^verbatim>\<open>makeMissingSaveInfo\<close> logs for an id, \<open>failure_log\<close> the
    line of the \<^verbatim>\<open>catch\<close> callback when there is such a first id, and \<open>boot_log\<close>
    everything a boot logs.

  None of these is code of the plugin; they are the specification the chain
  of theory \<open>Index_Loader\<close> is proved against.
\<close>

section \<open>Definitions\<close>

definition loads :: "world \<Rightarrow> nat \<Rightarrow> bool" where
  "loads w s = ok (loadObject w (makeSavename w s))"

definition missing :: "world \<Rightarrow> global_info \<Rightarrow> nat list" where
  "missing w g = missing_slots (savefileExists w) g (all_slots (maxSavefiles w))"

definition attempted :: "world \<Rightarrow> global_info \<Rightarrow> nat list" where
  "attempted w g = attempts (loads w) (missing w g)"

definition slot_log :: "world \<Rightarrow> nat \<Rightarrow> log_entry list" where
  "slot_log w s =
     (case loadObject w (makeSavename w s) of
        Inl e \<Rightarrow> [(ConsoleWarn, msg_restoring s, None)]
      | Inr sc \<Rightarrow> synthesis_log s (extraction_error sc))"

definition failure_log :: "world \<Rightarrow> global_info \<Rightarrow> log_entry list" where
  "failure_log w g =
     (case dropWhile (loads w) (missing w g) of
        [] \<Rightarrow> []
      | s # rest \<Rightarrow>
          (case loadObject w (makeSavename w s) of
             Inl e \<Rightarrow> [(ConsoleError, ''Failed to update global info'', Some e)]
           | Inr sc \<Rightarrow> []))"

definition boot_log :: "world \<Rightarrow> host \<Rightarrow> log_entry list" where
  "boot_log w h =
     boot_entry h # concat (map (slot_log w) (attempted w (pending_of h))) @
     failure_log w (pending_of h)"

section \<open>The synthesis along a list of ids\<close>

lemma synthesis_fold:
  "console (foldl (\<lambda>h s. fst (makeMissingSaveInfo w s h)) h xs) =
     console h @ concat (map (slot_log w) xs)"
  "clockReads (foldl (\<lambda>h s. fst (makeMissingSaveInfo w s h)) h xs) = clockReads h + length xs"
  by (induction xs arbitrary: h) (simp_all add: makeMissingSaveInfo_console slot_log_def)

lemma loads_synthesis: "ok (snd (makeMissingSaveInfo w s h)) = loads w s"
  by (simp add: loads_def ok_makeMissingSaveInfo_iff)

lemma loadable_missing: "loadable w g \<longleftrightarrow> list_all (loads w) (missing w g)"
  by (auto simp: loadable_iff missing_def missing_slots_def loads_def list_all_iff)

lemma updateGlobalInfo_slots:
  "updateGlobalInfo w g h = (g', h', res) \<Longrightarrow>
   reconcile_slots (makeMissingSaveInfo w) (savefileExists w) (all_slots (maxSavefiles w)) g h
     False = (g', h', res)"
  by (simp add: updateGlobalInfo_def reconcile_pass_eq_slots)

section \<open>The pass\<close>

lemma updateGlobalInfo_trace:
  assumes "updateGlobalInfo w g h = (g', h', res)"
  shows "console h' = console h @ concat (map (slot_log w) (attempted w g))"
    and "clockReads h' = clockReads h + length (attempted w g)"
proof -
  have "h' = foldl (\<lambda>h s. fst (makeMissingSaveInfo w s h)) h (attempted w g)"
    unfolding attempted_def missing_def
    by (rule slots_attempts_state [OF loads_synthesis _ updateGlobalInfo_slots [OF assms]]) simp
  then show "console h' = console h @ concat (map (slot_log w) (attempted w g))"
    and "clockReads h' = clockReads h + length (attempted w g)"
    by (simp_all add: synthesis_fold)
qed

lemma updateGlobalInfo_failure_log:
  assumes "updateGlobalInfo w g h = (g', h', res)"
  shows "update_entry res = failure_log w g"
proof (cases res)
  case (Inr u)
  with assms updateGlobalInfo_resolves_iff [of w g h] have "list_all (loads w) (missing w g)"
    by (simp add: loadable_missing)
  then have "dropWhile (loads w) (missing w g) = []"
    by (simp add: list_all_iff)
  with Inr show ?thesis
    by (simp add: update_entry_def failure_log_def del: dropWhile_eq_Nil_conv)
next
  case (Inl e)
  with slots_attempts_error [OF loads_synthesis _ updateGlobalInfo_slots [OF assms [unfolded Inl]]]
  obtain k rest r0 where "dropWhile (loads w) (missing w g) = k # rest"
    "snd (makeMissingSaveInfo w k r0) = Inl e"
    by (auto simp: missing_def)
  with Inl show ?thesis
    by (auto simp: update_entry_def failure_log_def makeMissingSaveInfo_result split: sum.splits)
qed

lemma updateGlobalInfo_stamped:
  assumes run: "updateGlobalInfo w g h = (g', h', res)" and j: "j < length (attempted w g)"
    and sc: "loadObject w (makeSavename w (attempted w g ! j)) = Inr sc"
  shows "js_get g' (attempted w g ! j) = Some (expected_info w sc (dateNow w (clockReads h + j)))"
proof -
  let ?hj = "foldl (\<lambda>h s. fst (makeMissingSaveInfo w s h)) h (take j (attempted w g))"
  from j have "clockReads ?hj = clockReads h + j"
    by (simp add: synthesis_fold)
  with sc have "snd (makeMissingSaveInfo w (attempted w g ! j) ?hj) =
      Inr (expected_info w sc (dateNow w (clockReads h + j)))"
    by (simp add: makeMissingSaveInfo_result)
  with j show ?thesis
    unfolding attempted_def missing_def
    by (intro slots_attempts_entry [OF loads_synthesis _ updateGlobalInfo_slots [OF run]]) simp_all
qed

section \<open>Properties of the log\<close>

text \<open>
  \<^bold>\<open>C13\<close> The console and the clock of a boot. If the stored index is
  an array (or cannot be loaded), a boot logs the outcome of loading the
  index, then for each attempted id in ascending order what
  \<^verbatim>\<open>makeMissingSaveInfo\<close> logs for it, then the failure line if the load of a
  save file was rejected, and nothing else; it reads the clock once for each
  attempted id; and the entry of the \<open>j\<close>-th attempted id whose save file loads
  is the summary of that file stamped with the \<open>j\<close>-th reading of the clock, so
  timestamps ascend with the ids in the order the clock gives them.
\<close>

theorem boot_log_exact:
  assumes "stored_array h"
  shows "console (loadGlobalInfo w h) = console h @ boot_log w h \<and>
         clockReads (loadGlobalInfo w h) = clockReads h + length (attempted w (pending_of h)) \<and>
         (\<exists>g. globalInfo (loadGlobalInfo w h) = Some g \<and>
            (\<forall>j sc. j < length (attempted w (pending_of h)) \<and>
                     loadObject w (makeSavename w (attempted w (pending_of h) ! j)) = Inr sc \<longrightarrow>
                js_get g (attempted w (pending_of h) ! j) =
                  Some (expected_info w sc (dateNow w (clockReads h + j)))))"
proof (rule loadGlobalInfo_run [OF assms, of w])
  fix g h' res
  assume run: "updateGlobalInfo w (pending_of h) (snd (loadStoredGlobal h)) = (g, h', res)"
    and out: "globalInfo (loadGlobalInfo w h) = Some g"
      "console (loadGlobalInfo w h) = console h' @ update_entry res"
      "clockReads (loadGlobalInfo w h) = clockReads h'"
  note trace = updateGlobalInfo_trace [OF run] updateGlobalInfo_failure_log [OF run]
  have "js_get g (attempted w (pending_of h) ! j) =
      Some (expected_info w sc (dateNow w (clockReads h + j)))"
    if "j < length (attempted w (pending_of h))"
      "loadObject w (makeSavename w (attempted w (pending_of h) ! j)) = Inr sc" for j sc
    using updateGlobalInfo_stamped [OF run that] by simp
  with out trace show ?thesis
    by (simp add: boot_log_def)
qed

theorem boot_log_exact_witness:
  "stored_array sample_host \<and>
   attempted sample_world (pending_of sample_host) = [1, 2] \<and>
   console (loadGlobalInfo sample_world sample_host) =
     [(ConsoleLog, ''Global info loaded.'', None),
      (ConsoleWarn, msg_restoring 1, None), (ConsoleLog, msg_restored 1, None),
      (ConsoleWarn, msg_restoring 2, None),
      (ConsoleError, ''Failed to update global info'', Some LoadError)] \<and>
   clockReads (loadGlobalInfo sample_world sample_host) = 2 \<and>
   (\<exists>g. globalInfo (loadGlobalInfo sample_world sample_host) = Some g \<and>
        js_get g 1 = Some (expected_info sample_world sample_save 1000)) \<and>
   last (console (loadGlobalInfo sample_world sample_host)) =
     (ConsoleError, ''Failed to update global info'', Some LoadError)"
proof -
  have att: "attempted sample_world (pending_of sample_host) = [1, 2]"
    and log: "boot_log sample_world sample_host =
      [(ConsoleLog, ''Global info loaded.'', None),
       (ConsoleWarn, msg_restoring 1, None), (ConsoleLog, msg_restored 1, None),
       (ConsoleWarn, msg_restoring 2, None),
       (ConsoleError, ''Failed to update global info'', Some LoadError)]"
    and computed: "clockReads (loadGlobalInfo sample_world sample_host) = 2"
      "last (console (loadGlobalInfo sample_world sample_host)) =
         (ConsoleError, ''Failed to update global info'', Some LoadError)"
    and start: "console sample_host = []"
      "dateNow sample_world (clockReads sample_host) = 1000"
    by code_simp+
  have file1: "loadObject sample_world (makeSavename sample_world 1) = Inr sample_save"
    by (simp add: sample_world_def digits10_small digit_char_def)
  note exact = boot_log_exact [OF stored_array_sample(1), of sample_world]
  from exact [THEN conjunct2, THEN conjunct2] obtain g where
    g: "globalInfo (loadGlobalInfo sample_world sample_host) = Some g"
    and stamps: "\<forall>j sc. j < length (attempted sample_world (pending_of sample_host)) \<and>
        loadObject sample_world
          (makeSavename sample_world (attempted sample_world (pending_of sample_host) ! j)) = Inr sc \<longrightarrow>
        js_get g (attempted sample_world (pending_of sample_host) ! j) =
          Some (expected_info sample_world sc (dateNow sample_world (clockReads sample_host + j)))"
    by blast
  from stamps [unfolded att, rule_format, of 0 sample_save] file1
  have "js_get g 1 = Some (expected_info sample_world sample_save 1000)"
    by (simp add: start)
  with g exact [THEN conjunct1] att log computed show ?thesis
    by (simp add: start)
qed

end
