(* ===== verification/Slot_Order.thy ===== *)
theory Slot_Order
  imports Boot_Log "HOL-Library.Multiset"
begin

text \<open>
  The iterations of the \<^verbatim>\<open>for\<close> loop of \<^verbatim>\<open>DataManager.updateGlobalInfo\<close> do
  not depend on each other.

  The code visits the savefile ids in ascending order. An iteration reads and
  writes the element of its own id only, so the body can be run for the ids in
  another order. What the order does decide is when \<^verbatim>\<open>Date.now()\<close> is read
  for an id and where its lines stand in the console.

  \<^item> \<open>untimed\<close> forgets the timestamp of an entry;
  \<^item> \<open>pass_in_order\<close> runs the loop body of theory \<open>Index_Reconciler\<close>, with
    \<^verbatim>\<open>makeMissingSaveInfo\<close> as in the code, for a given list of ids instead of
    \<open>0, \<dots>, maxSavefiles()\<close>;
  \<^item> \<open>descending\<close> is the order from \<^verbatim>\<open>maxSavefiles()\<close> down to 0.

  The first sections hold for every synthesiser; the last one is about the
  plugin's.
\<close>

section \<open>Definitions\<close>

definition untimed :: "save_info \<Rightarrow> save_info" where
  "untimed info = info\<lparr>timestamp := 0\<rparr>"

definition pass_in_order ::
  "world \<Rightarrow> nat list \<Rightarrow> global_info \<Rightarrow> host \<Rightarrow> (host, save_info) pass_result" where
  "pass_in_order w ss g h =
     reconcile_slots (makeMissingSaveInfo w) (savefileExists w) ss g h False"

definition descending :: "world \<Rightarrow> nat list" where
  "descending w = rev (all_slots (maxSavefiles w))"

section \<open>The array after a pass over any list of ids\<close>

text \<open>
  Where the element of an id comes from after a pass that resolved: the id
  was not visited, its entry was deleted or kept, or it was made by the
  synthesiser.
\<close>

lemma slots_entry_cases [consumes 1, case_names outside absent kept made]:
  assumes "reconcile_slots mk ex ss g r u = (g', r', Inr u')"
  obtains "s \<notin> set ss" "js_get g' s = js_get g s"
    | "s \<in> set ss" "\<not> ex s" "js_get g' s = None"
    | e where "s \<in> set ss" "ex s" "js_get g s = Some e" "js_get g' s = Some e"
    | v r0 r1 where "s \<in> set ss" "ex s" "js_get g s = None" "js_get g' s = Some v"
        "mk s r0 = (r1, Inr v)"
proof (cases "s \<in> set ss")
  case False
  with slots_other [OF assms] that(1) show thesis by simp
next
  case True
  note rec = slots_ok_reconciled [OF assms True]
  show thesis
  proof (cases "ex s")
    case False
    with rec True that(2) show thesis by (simp add: reconciled_at_def)
  next
    case ex: True
    with rec obtain v where v: "js_get g' s = Some v"
      by (auto simp: reconciled_at_def)
    show thesis
    proof (cases "js_get g s")
      case None
      from slots_inserted_from [OF assms True ex None v] True ex None v that(4)
      show thesis by blast
    next
      case (Some e)
      with slots_present_kept [OF assms ex] True ex that(3) show thesis by simp
    qed
  qed
qed

section \<open>Two orders of the same ids\<close>

text \<open>
  Two passes over the same set of ids that both resolve: same flag, same
  length, and the same entries up to what an entry owes to the state the
  synthesiser was called in (\<open>\<alpha>\<close> forgets that part).
\<close>

lemma slots_order_entry:
  assumes one: "reconcile_slots mk ex ss g r u = (g1, r1, Inr u1)"
    and two: "reconcile_slots mk ex ss' g r' u = (g2, r2, Inr u2)"
    and same: "set ss' = set ss"
    and abs: "\<And>s ra rb ra' rb' a b.
      mk s ra = (ra', Inr a) \<Longrightarrow> mk s rb = (rb', Inr b) \<Longrightarrow> \<alpha> a = \<alpha> b"
  shows "map_option \<alpha> (js_get g2 s) = map_option \<alpha> (js_get g1 s)"
  using one
proof (cases rule: slots_entry_cases [where s = s])
  case (made v r0 r1)
  from two made(1-3) same obtain v' r0' r1' where
    "js_get g2 s = Some v'" "mk s r0' = (r1', Inr v')"
    by (cases rule: slots_entry_cases [where s = s]) auto
  with made abs [of s r0' r1' v' r0 r1 v] show ?thesis by simp
qed (use two same in \<open>cases rule: slots_entry_cases [where s = s]; simp\<close>)+

lemma slots_order_flag:
  assumes "reconcile_slots mk ex ss g r u = (g1, r1, Inr u1)"
    and "reconcile_slots mk ex ss' g r' u = (g2, r2, Inr u2)" and "set ss' = set ss"
  shows "u2 = u1"
  using slots_ok_flag [OF assms(1)] slots_ok_flag [OF assms(2)] assms(3) by simp

lemma slots_order_length:
  assumes "reconcile_slots mk ex ss g r u = (g1, r1, Inr u1)"
    and "reconcile_slots mk ex ss' g r' u = (g2, r2, Inr u2)"
    and "set ss' = set ss" and "distinct ss" and "distinct ss'"
  shows "length g2 = length g1"
proof -
  from assms(3) have "set (missing_slots ex g ss') = set (missing_slots ex g ss)"
    by (simp add: missing_slots_def)
  with slots_length_exact [OF assms(4,1)] slots_length_exact [OF assms(5,2)]
  show ?thesis by simp
qed

lemma slots_order_array:
  assumes "reconcile_slots mk ex ss g r u = (g1, r1, Inr u1)"
    and "reconcile_slots mk ex ss' g r' u = (g2, r2, Inr u2)"
    and "set ss' = set ss" and "distinct ss" and "distinct ss'"
    and "\<And>s ra rb ra' rb' a b.
      mk s ra = (ra', Inr a) \<Longrightarrow> mk s rb = (rb', Inr b) \<Longrightarrow> \<alpha> a = \<alpha> b"
  shows "map (map_option \<alpha>) g2 = map (map_option \<alpha>) g1"
proof (rule js_array_eqI)
  from slots_order_length [OF assms(1-5)]
  show "length (map (map_option \<alpha>) g2) = length (map (map_option \<alpha>) g1)" by simp
next
  fix s
  have "js_get (map (map_option \<alpha>) xs) s = map_option \<alpha> (js_get xs s)" for xs
    by (simp add: js_get_def)
  moreover have "map_option \<alpha> (js_get g2 s) = map_option \<alpha> (js_get g1 s)"
    using assms(1-3) by (rule slots_order_entry) (rule assms(6))
  ultimately show "js_get (map (map_option \<alpha>) g2) s = js_get (map (map_option \<alpha>) g1) s"
    by simp
qed

section \<open>The plugin's synthesiser in another order\<close>

lemma untimed_expected_info: "untimed (expected_info w sc now) = untimed (expected_info w sc 0)"
  by (simp add: untimed_def expected_info_def default_info_def Let_def split: option.splits)

lemma makeMissingSaveInfo_untimed:
  assumes "makeMissingSaveInfo w s ha = (ha', Inr a)" and "makeMissingSaveInfo w s hb = (hb', Inr b)"
  shows "untimed a = untimed b"
  using makeMissingSaveInfo_result [of w s ha] makeMissingSaveInfo_result [of w s hb] assms
    untimed_expected_info [of w _ "dateNow w (clockReads ha)"]
    untimed_expected_info [of w _ "dateNow w (clockReads hb)"]
  by (auto split: sum.splits)

lemma mset_concat_map_cong:
  "mset xs = mset ys \<Longrightarrow> mset (concat (map f xs)) = mset (concat (map f ys))"
  by (metis mset_concat mset_map sum_mset_sum_list)

lemma synthesis_fold_frame:
  "globalInfo (foldl (\<lambda>h s. fst (makeMissingSaveInfo w s h)) h xs) = globalInfo h"
  "storedGlobal (foldl (\<lambda>h s. fst (makeMissingSaveInfo w s h)) h xs) = storedGlobal h"
  by (induction xs arbitrary: h) simp_all

lemma pass_in_order_host:
  assumes "distinct ss" and "pass_in_order w ss g h = (g', h', Inr u)"
  shows "console h' = console h @ concat (map (slot_log w) (missing_slots (savefileExists w) g ss))"
    and "h'\<lparr>console := []\<rparr> =
           h\<lparr>console := [],
             clockReads := clockReads h + length (missing_slots (savefileExists w) g ss)\<rparr>"
proof -
  from slots_ok_state [OF assms(1) assms(2) [unfolded pass_in_order_def]]
  have h': "h' = foldl (\<lambda>h s. fst (makeMissingSaveInfo w s h)) h
      (missing_slots (savefileExists w) g ss)" .
  then show "console h' =
      console h @ concat (map (slot_log w) (missing_slots (savefileExists w) g ss))"
    by (simp add: synthesis_fold)
  from h' show "h'\<lparr>console := []\<rparr> =
      h\<lparr>console := [],
        clockReads := clockReads h + length (missing_slots (savefileExists w) g ss)\<rparr>"
    by (intro host.equality) (simp_all add: synthesis_fold synthesis_fold_frame)
qed

lemma pass_in_order_resolves:
  assumes "loadable w g" and "set ss = set (all_slots (maxSavefiles w))"
  shows "\<exists>g' h' u. pass_in_order w ss g h = (g', h', Inr u)"
  unfolding pass_in_order_def
  by (rule slots_total) (use assms in \<open>simp add: loadable_iff ok_makeMissingSaveInfo_iff\<close>)

lemma pass_in_order_ascending:
  "pass_in_order w (all_slots (maxSavefiles w)) g h = updateGlobalInfo w g h"
  by (simp add: pass_in_order_def updateGlobalInfo_def reconcile_pass_eq_slots)

section \<open>Properties of the order of the ids\<close>

text \<open>
  \<^bold>\<open>C15\<close> The order of the iterations does not matter, up to timestamps
  and the order of the log. If every save file that needs an entry can be
  read, then running the loop body of \<^verbatim>\<open>updateGlobalInfo\<close> for the ids
  \<open>0, \<dots>, maxSavefiles()\<close> in any order resolves, like the code's ascending
  loop does, with the same flag, an array of the same length with the same
  entries except for their timestamps, the same number of readings of the
  clock, and the same console lines in possibly another order; the installed
  and the stored index are not touched by either.
\<close>

theorem pass_order_independent:
  assumes "loadable w g" and "mset ss = mset (all_slots (maxSavefiles w))"
  shows "\<exists>g1 h1 g2 h2 u.
           updateGlobalInfo w g h = (g1, h1, Inr u) \<and>
           pass_in_order w ss g h = (g2, h2, Inr u) \<and>
           map (map_option untimed) g2 = map (map_option untimed) g1 \<and>
           h2\<lparr>console := []\<rparr> = h1\<lparr>console := []\<rparr> \<and>
           mset (console h2) = mset (console h1)"
proof -
  let ?all = "all_slots (maxSavefiles w)" and ?ex = "savefileExists w"
  from assms(2) have set: "set ss = set ?all" and dist: "distinct ss"
    using mset_eq_setD [OF assms(2)] mset_eq_imp_distinct_iff [OF assms(2)] by simp_all
  from pass_in_order_resolves [OF assms(1) set] obtain g2 h2 u2 where
    two: "pass_in_order w ss g h = (g2, h2, Inr u2)" by blast
  from pass_in_order_resolves [OF assms(1) refl] obtain g1 h1 u1 where
    one: "pass_in_order w ?all g h = (g1, h1, Inr u1)" by blast
  note one' = one [unfolded pass_in_order_def] and two' = two [unfolded pass_in_order_def]
  have flag: "u2 = u1"
    by (rule slots_order_flag [OF one' two' set])
  have array: "map (map_option untimed) g2 = map (map_option untimed) g1"
    by (rule slots_order_array [OF one' two' set _ dist]) (simp, rule makeMissingSaveInfo_untimed)
  from assms(2) have miss: "mset (missing_slots ?ex g ss) = mset (missing_slots ?ex g ?all)"
    by (simp add: missing_slots_def)
  note host1 = pass_in_order_host [OF distinct_all_slots one]
    and host2 = pass_in_order_host [OF dist two]
  from host1(2) host2(2) mset_eq_length [OF miss] have "h2\<lparr>console := []\<rparr> = h1\<lparr>console := []\<rparr>"
    by simp
  moreover from host1(1) host2(1) mset_concat_map_cong [OF miss, of "slot_log w"]
  have "mset (console h2) = mset (console h1)"
    by simp
  ultimately show ?thesis
    using one two flag array by (simp add: pass_in_order_ascending)
qed

theorem pass_order_independent_witness:
  "loadable healthy_world (pending_of sample_host) \<and>
   mset (descending healthy_world) = mset (all_slots (maxSavefiles healthy_world)) \<and>
   (\<exists>g1 h1 g2 h2 u.
      updateGlobalInfo healthy_world (pending_of sample_host) sample_host = (g1, h1, Inr u) \<and>
      pass_in_order healthy_world (descending healthy_world) (pending_of sample_host) sample_host =
        (g2, h2, Inr u) \<and>
      map (map_option untimed) g2 = map (map_option untimed) g1 \<and>
      h2\<lparr>console := []\<rparr> = h1\<lparr>console := []\<rparr> \<and> mset (console h2) = mset (console h1)) \<and>
   map (map_option timestamp)
     (fst (updateGlobalInfo healthy_world (pending_of sample_host) sample_host)) =
     [None, Some 1000, None, Some 1001] \<and>
   map (map_option timestamp)
     (fst (pass_in_order healthy_world (descending healthy_world) (pending_of sample_host)
        sample_host)) =
     [None, Some 1001, None, Some 1000]"
proof -
  have pre: "loadable healthy_world (pending_of sample_host)"
    "mset (descending healthy_world) = mset (all_slots (maxSavefiles healthy_world))"
    by code_simp+
  have computed:
    "map (map_option timestamp)
       (fst (updateGlobalInfo healthy_world (pending_of sample_host) sample_host)) =
       [None, Some 1000, None, Some 1001]"
    "map (map_option timestamp)
       (fst (pass_in_order healthy_world (descending healthy_world) (pending_of sample_host)
          sample_host)) =
       [None, Some 1001, None, Some 1000]"
    by code_simp+
  from pass_order_independent [OF pre, of sample_host] pre computed show ?thesis
    by blast
qed

end
