(* ===== verification/Spec_Conformance.thy ===== *)
theory Spec_Conformance
  imports Index_Loader
begin

text \<open>
  The pass of the plugin against the pass its specification describes.

  The specification asks of entry synthesis that it never fails: when the
  save file cannot be loaded, the default entry is returned as it is, and the
  reconciliation loop goes on. \<open>synthesize_spec\<close> is that synthesis: the code
  of \<^verbatim>\<open>makeMissingSaveInfo\<close> with the load of the save file inside the \<^verbatim>\<open>try\<close>
  block, so that a rejected load is logged by the \<^verbatim>\<open>catch\<close> like any other
  failure. \<open>updateGlobalInfo_spec\<close> is the pass with it.

  Neither is code of the plugin. The lemmas show that the specified pass
  always resolves with an index in sync, and on which inputs the plugin's pass
  is the specified one.
\<close>

section \<open>Definitions\<close>

definition synthesize_spec :: "world \<Rightarrow> nat \<Rightarrow> host \<Rightarrow> host \<times> (error + save_info)" where
  "synthesize_spec w slotId h0 =
     (let (info, h) = synthesis_begin w slotId h0
      in case loadObject w (makeSavename w slotId) of
           Inl err \<Rightarrow>
             (emit ConsoleWarn (msg_can_still slotId) None
                (emit ConsoleError (msg_failed slotId) (Some err) h), Inr info)
         | Inr saveContents \<Rightarrow>
             (let (info', h') = synthesis_resume slotId saveContents info h
              in (h', Inr info')))"

definition updateGlobalInfo_spec ::
  "world \<Rightarrow> global_info \<Rightarrow> host \<Rightarrow> (host, save_info) pass_result" where
  "updateGlobalInfo_spec w g h =
     reconcile_pass (synthesize_spec w) (savefileExists w) (maxSavefiles w) g h"

section \<open>The specified synthesis\<close>

lemma synthesize_spec_loaded:
  "loadObject w (makeSavename w s) = Inr sc \<Longrightarrow> synthesize_spec w s h = makeMissingSaveInfo w s h"
  by (simp add: synthesize_spec_def makeMissingSaveInfo_def)

lemma synthesize_spec_ok [simp]: "ok (snd (synthesize_spec w s h))"
  by (simp add: synthesize_spec_def split_beta Let_def split: sum.splits)

lemma synthesize_spec_placeholder:
  "loadObject w (makeSavename w s) = Inl e \<Longrightarrow>
   snd (synthesize_spec w s h) = Inr (default_info w (dateNow w (clockReads h)))"
  by (simp add: synthesize_spec_def synthesis_begin_def split_beta Let_def)

section \<open>The specified pass\<close>

lemma updateGlobalInfo_spec_resolves:
  obtains g' h' where
    "updateGlobalInfo_spec w g h = (g', h', Inr (\<not> in_sync (savefileExists w) (maxSavefiles w) g))"
    "in_sync (savefileExists w) (maxSavefiles w) g'"
proof -
  have "\<exists>g' h' changed.
      reconcile_slots (synthesize_spec w) (savefileExists w) (all_slots (maxSavefiles w)) g h False =
        (g', h', Inr changed)"
    by (rule slots_total) simp
  then obtain g' h' changed where run:
    "reconcile_slots (synthesize_spec w) (savefileExists w) (all_slots (maxSavefiles w)) g h False =
       (g', h', Inr changed)"
    by blast
  from slots_ok_flag [OF run] have "changed \<longleftrightarrow> \<not> in_sync (savefileExists w) (maxSavefiles w) g"
    by (simp add: in_sync_iff)
  moreover have "in_sync (savefileExists w) (maxSavefiles w) g'"
    by (auto simp: in_sync_def list_all_iff intro: slots_ok_reconciled [OF run])
  ultimately show thesis
    using run by (intro that [of g' h']) (simp_all add: updateGlobalInfo_spec_def reconcile_pass_eq_slots)
qed

lemma updateGlobalInfo_spec_loadable:
  assumes "loadable w g"
  shows "updateGlobalInfo w g h = updateGlobalInfo_spec w g h"
  unfolding updateGlobalInfo_def updateGlobalInfo_spec_def reconcile_pass_eq_slots
proof (rule slots_cong)
  fix s r0
  assume "s \<in> set (all_slots (maxSavefiles w))" "savefileExists w s" "js_get g s = None"
  with assms obtain sc where "loadObject w (makeSavename w s) = Inr sc"
    by (auto simp: loadable_iff ok_iff)
  then show "makeMissingSaveInfo w s r0 = synthesize_spec w s r0"
    by (simp add: synthesize_spec_loaded)
qed simp

section \<open>Conformance\<close>

text \<open>
  \<^bold>\<open>C12\<close> The plugin's pass is the specified pass exactly when every
  save file that needs an entry can be loaded. The specified pass always
  resolves, with an index that is in sync and with the flag that says whether
  the index was changed; \<^verbatim>\<open>updateGlobalInfo\<close> returns the same index, the same
  console and clock and the same flag if every existing save file without an
  entry can be loaded, and differs from it otherwise.
\<close>

theorem updateGlobalInfo_conforms:
  "(updateGlobalInfo w g h = updateGlobalInfo_spec w g h \<longleftrightarrow> loadable w g) \<and>
   (\<exists>g' h'. updateGlobalInfo_spec w g h =
        (g', h', Inr (\<not> in_sync (savefileExists w) (maxSavefiles w) g)) \<and>
      in_sync (savefileExists w) (maxSavefiles w) g')"
proof (rule updateGlobalInfo_spec_resolves [of w g h])
  fix g' h'
  assume spec: "updateGlobalInfo_spec w g h =
      (g', h', Inr (\<not> in_sync (savefileExists w) (maxSavefiles w) g))"
    and sync: "in_sync (savefileExists w) (maxSavefiles w) g'"
  have "loadable w g" if "updateGlobalInfo w g h = updateGlobalInfo_spec w g h"
    using updateGlobalInfo_resolves_iff [of w g h] that spec by simp
  with updateGlobalInfo_spec_loadable [of w g h] spec sync show ?thesis
    by blast
qed

theorem updateGlobalInfo_conforms_witness:
  "updateGlobalInfo healthy_world [Some sample_info] sample_host =
     updateGlobalInfo_spec healthy_world [Some sample_info] sample_host \<and>
   updateGlobalInfo sample_world [Some sample_info] sample_host \<noteq>
     updateGlobalInfo_spec sample_world [Some sample_info] sample_host \<and>
   map (map_option playtime) (fst (updateGlobalInfo_spec sample_world [Some sample_info] sample_host)) =
     [None, Some ''00:01:30'', Some ''??:??:??'', Some ''??:??:??''] \<and>
   map (map_option playtime) (fst (updateGlobalInfo sample_world [Some sample_info] sample_host)) =
     [None, Some ''00:01:30'']"
proof -
  have pre: "loadable healthy_world [Some sample_info]"
    "\<not> loadable sample_world [Some sample_info]"
    by code_simp+
  have computed:
    "map (map_option playtime)
       (fst (updateGlobalInfo_spec sample_world [Some sample_info] sample_host)) =
     [None, Some ''00:01:30'', Some ''??:??:??'', Some ''??:??:??'']"
    "map (map_option playtime) (fst (updateGlobalInfo sample_world [Some sample_info] sample_host)) =
     [None, Some ''00:01:30'']"
    by code_simp+
  note conforms = updateGlobalInfo_conforms [THEN conjunct1]
  from conforms [of healthy_world "[Some sample_info]" sample_host]
    conforms [of sample_world "[Some sample_info]" sample_host] pre computed
  show ?thesis by simp
qed

end
