(* ===== verification/Plugin_Registration.thy ===== *)
theory Plugin_Registration
  imports SaveSync_Prelude
begin

text \<open>
  What loading the plugin file does to the global objects of the engine: the
  statements of \<^verbatim>\<open>McKathlin_SaveSync.js\<close> outside the function bodies.

  \<^item> \<open>globals\<close> holds the three global objects the file touches: \<^verbatim>\<open>Imported\<close>
    (the flags by which plugins announce themselves) and \<^verbatim>\<open>McKathlin\<close> (the
    namespaces of this author's plugins), each possibly undefined, and the
    methods of \<^verbatim>\<open>DataManager\<close>. A method is represented by the code it is bound
    to (\<open>binding\<close>): the engine's, this plugin's, or that of another plugin;
  \<^item> \<open>register_plugin\<close> is lines 31 to 35: both objects are kept if they exist
    and created otherwise, the flag is set and the namespace
    \<^verbatim>\<open>McKathlin.SaveSync\<close> is replaced by an empty object;
  \<^item> \<open>install_methods\<close> is the function expression that is called at once at
    lines 89 to 206: it binds \<^verbatim>\<open>DataManager.loadGlobalInfo\<close> and
    \<^verbatim>\<open>DataManager.updateGlobalInfo\<close> and then the five helpers in the namespace,
    which is a \<open>TypeError\<close> if the namespace does not exist;
  \<^item> \<open>load_plugin\<close> is the file as a whole.

  \<open>other_plugin\<close> is a plugin that follows the same conventions under another
  name, and \<open>independent\<close> says that it does not touch what this plugin
  installs. They are the vocabulary for the compatibility note in the help
  text of the plugin, not code of it.
\<close>

section \<open>Definitions\<close>

datatype binding = Engine | SaveSync | Foreign string

type_synonym 'v js_object = "string \<rightharpoonup> 'v"


definition or_empty :: "'v js_object option \<Rightarrow> 'v js_object" where
  "or_empty obj = (case obj of None \<Rightarrow> Map.empty | Some props \<Rightarrow> props)"



definition bind_all :: "string list \<Rightarrow> binding \<Rightarrow> binding js_object \<Rightarrow> binding js_object" where
  "bind_all names b obj = obj ++ map_of (map (\<lambda>n. (n, b)) names)"



subsection \<open>Other plugins\<close>




subsection \<open>Sample data\<close>




section \<open>Binding methods\<close>

lemma bind_all_apply:
  "bind_all names b obj n = (if n \<in> set names then Some b else obj n)"
  by (induction names) (auto simp: bind_all_def map_add_def split: option.splits)


lemma bind_all_idem [simp]: "bind_all ns a (bind_all ns a obj) = bind_all ns a obj"
  by (rule ext) (simp add: bind_all_apply)

lemma or_empty_Some [simp]: "or_empty (Some props) = props"
  by (simp add: or_empty_def)

section \<open>Loading the plugin\<close>




section \<open>Properties of the registration\<close>



end
