(* ===== verification/JS_Double.thy ===== *)
theory JS_Double
  imports Summary_Extractor "HOL-Library.Log_Nat"
begin

text \<open>
  The arithmetic of \<^verbatim>\<open>extractPlaytime\<close> in the numbers JavaScript really has.

  Theory \<open>Summary_Extractor\<close> computes the fields of the playtime with exact
  division. A JavaScript Number is an IEEE 754 binary64 value, and every \<^verbatim>\<open>/\<close>
  rounds its exact result to the nearest such value. This theory repeats the
  computation with that rounding and proves that both agree as long as the
  frame counter is at most \<open>2^53\<close> in magnitude.

  \<^item> \<open>rne\<close> rounds a rational to binary64: the number is scaled by a power
    of two (\<open>ulp_exponent\<close>, at least \<open>-1074\<close> for the subnormal numbers) so that
    its integer part has 53 bits, rounded to the nearest integer with ties to
    even (\<open>round_half_even\<close>) and scaled back. \<open>representable\<close> are the values
    a binary64 number can have; \<open>rne\<close> returns a representable value nearest
    to its argument. The exponent has no upper limit: no quotient of this
    program overflows, because it divides a binary64 number by 60.
  \<^item> \<open>to_double\<close> is the Number a JSON numeral with an integer value denotes,
    \<open>fdiv\<close> the operator \<^verbatim>\<open>/\<close>. \<^verbatim>\<open>Math.floor\<close> and \<^verbatim>\<open>%\<close> are exact on binary64.
  \<^item> \<open>playtime_totalSeconds_fp\<close>, \<open>playtime_hour_fp\<close>, \<open>playtime_min_fp\<close> and
    \<open>extractPlaytime_fp\<close> are lines 184 to 193 of the plugin with these
    operations.
\<close>

section \<open>Definitions\<close>

subsection \<open>Rounding to binary64\<close>

definition floor_log2 :: "rat \<Rightarrow> int" where
  "floor_log2 x =
     (let (p, q) = quotient_of x; k = bitlen p - bitlen q
      in if 2 powi k \<le> x then k else k - 1)"

definition round_half_even :: "rat \<Rightarrow> int" where
  "round_half_even y =
     (let n = \<lfloor>y\<rfloor>; d = y - of_int n
      in if d < 1 / 2 then n else if 1 / 2 < d then n + 1 else if even n then n else n + 1)"

definition ulp_exponent :: "rat \<Rightarrow> int" where
  "ulp_exponent x = max (floor_log2 \<bar>x\<bar> - 52) (- 1074)"

definition rne :: "rat \<Rightarrow> rat" where
  "rne x =
     (if x = 0 then 0
      else of_int (round_half_even (x / 2 powi ulp_exponent x)) * 2 powi ulp_exponent x)"

definition representable :: "rat \<Rightarrow> bool" where
  "representable x \<longleftrightarrow> (\<exists>m j. x = of_int m * 2 powi j \<and> \<bar>m\<bar> < 2 ^ 53 \<and> - 1074 \<le> j)"

definition to_double :: "int \<Rightarrow> rat" where
  "to_double n = rne (of_int n)"

definition fdiv :: "rat \<Rightarrow> rat \<Rightarrow> rat" where
  "fdiv x y = rne (x / y)"

subsection \<open>The playtime in binary64\<close>

definition playtime_totalSeconds_fp :: "jsnum \<Rightarrow> jsnum" where
  "playtime_totalSeconds_fp frames = jsnum_map (\<lambda>f. \<lfloor>fdiv (to_double f) 60\<rfloor>) frames"

definition playtime_hour_fp :: "jsnum \<Rightarrow> jsnum" where
  "playtime_hour_fp totalSeconds =
     jsnum_map (\<lambda>t. \<lfloor>fdiv (fdiv (of_int t) 60) 60\<rfloor>) totalSeconds"

definition playtime_min_fp :: "jsnum \<Rightarrow> jsnum" where
  "playtime_min_fp totalSeconds = jsnum_map (\<lambda>t. \<lfloor>fdiv (of_int t) 60\<rfloor> smod 60) totalSeconds"

definition extractPlaytime_fp :: "save_contents \<Rightarrow> error + string" where
  "extractPlaytime_fp saveContents =
     (case system saveContents of
        None \<Rightarrow> Inl TypeError
      | Some sys \<Rightarrow>
          (let frames = to_number (framesOnSave sys);
               totalSeconds = playtime_totalSeconds_fp frames;
               hour = playtime_hour_fp totalSeconds;
               min = playtime_min_fp totalSeconds;
               sec = playtime_sec totalSeconds
           in Inr (padZero hour 2 @ '':'' @ padZero min 2 @ '':'' @ padZero sec 2)))"

definition safe_frames :: "save_contents \<Rightarrow> bool" where
  "safe_frames saveContents =
     (case system saveContents of
        None \<Rightarrow> True
      | Some sys \<Rightarrow> (case framesOnSave sys of None \<Rightarrow> True | Some f \<Rightarrow> \<bar>f\<bar> \<le> 2 ^ 53))"

subsection \<open>Sample payload\<close>

text \<open>
  \<open>aged_save\<close> has the largest frame count below \<open>2^53\<close>. The first frame
  count above it at which the rounding of the numeral itself changes the
  seconds is \<open>2^53 + 27\<close>: it is odd, lies halfway between two binary64
  numbers and is read as \<open>2^53 + 28\<close>, a multiple of 60.
\<close>

definition aged_save :: save_contents where
  "aged_save = sample_save\<lparr>system := Some \<lparr>framesOnSave = Some (2 ^ 53 - 1)\<rparr>\<rparr>"

section \<open>The binade of a rational\<close>

lemma bitlen_powi:
  assumes "0 < p"
  shows "2 powi (bitlen p - 1) \<le> (of_int p :: rat)" "(of_int p :: rat) < 2 powi bitlen p"
proof -
  from assms have pos: "0 < bitlen p"
    using bitlen_nonneg [of p] bitlen_eq_zero_iff [of p] by simp
  from bitlen_bounds [OF assms] have "2 ^ nat (bitlen p - 1) \<le> p" "p < 2 ^ nat (bitlen p)"
    by simp_all
  then have "(of_int (2 ^ nat (bitlen p - 1)) :: rat) \<le> of_int p"
    "(of_int p :: rat) < of_int (2 ^ nat (bitlen p))"
    by (simp_all only: of_int_le_iff of_int_less_iff)
  with pos show "2 powi (bitlen p - 1) \<le> (of_int p :: rat)" "(of_int p :: rat) < 2 powi bitlen p"
    by (simp_all add: power_int_def)
qed

lemma floor_log2_bounds:
  assumes "0 < x"
  shows "2 powi floor_log2 x \<le> x" "x < 2 powi (floor_log2 x + 1)"
proof -
  obtain p q where pq: "quotient_of x = (p, q)"
    by (cases "quotient_of x")
  then have q: "0 < q" and x: "x = of_int p / of_int q"
    using quotient_of_denom_pos quotient_of_div by blast+
  with assms have p: "0 < p"
    by (simp add: zero_less_divide_iff)
  define k where "k = bitlen p - bitlen q"
  have "x < 2 powi bitlen p / 2 powi (bitlen q - 1)"
    unfolding x using bitlen_powi [OF p] bitlen_powi [OF q] q p
    by (intro frac_less) (auto simp: less_imp_le)
  then have upper: "x < 2 powi (k + 1)"
    by (simp add: k_def power_int_diff [symmetric] algebra_simps)
  have "2 powi (bitlen p - 1) / 2 powi bitlen q \<le> x"
    unfolding x using bitlen_powi [OF p] bitlen_powi [OF q] q p
    by (intro frac_le) (auto simp: less_imp_le)
  then have lower: "2 powi (k - 1) \<le> x"
    by (simp add: k_def power_int_diff [symmetric] algebra_simps)
  have fl: "floor_log2 x = (if 2 powi k \<le> x then k else k - 1)"
    by (simp add: floor_log2_def pq k_def Let_def)
  from upper lower show "2 powi floor_log2 x \<le> x" "x < 2 powi (floor_log2 x + 1)"
    by (auto simp: fl)
qed

lemma floor_log2_less: "0 < x \<Longrightarrow> x < 2 powi k \<Longrightarrow> floor_log2 x < k"
proof (rule ccontr)
  assume x: "0 < x" "x < 2 powi k" and "\<not> floor_log2 x < k"
  then have "2 powi k \<le> (2::rat) powi floor_log2 x"
    by (intro power_int_increasing) auto
  with floor_log2_bounds(1) [OF x(1)] x(2) show False
    by simp
qed

lemma ulp_exponent_le:
  "x \<noteq> 0 \<Longrightarrow> \<bar>x\<bar> < 2 powi k \<Longrightarrow> - 1021 \<le> k \<Longrightarrow> ulp_exponent x \<le> k - 53"
  using floor_log2_less [of "\<bar>x\<bar>" k] by (simp add: ulp_exponent_def)

section \<open>Rounding\<close>

lemma round_half_even_error: "\<bar>of_int (round_half_even y) - y\<bar> \<le> 1 / 2"
  using floor_correct [of y] unfolding round_half_even_def Let_def by (auto simp: abs_le_iff)

lemma round_half_even_of_int [simp]: "round_half_even (of_int n) = n"
  by (simp add: round_half_even_def)

lemma round_half_even_nearest: "\<bar>of_int (round_half_even y) - y\<bar> \<le> \<bar>of_int N - y\<bar>"
proof (cases "N = round_half_even y")
  case False
  then have "1 \<le> \<bar>N - round_half_even y\<bar>"
    by simp
  then have "(1::rat) \<le> \<bar>of_int N - of_int (round_half_even y)\<bar>"
    by (simp only: flip: of_int_diff of_int_abs)
  with round_half_even_error [of y] show ?thesis
    by linarith
qed simp

text \<open>The error of \<open>rne\<close> is the error of the rounded mantissa, scaled back.\<close>

lemma rne_abs_diff:
  assumes "x \<noteq> 0"
  shows "\<bar>rne x - x\<bar> =
    \<bar>of_int (round_half_even (x / 2 powi ulp_exponent x)) - x / 2 powi ulp_exponent x\<bar> *
      2 powi ulp_exponent x"
proof -
  define e where "e = ulp_exponent x"
  define y where "y = x / 2 powi e"
  have pos: "(0::rat) < 2 powi e"
    by (simp add: zero_less_power_int)
  then have x: "x = y * 2 powi e"
    by (simp add: y_def)
  from assms have "rne x - x = (of_int (round_half_even y) - y) * 2 powi e"
    unfolding rne_def e_def [symmetric] y_def [symmetric] by (simp add: x algebra_simps)
  then show ?thesis
    using pos by (simp add: abs_mult e_def y_def)
qed

text \<open>It is at most half a unit in the last place.\<close>

lemma rne_error:
  assumes "\<bar>x\<bar> < 2 powi k" and "- 1021 \<le> k"
  shows "\<bar>rne x - x\<bar> \<le> 2 powi (k - 54)"
proof (cases "x = 0")
  case True
  then show ?thesis
    by (simp add: rne_def)
next
  case False
  define e where "e = ulp_exponent x"
  have "\<bar>rne x - x\<bar> \<le> 1 / 2 * 2 powi e"
    unfolding rne_abs_diff [OF False] e_def
    using round_half_even_error by (intro mult_right_mono) (auto simp: zero_less_power_int)
  also have "\<dots> = 2 powi (e - 1)"
    by (simp add: power_int_diff)
  also have "\<dots> \<le> 2 powi (k - 54)"
    using ulp_exponent_le [OF False assms] by (intro power_int_increasing) (auto simp: e_def)
  finally show ?thesis .
qed

text \<open>No multiple of the unit in the last place is nearer.\<close>

lemma rne_le_multiple: "\<bar>rne x - x\<bar> \<le> \<bar>of_int N * 2 powi ulp_exponent x - x\<bar>"
proof (cases "x = 0")
  case False
  define e where "e = ulp_exponent x"
  define y where "y = x / 2 powi e"
  have pos: "(0::rat) < 2 powi e"
    by (simp add: zero_less_power_int)
  have "\<bar>rne x - x\<bar> \<le> \<bar>of_int N - y\<bar> * 2 powi e"
    unfolding rne_abs_diff [OF False] e_def y_def
    using round_half_even_nearest by (intro mult_right_mono) (auto simp: zero_less_power_int)
  also have "\<dots> = \<bar>(of_int N - y) * 2 powi e\<bar>"
    using pos by (simp add: abs_mult)
  also have "(of_int N - y) * 2 powi e = of_int N * 2 powi e - x"
    by (simp add: y_def algebra_simps)
  finally show ?thesis
    by (simp add: e_def)
qed (simp add: rne_def)

lemma of_int_shift:
  assumes "e \<le> j"
  shows "(of_int m :: rat) * 2 powi j = of_int (m * 2 ^ nat (j - e)) * 2 powi e"
proof -
  from assms have "(of_int (m * 2 ^ nat (j - e)) :: rat) = of_int m * 2 powi (j - e)"
    by (simp add: power_int_def)
  then have "(of_int (m * 2 ^ nat (j - e)) :: rat) * 2 powi e =
      of_int m * (2 powi (j - e) * 2 powi e)"
    by (simp only: mult.assoc)
  also have "\<dots> = of_int m * 2 powi j"
    by (simp add: power_int_add [symmetric])
  finally show ?thesis ..
qed

text \<open>A multiple of the unit in the last place is not changed.\<close>

lemma rne_exact:
  assumes "x = of_int m * 2 powi j" and "ulp_exponent x \<le> j"
  shows "rne x = x"
proof -
  from of_int_shift [OF assms(2), of m]
  have "of_int (m * 2 ^ nat (j - ulp_exponent x)) * 2 powi ulp_exponent x = x"
    by (simp only: assms(1) [symmetric])
  with rne_le_multiple [of x "m * 2 ^ nat (j - ulp_exponent x)"] show ?thesis
    by simp
qed

text \<open>A mantissa of exactly \<open>2^53\<close> is written with the next exponent.\<close>

lemma halve_top:
  fixes M :: int
  assumes "\<bar>M\<bar> = 2 ^ 53"
  shows "(of_int M :: rat) = of_int (M div 2) * 2" and "\<bar>M div 2\<bar> < 2 ^ 53"
proof -
  from assms have "even \<bar>M\<bar>"
    by simp
  then have "even M"
    by simp
  then show "(of_int M :: rat) = of_int (M div 2) * 2"
    by (auto elim!: evenE)
  from assms show "\<bar>M div 2\<bar> < 2 ^ 53"
    by (cases "0 \<le> M") simp_all
qed

lemma rne_of_int:
  assumes "\<bar>n\<bar> \<le> 2 ^ 53"
  shows "rne (of_int n) = of_int n"
proof (cases "\<bar>n\<bar> = 2 ^ 53")
  case True
  then have "(of_int \<bar>n\<bar> :: rat) = 2 ^ 53"
    by (simp only: of_int_power of_int_numeral)
  then have "\<bar>of_int n :: rat\<bar> < 2 powi 54"
    by simp
  then have e: "ulp_exponent (of_int n :: rat) \<le> 1"
    using ulp_exponent_le [of "of_int n :: rat" 54] True by auto
  from halve_top(1) [OF True] have "(of_int n :: rat) = of_int (n div 2) * 2 powi 1"
    by simp
  from rne_exact [OF this] e show ?thesis
    by simp
next
  case False
  with assms have "\<bar>n\<bar> < 2 ^ 53"
    by simp
  then have "(of_int \<bar>n\<bar> :: rat) < of_int (2 ^ 53)"
    by (simp only: of_int_less_iff)
  then have "\<bar>of_int n :: rat\<bar> < 2 powi 53"
    by simp
  then have "n \<noteq> 0 \<Longrightarrow> ulp_exponent (of_int n :: rat) \<le> 0"
    using ulp_exponent_le [of "of_int n :: rat" 53] by auto
  then show ?thesis
    using rne_exact [of "of_int n" n 0] by (cases "n = 0") (simp_all add: rne_def)
qed

section \<open>Round to nearest\<close>

lemma scaled_abs_less:
  assumes "x \<noteq> 0"
  shows "\<bar>x / 2 powi ulp_exponent x\<bar> < 2 ^ 53"
proof -
  define e where "e = ulp_exponent x"
  have e: "floor_log2 \<bar>x\<bar> + 1 - e \<le> 53"
    by (simp add: e_def ulp_exponent_def)
  from assms have "\<bar>x\<bar> < 2 powi (floor_log2 \<bar>x\<bar> + 1)"
    by (intro floor_log2_bounds) simp
  then have "\<bar>x\<bar> / 2 powi e < 2 powi (floor_log2 \<bar>x\<bar> + 1) / 2 powi e"
    by (intro divide_strict_right_mono) (simp_all add: zero_less_power_int)
  also have "\<dots> = 2 powi (floor_log2 \<bar>x\<bar> + 1 - e)"
    by (simp add: power_int_diff)
  also from e have "\<dots> \<le> 2 powi 53"
    by (intro power_int_increasing) simp_all
  finally show ?thesis
    by (simp add: e_def)
qed

text \<open>The result is a binary64 value: a mantissa of 53 bits, or the next power of two.\<close>

lemma rne_representable: "representable (rne x)"
proof (cases "x = 0")
  case True
  then have "rne x = of_int 0 * 2 powi 0"
    by (simp add: rne_def)
  then show ?thesis
    unfolding representable_def by (intro exI [of _ 0]) simp
next
  case False
  define e where "e = ulp_exponent x"
  define M where "M = round_half_even (x / 2 powi e)"
  have e: "- 1074 \<le> e"
    by (simp add: e_def ulp_exponent_def)
  from scaled_abs_less [OF False] round_half_even_error [of "x / 2 powi e"]
  have "\<bar>of_int M :: rat\<bar> < 2 ^ 53 + 1"
    unfolding M_def e_def by linarith
  then have "(of_int \<bar>M\<bar> :: rat) < of_int (2 ^ 53 + 1)"
    by simp
  then have M: "\<bar>M\<bar> \<le> 2 ^ 53"
    by (simp only: of_int_less_iff)
  from False have r: "rne x = of_int M * 2 powi e"
    by (simp add: rne_def M_def e_def)
  show ?thesis
  proof (cases "\<bar>M\<bar> = 2 ^ 53")
    case True
    from halve_top(1) [OF True] have "rne x = of_int (M div 2) * 2 powi (e + 1)"
      by (simp add: r power_int_add)
    with halve_top(2) [OF True] e show ?thesis
      unfolding representable_def by (intro exI [of _ "M div 2"] exI [of _ "e + 1"]) simp
  next
    case False
    with M r e show ?thesis
      unfolding representable_def by (intro exI [of _ M] exI [of _ e]) simp
  qed
qed

text \<open>No binary64 value is nearer to the argument than the result.\<close>

lemma rne_nearest:
  assumes "representable z"
  shows "\<bar>rne x - x\<bar> \<le> \<bar>z - x\<bar>"
proof (cases "x = 0")
  case False
  define e where "e = ulp_exponent x"
  from assms obtain m j where z: "z = of_int m * 2 powi j" and m: "\<bar>m\<bar> < 2 ^ 53"
    and j: "- 1074 \<le> j"
    unfolding representable_def by blast
  show ?thesis
  proof (cases "e \<le> j")
    case True
    then have "z = of_int (m * 2 ^ nat (j - e)) * 2 powi e"
      unfolding z by (rule of_int_shift)
    with rne_le_multiple [of x "m * 2 ^ nat (j - e)"] show ?thesis
      by (simp add: e_def)
  next
    case below: False
    define l where "l = floor_log2 \<bar>x\<bar>"
    from below j have e: "e = l - 52"
      by (simp add: e_def l_def ulp_exponent_def max_def split: if_splits)
    from False have x: "2 powi l \<le> \<bar>x\<bar>"
      unfolding l_def by (intro floor_log2_bounds) simp
    from m have "(of_int \<bar>m\<bar> :: rat) < of_int (2 ^ 53)"
      by (simp only: of_int_less_iff)
    then have "\<bar>z\<bar> \<le> 2 powi 53 * 2 powi j"
      by (simp add: z abs_mult zero_less_power_int less_imp_le)
    also have "\<dots> = 2 powi (53 + j)"
      by (simp add: power_int_add)
    also from below have "\<dots> \<le> 2 powi l"
      by (intro power_int_increasing) (simp_all add: e)
    finally have zl: "\<bar>z\<bar> \<le> 2 powi l" .
    define s :: int where "s = (if 0 \<le> x then 2 ^ 52 else - (2 ^ 52))"
    have "(of_int s :: rat) * 2 powi e = (if 0 \<le> x then 2 powi l else - (2 powi l))"
      by (simp add: s_def e power_int_diff)
    with x zl have "\<bar>of_int s * 2 powi e - x\<bar> \<le> \<bar>z - x\<bar>"
      by (auto split: if_splits)
    with rne_le_multiple [of x s] show ?thesis
      by (simp add: e_def)
  qed
qed (simp add: rne_def)

lemma rne_representable_id: "representable x \<Longrightarrow> rne x = x"
  using rne_nearest [of x x] by simp

section \<open>Floors of rounded quotients\<close>

text \<open>
  A number within less than \<open>1/c\<close> of a fraction \<open>n/c\<close> that is not an integer
  has the floor of that fraction.
\<close>

lemma floor_near:
  fixes y :: rat
  assumes c: "0 < c" and nd: "\<not> c dvd n" and near: "\<bar>y - of_int n / of_int c\<bar> < 1 / of_int c"
  shows "\<lfloor>y\<rfloor> = n div c"
proof (rule floor_unique)
  define r where "r = n mod c"
  from nd have "n mod c \<noteq> 0"
    by (simp add: dvd_eq_mod_eq_0)
  moreover from c have "0 \<le> n mod c" "n mod c < c"
    by simp_all
  ultimately have r: "1 \<le> r" "r \<le> c - 1"
    unfolding r_def by linarith+
  have n: "n = c * (n div c) + r"
    by (simp add: r_def)
  have "(of_int n :: rat) / of_int c = of_int (n div c) + of_int r / of_int c"
    using c by (subst n) (simp add: field_simps)
  moreover from r c have "1 / of_int c \<le> (of_int r :: rat) / of_int c"
    "(of_int r :: rat) / of_int c \<le> 1 - 1 / of_int c"
    by (simp_all add: field_simps)
  ultimately show "of_int (n div c) \<le> y" "y < of_int (n div c) + 1"
    using near by (simp_all add: abs_less_iff)
qed

lemma abs_div_60_less:
  assumes "\<bar>n\<bar> \<le> 2 ^ k"
  shows "\<bar>of_int n / 60 :: rat\<bar> < 2 powi (int k - 5)"
proof -
  from assms have "(of_int \<bar>n\<bar> :: rat) \<le> of_int (2 ^ k)"
    by (simp only: of_int_le_iff)
  then have "\<bar>of_int n :: rat\<bar> \<le> 2 powi int k"
    by simp
  then have "\<bar>of_int n / 60 :: rat\<bar> \<le> 2 powi int k / 60"
    by simp
  also have "\<dots> < 2 powi int k / 2 powi 5"
    by (intro divide_strict_left_mono) (simp_all add: zero_less_power_int)
  finally show ?thesis
    by (simp add: power_int_diff)
qed

lemma floor_rne_div_60:
  assumes "\<bar>n\<bar> \<le> 2 ^ 53"
  shows "\<lfloor>rne (of_int n / 60)\<rfloor> = n div 60"
proof (cases "60 dvd n")
  case True
  then obtain q where q: "n = 60 * q" ..
  with assms have "\<bar>q\<bar> \<le> 2 ^ 53"
    by simp
  from rne_of_int [OF this] show ?thesis
    by (simp add: q)
next
  case False
  from abs_div_60_less [OF assms] have "\<bar>rne (of_int n / 60) - of_int n / 60\<bar> \<le> 2 powi (- 6)"
    using rne_error [of "of_int n / 60" 48] by simp
  also have "\<dots> < (1 :: rat) / of_int 60"
    by (simp add: power_int_def power_divide)
  finally show ?thesis
    using floor_near [OF _ False, of "rne (of_int n / 60)"] by simp
qed

text \<open>The hour is rounded twice; both errors together stay below \<open>1/3600\<close>.\<close>

lemma floor_rne_div_3600:
  assumes "\<bar>t\<bar> \<le> 2 ^ 48"
  shows "\<lfloor>rne (rne (of_int t / 60) / 60)\<rfloor> = t div 3600"
proof (cases "3600 dvd t")
  case True
  then obtain q where q: "t = 3600 * q" ..
  with assms have b: "\<bar>60 * q\<bar> \<le> 2 ^ 53" "\<bar>q\<bar> \<le> 2 ^ 53"
    by simp_all
  from rne_of_int [OF b(1)] rne_of_int [OF b(2)] show ?thesis
    by (simp add: q)
next
  case False
  define x :: rat where "x = of_int t / 60"
  from abs_div_60_less [OF assms] have x: "\<bar>x\<bar> < 2 powi 43"
    by (simp add: x_def)
  from rne_error [OF this] have e1: "\<bar>rne x - x\<bar> \<le> 2 powi (- 11)"
    by simp
  with x have "\<bar>rne x\<bar> < 2 powi 43 + 2 powi (- 11)"
    by linarith
  then have "\<bar>rne x / 60\<bar> < 2 powi 38"
    by (simp add: power_int_def power_divide)
  from rne_error [OF this] have e2: "\<bar>rne (rne x / 60) - rne x / 60\<bar> \<le> 2 powi (- 16)"
    by simp
  have "rne (rne x / 60) - of_int t / of_int 3600 =
      (rne (rne x / 60) - rne x / 60) + (rne x - x) / 60"
    by (simp add: x_def field_simps)
  then have "\<bar>rne (rne x / 60) - of_int t / of_int 3600\<bar> \<le>
      \<bar>rne (rne x / 60) - rne x / 60\<bar> + \<bar>rne x - x\<bar> / 60"
    using abs_triangle_ineq [of "rne (rne x / 60) - rne x / 60" "(rne x - x) / 60"] by simp
  also from e1 e2 have "\<dots> \<le> 2 powi (- 16) + 2 powi (- 11) / 60"
    by (intro add_mono divide_right_mono) simp_all
  also have "\<dots> < (1 :: rat) / of_int 3600"
    by (simp add: power_int_def power_divide)
  finally show ?thesis
    using floor_near [OF _ False, of "rne (rne x / 60)"] by (simp add: x_def)
qed

section \<open>The fields of the playtime\<close>

lemma seconds_bound: "\<bar>f\<bar> \<le> 2 ^ 53 \<Longrightarrow> \<bar>f div 60\<bar> \<le> 2 ^ 48" for f :: int
  by (simp add: abs_le_iff) linarith

lemma playtime_fp_NaN [simp]:
  "playtime_totalSeconds_fp JNaN = JNaN" "playtime_hour_fp JNaN = JNaN"
  "playtime_min_fp JNaN = JNaN"
  by (simp_all add: playtime_totalSeconds_fp_def playtime_hour_fp_def playtime_min_fp_def)

lemma playtime_fp_exact:
  assumes "\<bar>f\<bar> \<le> 2 ^ 53"
  shows "playtime_totalSeconds_fp (JInt f) = playtime_totalSeconds (JInt f)"
    and "playtime_hour_fp (JInt (f div 60)) = playtime_hour (JInt (f div 60))"
    and "playtime_min_fp (JInt (f div 60)) = playtime_min (JInt (f div 60))"
proof -
  note t = seconds_bound [OF assms]
  then have t': "\<bar>f div 60\<bar> \<le> 2 ^ 53"
    by simp
  show "playtime_totalSeconds_fp (JInt f) = playtime_totalSeconds (JInt f)"
    by (simp add: playtime_totalSeconds_fp_def fdiv_def to_double_def rne_of_int [OF assms]
        floor_rne_div_60 [OF assms])
  show "playtime_hour_fp (JInt (f div 60)) = playtime_hour (JInt (f div 60))"
    by (simp add: playtime_hour_fp_def fdiv_def floor_rne_div_3600 [OF t])
  show "playtime_min_fp (JInt (f div 60)) = playtime_min (JInt (f div 60))"
    by (simp add: playtime_min_fp_def fdiv_def floor_rne_div_60 [OF t'])
qed

section \<open>Properties\<close>

text \<open>
  \<^bold>\<open>C19\<close> Exact arithmetic is valid up to \<open>2^53\<close> frames. If the frame counter of a
  payload is absent or at most \<open>2^53\<close> in magnitude, \<^verbatim>\<open>extractPlaytime\<close> computed
  with binary64 division (every quotient rounded to nearest, ties to even, the
  hour rounded twice) returns what the computation with exact division
  returns, errors and \<^verbatim>\<open>NaN:NaN:NaN\<close> included. The bound is the largest power of
  two for which this holds: at \<open>2^53 + 27\<close> frames the two differ by a second.
\<close>

theorem extractPlaytime_double_exact:
  assumes "safe_frames sc"
  shows "extractPlaytime_fp sc = extractPlaytime sc"
  using assms
  by (auto simp: extractPlaytime_fp_def extractPlaytime_def safe_frames_def playtime_fp_exact
      split: option.splits)

theorem extractPlaytime_double_exact_witness:
  "safe_frames aged_save \<and> extractPlaytime_fp aged_save = extractPlaytime aged_save \<and>
   playtime_totalSeconds_fp (JInt (2 ^ 53 - 1)) = JInt 150119987579016 \<and>
   playtime_hour_fp (JInt 150119987579016) = JInt 41699996549 \<and>
   playtime_totalSeconds_fp (JInt (2 ^ 53 + 27)) = JInt 150119987579017 \<and>
   playtime_totalSeconds (JInt (2 ^ 53 + 27)) = JInt 150119987579016"
proof -
  have safe: "safe_frames aged_save"
    by (simp add: safe_frames_def aged_save_def)
  have computed: "playtime_totalSeconds_fp (JInt (2 ^ 53 - 1)) = JInt 150119987579016"
    "playtime_hour_fp (JInt 150119987579016) = JInt 41699996549"
    "playtime_totalSeconds_fp (JInt (2 ^ 53 + 27)) = JInt 150119987579017"
    "playtime_totalSeconds (JInt (2 ^ 53 + 27)) = JInt 150119987579016"
    by code_simp+
  from extractPlaytime_double_exact [OF safe] safe computed show ?thesis
    by simp
qed

end
