(* ===== verification/Index_Cells.thy ===== *)
theory Index_Cells
  imports Index_Reconciler
begin

text \<open>
  The index as the array JavaScript really has, and why the other theories may
  forget the difference between a hole and \<^verbatim>\<open>null\<close>.

  A cell of the global info is a hole (never written, or deleted), \<^verbatim>\<open>null\<close> or an
  object. The plugin writes holes (\<^verbatim>\<open>delete\<close>, line 133, and the gap a write
  past the end leaves, line 127); the storage writes JSON, which has no holes,
  so an index that was saved and loaded again has \<^verbatim>\<open>null\<close> where the array in
  memory had a hole. The loop tests a cell with \<^verbatim>\<open>!globalInfo[i]\<close>, which is true
  for a hole, for \<^verbatim>\<open>null\<close> and past the end alike.

  \<^item> \<open>cell\<close>, \<open>cell_get\<close> (a hole and a read past the end give \<^verbatim>\<open>undefined\<close>,
    written \<open>Hole\<close>), \<open>falsy\<close>, \<open>cell_set\<close> and \<open>cell_delete\<close> are the array
    operations of lines 126 to 133 on such cells;
  \<^item> \<open>updateGlobalInfo_slot_cells\<close>, \<open>updateGlobalInfo_loop_cells\<close> and
    \<open>updateGlobalInfo_cells\<close> are the loop body, the loop and the method of
    lines 121 to 139 on them;
  \<^item> \<open>json_roundtrip\<close> is what \<^verbatim>\<open>JSON.parse(JSON.stringify(a))\<close> makes of an
    array of plain objects, \<^verbatim>\<open>null\<close> and holes: the persisted form;
  \<^item> \<open>abs_cells\<close> maps an array of cells to the \<open>js_array\<close> of the other
    theories, with \<open>None\<close> for a hole and for \<^verbatim>\<open>null\<close>.

  The lemmas show that the pass on cells is the pass of theory
  \<open>Index_Reconciler\<close> under this abstraction, and that a pass on the persisted
  form of a repaired index changes nothing.
\<close>

section \<open>Definitions\<close>

datatype 'e cell = Hole | Null | Obj 'e

primrec falsy :: "'e cell \<Rightarrow> bool" where
  "falsy Hole = True"
| "falsy Null = True"
| "falsy (Obj e) = False"

definition cell_get :: "'e cell list \<Rightarrow> nat \<Rightarrow> 'e cell" where
  "cell_get xs i = (if i < length xs then xs ! i else Hole)"

definition cell_set :: "'e cell list \<Rightarrow> nat \<Rightarrow> 'e \<Rightarrow> 'e cell list" where
  "cell_set xs i v =
     (if i < length xs then xs[i := Obj v]
      else xs @ replicate (i - length xs) Hole @ [Obj v])"

definition cell_delete :: "'e cell list \<Rightarrow> nat \<Rightarrow> 'e cell list" where
  "cell_delete xs i = (if i < length xs then xs[i := Hole] else xs)"

definition updateGlobalInfo_slot_cells ::
  "('r, 'e) synthesiser \<Rightarrow> (nat \<Rightarrow> bool) \<Rightarrow> nat \<Rightarrow> 'e cell list \<Rightarrow> 'r \<Rightarrow> bool
     \<Rightarrow> 'e cell list \<times> 'r \<times> (error + bool)" where
  "updateGlobalInfo_slot_cells mk savefileExists i globalInfo r infoUpdated =
     (if savefileExists i then
        (if falsy (cell_get globalInfo i) then
           (case mk i r of
              (r', Inl err) \<Rightarrow> (globalInfo, r', Inl err)
            | (r', Inr info) \<Rightarrow> (cell_set globalInfo i info, r', Inr True))
         else (globalInfo, r, Inr infoUpdated))
      else
        (if \<not> falsy (cell_get globalInfo i) then (cell_delete globalInfo i, r, Inr True)
         else (globalInfo, r, Inr infoUpdated)))"

function updateGlobalInfo_loop_cells ::
  "('r, 'e) synthesiser \<Rightarrow> (nat \<Rightarrow> bool) \<Rightarrow> int \<Rightarrow> nat \<Rightarrow> 'e cell list \<Rightarrow> 'r \<Rightarrow> bool
     \<Rightarrow> 'e cell list \<times> 'r \<times> (error + bool)" where
  "updateGlobalInfo_loop_cells mk savefileExists maxSavefiles i globalInfo r infoUpdated =
     (if int i \<le> maxSavefiles then
        (case updateGlobalInfo_slot_cells mk savefileExists i globalInfo r infoUpdated of
           (g', r', Inl err) \<Rightarrow> (g', r', Inl err)
         | (g', r', Inr u') \<Rightarrow>
             updateGlobalInfo_loop_cells mk savefileExists maxSavefiles (Suc i) g' r' u')
      else (globalInfo, r, Inr infoUpdated))"
  by pat_completeness auto
termination
  by (relation "measure (\<lambda>(mk, ex, mx, i, g, r, u). nat (mx + 1 - int i))") auto

definition updateGlobalInfo_cells ::
  "('r, 'e) synthesiser \<Rightarrow> (nat \<Rightarrow> bool) \<Rightarrow> int \<Rightarrow> 'e cell list \<Rightarrow> 'r
     \<Rightarrow> 'e cell list \<times> 'r \<times> (error + bool)" where
  "updateGlobalInfo_cells mk savefileExists maxSavefiles globalInfo r =
     updateGlobalInfo_loop_cells mk savefileExists maxSavefiles 0 globalInfo r False"

subsection \<open>The persisted form and the abstraction\<close>

definition json_roundtrip :: "'e cell list \<Rightarrow> 'e cell list" where
  "json_roundtrip xs = map (\<lambda>c. case c of Hole \<Rightarrow> Null | Null \<Rightarrow> Null | Obj e \<Rightarrow> Obj e) xs"

primrec abs_cell :: "'e cell \<Rightarrow> 'e option" where
  "abs_cell Hole = None"
| "abs_cell Null = None"
| "abs_cell (Obj e) = Some e"

definition abs_cells :: "'e cell list \<Rightarrow> 'e js_array" where
  "abs_cells xs = map abs_cell xs"

definition abs_result ::
  "'e cell list \<times> 'r \<times> (error + bool) \<Rightarrow> ('r, 'e) pass_result" where
  "abs_result res = (case res of (g, r, out) \<Rightarrow> (abs_cells g, r, out))"

subsection \<open>Sample array\<close>

text \<open>An array with an entry for slot 0, \<^verbatim>\<open>null\<close> for slot 1 and a hole for slot 2.\<close>

definition mixed_cells :: "nat cell list" where
  "mixed_cells = [Obj 5, Null, Hole]"

section \<open>The operations under the abstraction\<close>

declare updateGlobalInfo_loop_cells.simps [simp del]

lemma falsy_iff: "falsy c \<longleftrightarrow> abs_cell c = None"
  by (cases c) simp_all

lemma abs_cell_get: "abs_cell (cell_get xs i) = js_get (abs_cells xs) i"
  by (simp add: cell_get_def js_get_def abs_cells_def)

lemma abs_cell_set: "abs_cells (cell_set xs i v) = js_set (abs_cells xs) i v"
  by (simp add: cell_set_def js_set_def abs_cells_def map_update)

lemma abs_cell_delete: "abs_cells (cell_delete xs i) = js_delete (abs_cells xs) i"
  by (simp add: cell_delete_def js_delete_def abs_cells_def map_update)

lemma abs_result_simps [simp]: "abs_result (g, r, out) = (abs_cells g, r, out)"
  by (simp add: abs_result_def)

lemma abs_json_roundtrip [simp]: "abs_cells (json_roundtrip c) = abs_cells c"
  by (simp add: abs_cells_def json_roundtrip_def split: cell.splits)

lemma length_json_roundtrip [simp]: "length (json_roundtrip c) = length c"
  by (simp add: json_roundtrip_def)

lemma json_roundtrip_nth:
  "i < length c \<Longrightarrow> json_roundtrip c ! i = (if falsy (c ! i) then Null else c ! i)"
  by (simp add: json_roundtrip_def split: cell.splits)

section \<open>The pass on cells\<close>

lemma slot_cells_refines:
  "abs_result (updateGlobalInfo_slot_cells mk ex i c r u) =
     updateGlobalInfo_slot mk ex i (abs_cells c) r u"
  by (auto simp: updateGlobalInfo_slot_cells_def updateGlobalInfo_slot_def falsy_iff abs_cell_get
      abs_cell_set abs_cell_delete split: prod.splits sum.splits)

lemma loop_cells_refines:
  "abs_result (updateGlobalInfo_loop_cells mk ex mx i c r u) =
     updateGlobalInfo_loop mk ex mx i (abs_cells c) r u"
proof (induction mk ex mx i c r u rule: updateGlobalInfo_loop_cells.induct)
  case (1 mk ex mx i c r u)
  show ?case
  proof (cases "int i \<le> mx")
    case True
    obtain c' r' res where slot: "updateGlobalInfo_slot_cells mk ex i c r u = (c', r', res)"
      by (cases "updateGlobalInfo_slot_cells mk ex i c r u") auto
    with slot_cells_refines [of mk ex i c r u]
    have abs: "updateGlobalInfo_slot mk ex i (abs_cells c) r u = (abs_cells c', r', res)"
      by simp
    from True slot abs "1.IH" show ?thesis
      by (cases res)
         (simp_all add: updateGlobalInfo_loop_cells.simps [of mk ex mx i]
            updateGlobalInfo_loop.simps [of mk ex mx i])
  next
    case False
    then show ?thesis
      by (simp add: updateGlobalInfo_loop_cells.simps [of mk ex mx i]
          updateGlobalInfo_loop.simps [of mk ex mx i])
  qed
qed

lemma cells_refines:
  "abs_result (updateGlobalInfo_cells mk ex mx c r) = reconcile_pass mk ex mx (abs_cells c) r"
  by (simp add: updateGlobalInfo_cells_def reconcile_pass_def loop_cells_refines)

lemma slot_cells_keep:
  "reconciled_at ex (abs_cells c) i \<Longrightarrow> updateGlobalInfo_slot_cells mk ex i c r u = (c, r, Inr u)"
  by (auto simp: updateGlobalInfo_slot_cells_def reconciled_at_def falsy_iff abs_cell_get)

lemma loop_cells_in_sync:
  "in_sync ex mx (abs_cells c) \<Longrightarrow> updateGlobalInfo_loop_cells mk ex mx i c r u = (c, r, Inr u)"
proof (induction mk ex mx i c r u rule: updateGlobalInfo_loop_cells.induct)
  case (1 mk ex mx i c r u)
  then show ?case
    by (cases "int i \<le> mx")
       (simp_all add: updateGlobalInfo_loop_cells.simps [of mk ex mx i] slot_cells_keep in_sync_iff)
qed

lemma cells_resolved_in_sync:
  assumes "updateGlobalInfo_cells mk ex mx c r = (c', r', Inr u)"
  shows "in_sync ex mx (abs_cells c')"
proof -
  from cells_refines [of mk ex mx c r] assms
  have "reconcile_slots mk ex (all_slots mx) (abs_cells c) r False = (abs_cells c', r', Inr u)"
    by (simp add: reconcile_pass_eq_slots)
  then show ?thesis
    by (auto simp: in_sync_def list_all_iff intro: slots_ok_reconciled)
qed

section \<open>Properties\<close>

text \<open>
  \<^bold>\<open>C20\<close> Holes and \<^verbatim>\<open>null\<close> may be identified. The method on an array of cells,
  with its test \<^verbatim>\<open>!globalInfo[i]\<close>, its assignment and its \<^verbatim>\<open>delete\<close>, gives under
  the abstraction what \<open>reconcile_pass\<close> gives on the abstracted array: the
  same entries, the same state of the synthesiser and the same flag or error.
  The same holds when the array is first saved and loaded again.
\<close>

theorem updateGlobalInfo_cells_refines:
  "abs_result (updateGlobalInfo_cells mk ex mx c r) = reconcile_pass mk ex mx (abs_cells c) r \<and>
   abs_result (updateGlobalInfo_cells mk ex mx (json_roundtrip c) r) =
     reconcile_pass mk ex mx (abs_cells c) r"
  by (simp add: cells_refines)

text \<open>
  \<^bold>\<open>C21\<close> The persisted form of a repaired index is stable. When a pass has
  resolved and its array is saved and loaded again, a pass on the loaded array
  returns that array as it is, calls no synthesis and reports no change. The
  loaded array has the length and the entries of the saved one, and \<^verbatim>\<open>null\<close> at
  every id up to \<^verbatim>\<open>maxSavefiles()\<close> within it that has no save file: the
  persisted index does hold placeholders for absent slots.
\<close>

theorem persisted_index_stable:
  assumes "updateGlobalInfo_cells mk ex mx c r = (c', r', Inr u)"
  shows "updateGlobalInfo_cells mk ex mx (json_roundtrip c') r2 = (json_roundtrip c', r2, Inr False) \<and>
         abs_cells (json_roundtrip c') = abs_cells c' \<and>
         length (json_roundtrip c') = length c' \<and>
         (\<forall>i. i < length c' \<and> int i \<le> mx \<and> \<not> ex i \<longrightarrow> json_roundtrip c' ! i = Null)"
proof -
  note sync = cells_resolved_in_sync [OF assms]
  have "json_roundtrip c' ! i = Null" if "i < length c'" "int i \<le> mx" "\<not> ex i" for i
  proof -
    from sync that have "js_get (abs_cells c') i = None"
      by (auto simp: in_sync_iff reconciled_at_def)
    with that(1) have "falsy (c' ! i)"
      by (simp add: falsy_iff js_get_def abs_cells_def)
    with that(1) show ?thesis
      by (simp add: json_roundtrip_nth)
  qed
  with sync show ?thesis
    by (simp add: updateGlobalInfo_cells_def loop_cells_in_sync)
qed

theorem persisted_index_stable_witness:
  "updateGlobalInfo_cells count_synth sample_exists 3 mixed_cells 0 =
     ([Hole, Obj 10, Hole, Obj 31], 2, Inr True) \<and>
   json_roundtrip [Hole, Obj 10, Hole, Obj (31::nat)] = [Null, Obj 10, Null, Obj 31] \<and>
   updateGlobalInfo_cells count_synth sample_exists 3 [Null, Obj 10, Null, Obj 31] 7 =
     ([Null, Obj 10, Null, Obj 31], 7, Inr False)"
proof -
  have run: "updateGlobalInfo_cells count_synth sample_exists 3 mixed_cells 0 =
      ([Hole, Obj 10, Hole, Obj 31], 2, Inr True)"
    and computed: "json_roundtrip [Hole, Obj 10, Hole, Obj (31::nat)] = [Null, Obj 10, Null, Obj 31]"
    by code_simp+
  from persisted_index_stable [OF run, of 7] run computed show ?thesis
    by simp
qed

end
