(* ===== verification/Load_Menu.thy ===== *)
theory Load_Menu
  imports Index_Loader
begin

text \<open>
  The index as the engine's menus read it, and the method the plugin replaces.

  The help text of the plugin (lines 45 to 53) names the problem: the engine
  fills the Load menu from the index, so a save file without an entry cannot be
  reached. The comment above \<^verbatim>\<open>updateGlobalInfo\<close> (lines 118 to 120) says that the
  method supersedes the engine's \<^verbatim>\<open>removeInvalidGlobalInfo\<close>. This theory states
  both as theorems. The definitions of this theory are code of the engine
  (\<^verbatim>\<open>rmmz_managers.js\<close>, \<^verbatim>\<open>rmmz_windows.js\<close>), not of the plugin:

  \<^item> \<open>removeInvalidGlobalInfo\<close> deletes every entry whose save file does not
    exist, at every index of the array; \<open>engine_loadGlobalInfo\<close> is the
    \<^verbatim>\<open>loadGlobalInfo\<close> the plugin replaces: it installs the stored array after
    that removal, and the empty list if the load or the removal fails;
  \<^item> \<open>savefileInfo\<close>, \<open>load_enabled\<close> (whether the Load menu lets the player
    choose a slot), \<open>isAnySavefileExists\<close> (whether the title screen offers
    Continue) and \<open>latestSavefileId\<close> (the slot the cursor of the Load menu
    starts on: the first entry that carries the greatest timestamp of the
    slots from 1 on).
\<close>

section \<open>Definitions\<close>

subsection \<open>The method the plugin replaces\<close>

definition removeInvalidGlobalInfo :: "(nat \<Rightarrow> bool) \<Rightarrow> global_info \<Rightarrow> global_info" where
  "removeInvalidGlobalInfo fileExists entries =
     fold (\<lambda>savefileId g.
             if js_get g savefileId \<noteq> None \<and> \<not> fileExists savefileId
             then js_delete g savefileId else g)
       [0..<length entries] entries"

definition engine_loadGlobalInfo :: "world \<Rightarrow> host \<Rightarrow> host" where
  "engine_loadGlobalInfo w h =
     (case storedGlobal h of
        Inr (Some g) \<Rightarrow> h\<lparr>globalInfo := Some (removeInvalidGlobalInfo (savefileExists w) g)\<rparr>
      | _ \<Rightarrow> h\<lparr>globalInfo := Some []\<rparr>)"

subsection \<open>What the menus read\<close>

definition savefileInfo :: "global_info \<Rightarrow> nat \<Rightarrow> save_info option" where
  "savefileInfo entries savefileId = js_get entries savefileId"

definition load_enabled :: "global_info \<Rightarrow> nat \<Rightarrow> bool" where
  "load_enabled entries savefileId \<longleftrightarrow> savefileInfo entries savefileId \<noteq> None"

definition isAnySavefileExists :: "global_info \<Rightarrow> bool" where
  "isAnySavefileExists entries = list_ex (\<lambda>x. x \<noteq> None) entries"

primrec findIndex :: "('a \<Rightarrow> bool) \<Rightarrow> 'a list \<Rightarrow> nat option" where
  "findIndex P [] = None"
| "findIndex P (x # xs) = (if P x then Some 0 else map_option Suc (findIndex P xs))"

definition latestSavefileId :: "global_info \<Rightarrow> nat" where
  "latestSavefileId entries =
     (let validInfo = filter (\<lambda>x. x \<noteq> None) (tl entries);
          stamps = map (\<lambda>x. timestamp (the x)) validInfo
      in if stamps = [] then 0
         else (let latest = Max (set stamps)
               in case findIndex (\<lambda>x. case x of None \<Rightarrow> False
                                          | Some info \<Rightarrow> timestamp info = latest) entries of
                    None \<Rightarrow> 0
                  | Some index \<Rightarrow> index))"

section \<open>The engine's methods in closed form\<close>

lemma fold_delete_get:
  "js_get (fold (\<lambda>i g. if js_get g i \<noteq> None \<and> \<not> ex i then js_delete g i else g) is g) s =
     (if s \<in> set is \<and> \<not> ex s then None else js_get g s)"
  by (induction "is" arbitrary: g) (auto simp: js_get_js_delete)

lemma js_get_removeInvalidGlobalInfo:
  "js_get (removeInvalidGlobalInfo ex g) s = (if ex s then js_get g s else None)"
proof -
  have "js_get (removeInvalidGlobalInfo ex g) s =
      (if s \<in> set [0..<length g] \<and> \<not> ex s then None else js_get g s)"
    unfolding removeInvalidGlobalInfo_def by (rule fold_delete_get)
  with js_get_beyond [of g s] show ?thesis
    by auto
qed

lemma engine_loadGlobalInfo_installed:
  "globalInfo (engine_loadGlobalInfo w h) =
     Some (removeInvalidGlobalInfo (savefileExists w) (pending_of h))"
  by (simp add: engine_loadGlobalInfo_def pending_of_def removeInvalidGlobalInfo_def
      split: sum.splits option.splits)

lemma load_enabled_iff [simp]: "load_enabled g s \<longleftrightarrow> js_get g s \<noteq> None"
  by (simp add: load_enabled_def savefileInfo_def)

lemma isAnySavefileExists_iff: "isAnySavefileExists g \<longleftrightarrow> (\<exists>s. js_get g s \<noteq> None)"
proof
  assume "isAnySavefileExists g"
  then obtain i where "i < length g" "g ! i \<noteq> None"
    by (auto simp: isAnySavefileExists_def list_ex_iff in_set_conv_nth)
  then have "js_get g i \<noteq> None"
    by (simp add: js_get_def)
  then show "\<exists>s. js_get g s \<noteq> None" ..
next
  assume "\<exists>s. js_get g s \<noteq> None"
  then obtain s where "s < length g" "g ! s \<noteq> None"
    by (auto simp: js_get_def split: if_splits)
  then show "isAnySavefileExists g"
    unfolding isAnySavefileExists_def list_ex_iff by (intro bexI [of _ "g ! s"]) simp_all
qed

lemma findIndex_Some: "findIndex P xs = Some i \<Longrightarrow> i < length xs \<and> P (xs ! i)"
  by (induction xs arbitrary: i) (auto split: if_splits)

lemma findIndex_None_iff: "findIndex P xs = None \<longleftrightarrow> (\<forall>x \<in> set xs. \<not> P x)"
  by (induction xs) auto

lemma in_tl_iff: "Some v \<in> set (tl g) \<longleftrightarrow> (\<exists>i. 1 \<le> i \<and> js_get g i = Some v)"
proof (cases g)
  case (Cons x xs)
  have "Some v \<in> set xs \<longleftrightarrow> (\<exists>j. js_get (x # xs) (Suc j) = Some v)"
    by (auto simp: in_set_conv_nth js_get_def)
  also have "\<dots> \<longleftrightarrow> (\<exists>i. 1 \<le> i \<and> js_get (x # xs) i = Some v)"
    by (metis Suc_le_D One_nat_def Suc_le_mono le0)
  finally show ?thesis
    by (simp add: Cons)
qed simp

lemma stamps_iff:
  "t \<in> set (map (\<lambda>x. timestamp (the x)) (filter (\<lambda>x. x \<noteq> None) xs)) \<longleftrightarrow>
     (\<exists>info. Some info \<in> set xs \<and> timestamp info = t)"
  by (induction xs) auto

text \<open>
  When a slot from 1 on has an entry, the slot the engine takes for the latest
  save has one that is at least as recent.
\<close>

lemma latestSavefileId_latest:
  assumes "1 \<le> r" and "js_get g r = Some ir"
  obtains info where "js_get g (latestSavefileId g) = Some info" "timestamp ir \<le> timestamp info"
proof -
  define stamps where
    "stamps = map (\<lambda>x. timestamp (the x)) (filter (\<lambda>x. x \<noteq> None) (tl g))"
  define latest where "latest = Max (set stamps)"
  have stamps: "t \<in> set stamps \<longleftrightarrow> (\<exists>i info. 1 \<le> i \<and> js_get g i = Some info \<and> timestamp info = t)"
    for t
    unfolding stamps_def stamps_iff in_tl_iff by blast
  from assms have "timestamp ir \<in> set stamps"
    by (auto simp: stamps)
  then have ne: "stamps \<noteq> []" and le: "timestamp ir \<le> latest"
    by (auto simp: latest_def)
  from ne have "latest \<in> set stamps"
    unfolding latest_def by (intro Max_in) simp_all
  then obtain i0 info0 where "js_get g i0 = Some info0" "timestamp info0 = latest"
    by (auto simp: stamps)
  then have "\<exists>x \<in> set g. case x of None \<Rightarrow> False | Some info \<Rightarrow> timestamp info = latest"
    by (intro bexI [of _ "Some info0"]) (auto simp: js_get_def in_set_conv_nth split: if_splits)
  then obtain i where i: "findIndex (\<lambda>x. case x of None \<Rightarrow> False
      | Some info \<Rightarrow> timestamp info = latest) g = Some i"
    using findIndex_None_iff [of _ g] by fastforce
  from findIndex_Some [OF i] obtain info where info: "js_get g i = Some info"
    "timestamp info = latest"
    by (auto simp: js_get_def split: option.splits)
  from ne i have "latestSavefileId g = i"
    unfolding latestSavefileId_def Let_def stamps_def [symmetric] latest_def [symmetric] by simp
  with info le show thesis
    by (intro that [of info]) simp_all
qed

section \<open>A boot whose pass resolves\<close>

lemma boot_resolved:
  assumes "stored_array h" and "loadable w (pending_of h)"
  obtains g h' u where
    "updateGlobalInfo w (pending_of h) (snd (loadStoredGlobal h)) = (g, h', Inr u)"
    "globalInfo (loadGlobalInfo w h) = Some g"
proof (rule loadGlobalInfo_run [OF assms(1), of w])
  fix g h' res
  assume run: "updateGlobalInfo w (pending_of h) (snd (loadStoredGlobal h)) = (g, h', res)"
    and out: "globalInfo (loadGlobalInfo w h) = Some g"
  have "ok (snd (snd (updateGlobalInfo w (pending_of h) (snd (loadStoredGlobal h)))))"
    using assms(2) by (simp only: updateGlobalInfo_resolves_iff)
  then obtain u where "res = Inr u"
    by (cases res) (simp_all add: run)
  with run out show thesis
    by (intro that [of g h' u]) simp_all
qed

section \<open>Properties\<close>

text \<open>
  \<^bold>\<open>C18\<close> What "supersedes \<^verbatim>\<open>removeInvalidGlobalInfo\<close>" amounts to. After a pass that
  resolves, for every id from 0 to \<^verbatim>\<open>maxSavefiles()\<close>: an entry that the engine's
  removal keeps is kept unchanged, and where the removal leaves no entry there
  is one exactly if the save file exists (the restoration). Beyond
  \<^verbatim>\<open>maxSavefiles()\<close> the pass changes nothing, whereas the removal deletes the
  entries without a save file there too: those entries survive the plugin's
  boot.
\<close>

theorem updateGlobalInfo_supersedes:
  assumes "updateGlobalInfo w g h = (g', h', Inr u)"
  shows "(\<forall>s. int s \<le> maxSavefiles w \<longrightarrow>
            (case js_get (removeInvalidGlobalInfo (savefileExists w) g) s of
               Some info \<Rightarrow> js_get g' s = Some info
             | None \<Rightarrow> js_get g' s \<noteq> None \<longleftrightarrow> savefileExists w s)) \<and>
         (\<forall>s. \<not> int s \<le> maxSavefiles w \<longrightarrow>
            js_get g' s = js_get g s \<and>
            js_get (removeInvalidGlobalInfo (savefileExists w) g) s =
              (if savefileExists w s then js_get g s else None))"
proof (intro conjI allI impI)
  fix s
  assume s: "int s \<le> maxSavefiles w"
  from updateGlobalInfo_ok(1) [OF assms] s
  have sync: "js_get g' s \<noteq> None \<longleftrightarrow> savefileExists w s"
    by (simp add: in_sync_iff reconciled_at_def)
  show "case js_get (removeInvalidGlobalInfo (savefileExists w) g) s of
          Some info \<Rightarrow> js_get g' s = Some info
        | None \<Rightarrow> js_get g' s \<noteq> None \<longleftrightarrow> savefileExists w s"
    using sync updateGlobalInfo_kept [OF assms, of s]
    by (auto simp: js_get_removeInvalidGlobalInfo split: option.splits)
next
  fix s
  assume "\<not> int s \<le> maxSavefiles w"
  then show "js_get g' s = js_get g s"
    by (rule updateGlobalInfo_beyond [OF assms])
qed (simp add: js_get_removeInvalidGlobalInfo)

theorem updateGlobalInfo_supersedes_witness:
  "snd (snd (updateGlobalInfo healthy_world overlong_index sample_host)) = Inr True \<and>
   map (\<lambda>e. e \<noteq> None) (fst (updateGlobalInfo healthy_world overlong_index sample_host)) =
     [False, True, False, True, False, True] \<and>
   removeInvalidGlobalInfo (savefileExists healthy_world) overlong_index =
     [None, None, None, None, None, None] \<and>
   js_get (fst (updateGlobalInfo healthy_world overlong_index sample_host)) 5 = Some sample_info \<and>
   js_get (fst (updateGlobalInfo healthy_world overlong_index sample_host)) 1 \<noteq> None"
proof -
  have computed: "snd (snd (updateGlobalInfo healthy_world overlong_index sample_host)) = Inr True"
    "map (\<lambda>e. e \<noteq> None) (fst (updateGlobalInfo healthy_world overlong_index sample_host)) =
       [False, True, False, True, False, True]"
    "removeInvalidGlobalInfo (savefileExists healthy_world) overlong_index =
       [None, None, None, None, None, None]"
    and pre: "\<not> int 5 \<le> maxSavefiles healthy_world" "int 1 \<le> maxSavefiles healthy_world"
      "savefileExists healthy_world 1" "js_get overlong_index 5 = Some sample_info"
    by code_simp+
  then obtain g' h' where
    run: "updateGlobalInfo healthy_world overlong_index sample_host = (g', h', Inr True)"
    by (cases "updateGlobalInfo healthy_world overlong_index sample_host") auto
  note sup = updateGlobalInfo_supersedes [OF run]
  from sup [THEN conjunct2, rule_format, OF pre(1)] pre(4) have "js_get g' 5 = Some sample_info"
    by simp
  moreover from sup [THEN conjunct1, rule_format, OF pre(2)] pre(3) computed(3)
  have "js_get g' 1 \<noteq> None"
    by (simp add: js_get_def)
  ultimately show ?thesis
    using computed by (simp add: run)
qed

text \<open>
  \<^bold>\<open>C17\<close> The plugin does what its help text promises. If the stored index is an
  array (or cannot be loaded) and every save file that needs an entry can be
  read, then after the plugin's boot the Load menu enables a slot from 0 to
  \<^verbatim>\<open>maxSavefiles()\<close> exactly if its save file exists, and the title screen offers
  Continue exactly if a save file exists in that range or the stored index has
  an entry beyond it. After the boot of the engine alone the Load menu enables
  only the existing save files that had an entry, and Continue is offered only
  if there is one.
\<close>

theorem boot_makes_saves_accessible:
  assumes "stored_array h" and "loadable w (pending_of h)"
  shows "\<exists>g e. globalInfo (loadGlobalInfo w h) = Some g \<and>
           globalInfo (engine_loadGlobalInfo w h) = Some e \<and>
           (\<forall>s. int s \<le> maxSavefiles w \<longrightarrow>
              (load_enabled g s \<longleftrightarrow> savefileExists w s) \<and>
              (load_enabled e s \<longleftrightarrow> savefileExists w s \<and> js_get (pending_of h) s \<noteq> None)) \<and>
           (isAnySavefileExists g \<longleftrightarrow>
              (\<exists>s. if int s \<le> maxSavefiles w then savefileExists w s
                   else js_get (pending_of h) s \<noteq> None)) \<and>
           (isAnySavefileExists e \<longleftrightarrow>
              (\<exists>s. savefileExists w s \<and> js_get (pending_of h) s \<noteq> None))"
proof (rule boot_resolved [OF assms])
  fix g h' u
  assume run: "updateGlobalInfo w (pending_of h) (snd (loadStoredGlobal h)) = (g, h', Inr u)"
    and out: "globalInfo (loadGlobalInfo w h) = Some g"
  from updateGlobalInfo_ok(1) [OF run]
  have inside: "js_get g s \<noteq> None \<longleftrightarrow> savefileExists w s" if "int s \<le> maxSavefiles w" for s
    using that by (simp add: in_sync_iff reconciled_at_def)
  note outside = updateGlobalInfo_beyond [OF run]
  have "js_get g s \<noteq> None \<longleftrightarrow>
      (if int s \<le> maxSavefiles w then savefileExists w s else js_get (pending_of h) s \<noteq> None)"
    for s
    using inside [of s] outside [of s] by simp
  then have "isAnySavefileExists g \<longleftrightarrow>
      (\<exists>s. if int s \<le> maxSavefiles w then savefileExists w s
           else js_get (pending_of h) s \<noteq> None)"
    by (simp only: isAnySavefileExists_iff)
  with out inside show ?thesis
    by (auto simp: engine_loadGlobalInfo_installed js_get_removeInvalidGlobalInfo
        isAnySavefileExists_iff)
qed

theorem boot_makes_saves_accessible_witness:
  "stored_array sample_host \<and> loadable healthy_world (pending_of sample_host) \<and>
   (\<exists>g e. globalInfo (loadGlobalInfo healthy_world sample_host) = Some g \<and>
      globalInfo (engine_loadGlobalInfo healthy_world sample_host) = Some e \<and>
      map (load_enabled g) [0, 1, 2, 3] = [False, True, False, True] \<and>
      map (load_enabled e) [0, 1, 2, 3] = [False, False, False, False] \<and>
      isAnySavefileExists g \<and> \<not> isAnySavefileExists e)"
proof -
  have computed: "map (load_enabled (the (globalInfo (loadGlobalInfo healthy_world sample_host))))
      [0, 1, 2, 3] = [False, True, False, True]"
    "map (load_enabled (the (globalInfo (engine_loadGlobalInfo healthy_world sample_host))))
      [0, 1, 2, 3] = [False, False, False, False]"
    "isAnySavefileExists (the (globalInfo (loadGlobalInfo healthy_world sample_host)))"
    "\<not> isAnySavefileExists (the (globalInfo (engine_loadGlobalInfo healthy_world sample_host)))"
    by code_simp+
  from boot_makes_saves_accessible [OF stored_array_sample(1) loadable_healthy]
  obtain g e where "globalInfo (loadGlobalInfo healthy_world sample_host) = Some g"
    "globalInfo (engine_loadGlobalInfo healthy_world sample_host) = Some e"
    by blast
  with computed stored_array_sample(1) loadable_healthy show ?thesis
    by simp
qed

text \<open>
  \<^bold>\<open>C22\<close> The cursor of the Load menu lands on a restored slot. A restored entry is
  stamped with \<^verbatim>\<open>Date.now()\<close> (line 152), and the engine takes the entry with the
  greatest timestamp for the latest save. So if the clock is ahead of every
  stored timestamp and the boot restores the entry of some slot from 1 on, then
  \<^verbatim>\<open>latestSavefileId()\<close> is a slot that was restored in this boot, whichever save
  the player made last.
\<close>

theorem restored_slot_is_latest:
  assumes "stored_array h" and "loadable w (pending_of h)"
    and ahead: "\<forall>s info k. js_get (pending_of h) s = Some info \<longrightarrow> timestamp info < dateNow w k"
    and r: "1 \<le> r" "int r \<le> maxSavefiles w" "savefileExists w r" "js_get (pending_of h) r = None"
  shows "\<exists>g. globalInfo (loadGlobalInfo w h) = Some g \<and>
           int (latestSavefileId g) \<le> maxSavefiles w \<and> savefileExists w (latestSavefileId g) \<and>
           js_get (pending_of h) (latestSavefileId g) = None"
proof (rule boot_resolved [OF assms(1,2)])
  fix g h' u
  assume run: "updateGlobalInfo w (pending_of h) (snd (loadStoredGlobal h)) = (g, h', Inr u)"
    and out: "globalInfo (loadGlobalInfo w h) = Some g"
  note entry = updateGlobalInfo_entry [OF run]
  from updateGlobalInfo_ok(1) [OF run] r obtain ir where ir: "js_get g r = Some ir"
    by (auto simp: in_sync_iff reconciled_at_def)
  from entry [OF ir] r obtain k where k: "timestamp ir = dateNow w k"
    by auto
  from latestSavefileId_latest [OF r(1) ir] obtain info
    where info: "js_get g (latestSavefileId g) = Some info" and le: "timestamp ir \<le> timestamp info" .
  have "js_get (pending_of h) (latestSavefileId g) \<noteq> Some info"
  proof
    assume "js_get (pending_of h) (latestSavefileId g) = Some info"
    with ahead have "timestamp info < dateNow w k"
      by blast
    with k le show False
      by simp
  qed
  with entry [OF info]
  have "js_get (pending_of h) (latestSavefileId g) = None \<and>
      int (latestSavefileId g) \<le> maxSavefiles w \<and> savefileExists w (latestSavefileId g)"
    by blast
  with out show ?thesis
    by auto
qed

theorem restored_slot_is_latest_witness:
  "stored_array partial_host \<and> loadable healthy_world (pending_of partial_host) \<and>
   js_get (pending_of partial_host) 1 = Some sample_info \<and>
   js_get (pending_of partial_host) 3 = None \<and>
   (\<exists>g. globalInfo (loadGlobalInfo healthy_world partial_host) = Some g \<and>
      latestSavefileId g = 3 \<and> latestSavefileId (pending_of partial_host) = 1)"
proof -
  have pre: "stored_array partial_host" "loadable healthy_world (pending_of partial_host)"
    "1 \<le> (3::nat)" "int 3 \<le> maxSavefiles healthy_world" "savefileExists healthy_world 3"
    "js_get (pending_of partial_host) 3 = None"
    and computed: "js_get (pending_of partial_host) 1 = Some sample_info"
      "latestSavefileId (the (globalInfo (loadGlobalInfo healthy_world partial_host))) = 3"
      "latestSavefileId (pending_of partial_host) = 1"
    by code_simp+
  have ahead: "\<forall>s info k. js_get (pending_of partial_host) s = Some info \<longrightarrow>
      timestamp info < dateNow healthy_world k"
    by (auto simp: partial_host_def pending_of_def sample_host_def js_get_def sample_info_def
        healthy_world_def sample_world_def nth_Cons split: if_splits nat.splits)
  from restored_slot_is_latest [OF pre(1,2) ahead pre(3-6)]
  obtain g where "globalInfo (loadGlobalInfo healthy_world partial_host) = Some g"
    by blast
  with pre computed show ?thesis
    by simp
qed

end
