(* ===== verification/Spec2Isabelle.thy ===== *)
theory Spec2Isabelle
  imports Index_Typing Concurrent_Boots Slot_Order Spec_Conformance Plugin_Registration
    JS_Double Index_Cells Load_Menu
begin

text \<open>
  \<^bold>\<open>Save Sync: verification of the save-index repair of \<^verbatim>\<open>src/McKathlin_SaveSync.js\<close>\<close>

  The plugin replaces \<^verbatim>\<open>DataManager.loadGlobalInfo\<close> of the RPG Maker MZ engine.
  The engine keeps an index of save-file summaries (the "global info", a sparse
  array indexed by savefile id) apart from the save files; when save files are
  copied between machines the index no longer matches them. At boot the plugin
  loads the index, walks the ids \<open>0 \<dots> maxSavefiles()\<close>, synthesises an entry
  for every save file that has none, deletes every entry that has no save file,
  installs the result and writes it back if it changed.

  \<^bold>\<open>Parts of the program and the theories that model them\<close>

  \<^item> \<open>SaveSync_Prelude\<close>: the error type (a rejected load, a thrown
    \<^verbatim>\<open>TypeError\<close>), results \<open>error + 'a\<close> with \<open>bindR\<close> and \<open>mapR\<close>, and the
    lemma collections \<open>js_simps\<close>, \<open>model_defs\<close>, \<open>frame_simps\<close>.
  \<^item> \<open>JS_Runtime\<close>: what the plugin uses of JavaScript. Sparse arrays are
    \<open>'a option list\<close> with \<open>js_get\<close> (a read past the end is \<^verbatim>\<open>undefined\<close>),
    \<open>js_set\<close> (a write past the end extends the array with holes), \<open>js_delete\<close>
    (leaves a hole, keeps the length) and \<open>js_slice0\<close>; numbers are integers or
    \<^verbatim>\<open>NaN\<close> (\<open>jsnum\<close>); \<open>String_of\<close>, \<open>padStart\<close> and \<open>padZero\<close> are the engine's
    zero padding, with a decoder \<open>parse_nat\<close> for the round trip.
  \<^item> \<open>Save_Data\<close>: the records. \<open>save_info\<close> is the index entry built at lines
    147-153; \<open>save_contents\<close>, \<open>game_party\<close>, \<open>game_actor\<close>, \<open>game_system\<close> are
    the parts of a save payload read at lines 173-204, each absent part \<open>None\<close>;
    \<open>world\<close> holds what the pass only reads (\<^verbatim>\<open>maxSavefiles\<close>, \<^verbatim>\<open>savefileExists\<close>,
    \<^verbatim>\<open>makeSavename\<close>, \<^verbatim>\<open>StorageManager.loadObject\<close> on save files, the game title,
    the clock); \<open>host\<close> holds what it changes (the console, the number of clock
    reads, \<^verbatim>\<open>DataManager._globalInfo\<close>, and what loading the object stored as
    \<^verbatim>\<open>"global"\<close> gives: a rejection, an array or \<^verbatim>\<open>null\<close>).
  \<^item> \<open>Summary_Extractor\<close> (lines 173-204): \<open>extractPartyMembers\<close>,
    \<open>extractCharacters\<close>, \<open>extractFaces\<close>, \<open>extractPlaytime\<close>, each returning \<open>Inl
    TypeError\<close> where the JavaScript throws. Its lemmas give the portraits in
    roster order, the equal length of both lists, the condition under which
    they throw, the playtime string against the format \<open>playtime_spec\<close>, its
    round trip through \<open>parse_playtime\<close>, and the \<^verbatim>\<open>NaN:NaN:NaN\<close> case.
  \<^item> \<open>Entry_Synthesis\<close> (lines 143-171): \<open>makeMissingSaveInfo\<close> with
    \<open>default_info\<close> and \<open>try_extract\<close>. Its lemmas show that the entry is
    \<open>expected_info\<close> (partial success kept field by field), that the function is
    rejected exactly when the save file cannot be loaded, and what it logs.
  \<^item> \<open>Index_Reconciler\<close> (lines 121-139): \<open>updateGlobalInfo_slot\<close> (the loop
    body), \<open>updateGlobalInfo_loop\<close> (the \<^verbatim>\<open>for\<close> loop, a \<open>function\<close> with measure
    \<open>maxSavefiles + 1 - i\<close>) and \<open>reconcile_pass\<close>, over any synthesiser. Its
    lemmas show that the loop is the structural pass \<open>reconcile_slots\<close> over the
    ids in ascending order, that a pass that resolves leaves the index in sync,
    that the flag is true exactly when the index was not, idempotence, the
    frame outside the id range, the refinement of \<open>reconcile_map\<close>, where
    and how a rejected pass stops, and for which ids the synthesiser is
    called whatever the outcome (\<open>attempts\<close>).
  \<^item> \<open>Index_Loader\<close> (lines 92-116): the promise chain of \<open>loadGlobalInfo\<close>,
    one definition per callback, \<open>updateGlobalInfo\<close> as the pass with
    \<open>makeMissingSaveInfo\<close>, and \<open>updateGlobalInfo_call\<close> as the same method on an
    array or on \<^verbatim>\<open>null\<close>. Its lemmas show that the boot installs an index
    exactly when the storage did not deliver \<^verbatim>\<open>null\<close>, that the index is in
    sync and saved exactly when changed if all needed save files load, what
    is left when one does not, the rebuild from an unreadable index, and that
    a second boot is a no-op.
  \<^item> \<open>Async_Machine\<close> (lines 92-171): the same chain cut at its suspension
    points. \<open>step\<close> runs the code from one point to the next (\<open>phase\<close>: the
    load of the index pending, the head of the loop or the call on \<^verbatim>\<open>null\<close>,
    the \<^verbatim>\<open>await\<close> inside \<^verbatim>\<open>makeMissingSaveInfo\<close>, the end), \<open>run\<close> iterates it
    and \<open>reachable\<close> is the set of states a chain passes through. Its lemmas
    show that every step decreases the measure \<open>remaining\<close> and keeps the
    predicted \<open>outcome\<close>, so that the chain settles within
    \<open>2 * (maxSavefiles + 1) + 2\<close> steps in the state \<open>loadGlobalInfo\<close> describes;
    the steps by cases (\<open>step_elims\<close>); the loop invariant \<open>loop_inv\<close> of the
    chain's local variables and \<open>machine_inv\<close> by rule induction over
    \<open>reachable\<close>; that
    the index stays hidden and unsaved until the chain has settled; that the
    boot scene, which polls \<^verbatim>\<open>isGlobalInfoLoaded()\<close> (\<open>boot_ready\<close>), proceeds
    when the chain has settled and only then; and that after a load of
    \<^verbatim>\<open>null\<close> it never does.
  \<^item> \<open>Index_Typing\<close>: the shapes the code relies on without checking
    (\<open>entry_typed\<close>, \<open>payload_typed\<close>, \<open>host_typed\<close>, \<open>machine_typed\<close>) and their
    preservation by every step of the chain: from typed inputs no
    \<open>TypeError\<close> is ever logged and only typed entries are installed.
  \<^item> \<open>Concurrent_Boots\<close>: two calls of \<open>loadGlobalInfo\<close> whose chains overlap.
    Each chain has its own \<open>phase\<close>; the \<open>host\<close> is shared. \<open>chains_step\<close> lets
    either chain take a \<open>step\<close>, \<open>chains_reachable\<close> are the states reached
    under every order of the callbacks, and \<open>interleave\<close> runs a given order.
    Its lemmas show the invariant \<open>chains_inv\<close> by rule induction (a chain in
    its loop has loaded what is stored now, or the index stored at the start
    if that needs repair), from which the installed and the stored index are
    never out of step with the disk, and that both chains settle under every
    order that gives each its turns.
  \<^item> \<open>Boot_Log\<close>: the console and the clock of a whole boot in closed form
    (\<open>boot_log\<close>, \<open>attempted\<close>), and the timestamps of the restored entries.
  \<^item> \<open>Slot_Order\<close>: the loop body run for the ids in any order
    (\<open>pass_in_order\<close>). Its lemmas give the element of every id after a pass
    (\<open>slots_entry_cases\<close>) and show that the result does not depend on the
    order, except for the timestamps and the order of the console lines.
  \<^item> \<open>Spec_Conformance\<close>: the pass with the synthesis the specification
    describes (\<open>synthesize_spec\<close>, the load inside the \<^verbatim>\<open>try\<close>), and that the
    plugin's pass is that pass exactly when every needed save file loads.
  \<^item> \<open>Plugin_Registration\<close> (lines 31-35 and the function expression of
    lines 89-206): \<open>register_plugin\<close>, \<open>install_methods\<close> and \<open>load_plugin\<close> on the
    global objects \<^verbatim>\<open>Imported\<close>, \<^verbatim>\<open>McKathlin\<close> and \<^verbatim>\<open>DataManager\<close>, and the
    compatibility note of the help text as a theorem.
  \<^item> \<open>JS_Double\<close> (lines 184-193 again): the arithmetic of \<open>extractPlaytime\<close> as
    JavaScript does it. A finite Number is a rational; \<open>rne\<close> rounds a real to
    the nearest binary64 value, ties to even (\<open>floor_log2\<close>, \<open>ulp_exponent\<close>,
    \<open>round_half_even\<close>), \<open>fdiv\<close> is the operator \<^verbatim>\<open>/\<close>, and
    \<open>playtime_totalSeconds_fp\<close>, \<open>playtime_hour_fp\<close>, \<open>playtime_min_fp\<close> and
    \<open>extractPlaytime_fp\<close> are the lines of the method with every quotient
    rounded. Its lemmas give the error of \<open>rne\<close> (half a unit in the last
    place), that it returns a representable number and the nearest one, that
    integers up to \<open>2^53\<close> are exact, and from these that the floor of a rounded
    quotient by 60, also of the quotient rounded twice for the hour, is the
    integer quotient.
  \<^item> \<open>Index_Cells\<close> (lines 121-139 again): the pass on an array as JavaScript
    has it, where a cell is a hole, \<^verbatim>\<open>null\<close> or an object (\<open>cell\<close>) and the
    conditions of the loop test whether the cell is falsy. \<open>json_roundtrip\<close> is
    what writing the array with \<^verbatim>\<open>saveGlobalInfo\<close> and loading it again does to
    it: holes come back as \<^verbatim>\<open>null\<close>. Its lemmas show that the pass on cells
    refines the pass of \<open>Index_Reconciler\<close> under the abstraction \<open>abs_cells\<close>
    (a hole and \<^verbatim>\<open>null\<close> are both \<open>None\<close>), and that the stored form of a
    repaired index is a fixed point of the pass.
  \<^item> \<open>Load_Menu\<close>: the engine's side of the index. \<open>removeInvalidGlobalInfo\<close>
    and \<open>engine_loadGlobalInfo\<close> are the methods the plugin replaces;
    \<open>load_enabled\<close>, \<open>isAnySavefileExists\<close> and \<open>latestSavefileId\<close> are what the
    title screen and the Load menu compute from the installed index. Its
    lemmas compare the plugin's pass with the engine's removal id by id, show
    that after the plugin's boot the menu offers exactly the save files that
    exist, and say on which slot the cursor starts after a repair.
  \<^item> This theory: the properties that need the loader, the synthesis and the
    extractor together.

  \<^bold>\<open>How the model corresponds to the code\<close>

  Asynchronous functions are modelled twice. In the theories up to
  \<open>Index_Loader\<close> each is a function from the state before the call to the state
  after its promise has settled, with \<open>Inr\<close> for a fulfilled and \<open>Inl\<close> for a
  rejected promise. The plugin awaits every promise it creates before it
  continues, and no other code of the plugin runs in between, so the order of
  effects is the program order. In \<open>Async_Machine\<close> the code is a step function
  between suspension points, and the two models are proved to agree. When
  \<open>loadGlobalInfo\<close> is called again before the first chain has settled,
  callbacks of both chains are pending; JavaScript runs them one at a time in
  the order the storage answers, which \<open>Concurrent_Boots\<close> leaves open. The
  local variables of a call (\<^verbatim>\<open>pendingGlobalInfo\<close>, \<^verbatim>\<open>i\<close>, \<^verbatim>\<open>infoUpdated\<close>,
  \<^verbatim>\<open>info\<close>) belong to its chain, and storage hands each chain an array of
  its own, so the chains share no array. The
  array that \<^verbatim>\<open>updateGlobalInfo\<close> mutates is the one its caller installs
  afterwards, also when the pass was rejected; the model therefore returns the
  array in both cases. \<^verbatim>\<open>Date.now()\<close> is the function \<open>dateNow\<close> of the world
  applied to the number of reads so far, so that theorems hold for every clock.

  \<^bold>\<open>Bounds and assumptions\<close>

  \<^item> The loop is total by its measure, everything else in the settled model is
    structural recursion. The only fuel is the step count of \<open>run\<close>; theorem
    \<open>run_settles\<close> shows that \<open>2 * (maxSavefiles + 1) + 2\<close> steps always suffice:
    one callback for the stored index, at most two steps for each id (up to
    the \<^verbatim>\<open>await\<close> and after it), one callback at the end. A schedule of two
    chains (\<open>interleave\<close>) is a list of turns; \<open>overlapping_boots_settle\<close> shows
    that it is long enough when it gives each chain that many turns.
  \<^item> The theorems about two chains assume \<open>disk_readable\<close>: every save file
    in range that exists can be loaded. The disk does not change while a chain
    runs; the specification excludes concurrent writers.
  \<^item> JavaScript numbers are modelled as mathematical integers or \<^verbatim>\<open>NaN\<close> in
    every theory but \<open>JS_Double\<close>. For the playtime this is exact while the
    frame count is at most \<open>2^53\<close> in magnitude (at 60 frames a second, more
    than four million years): \<open>extractPlaytime_double_exact\<close>. The bound is
    the one below which the JSON numeral of the frame count is read without
    rounding; at \<open>2^53 + 27\<close> frames the binary64 result is already one second
    ahead. \<open>rne\<close> has no overflow to \<^verbatim>\<open>Infinity\<close>, which the quotients of
    numbers in that range cannot reach; its subnormal range starts at the
    exponent \<open>-1074\<close>. Ids are natural numbers far below the bound.
  \<^item> The code takes what the storage resolves with as it is (line 96). The
    model lets it be an array or \<^verbatim>\<open>null\<close>; the theorems about a repaired index
    assume \<open>stored_array\<close>, that is an array or a rejected load, and
    \<open>null_index_never_loaded\<close> covers the other case. Other values that are
    not arrays (numbers, strings, objects) are not modelled. In the theories
    on \<open>'a option list\<close> a cell that is \<^verbatim>\<open>null\<close> is \<open>None\<close> like a hole;
    \<open>updateGlobalInfo_cells_refines\<close> shows that the code cannot tell them
    apart. An entry that is an object is truthy; cells that hold a number, a
    string or a boolean are not modelled. An id is a natural number,
    \<^verbatim>\<open>$dataSystem\<close> is loaded, and \<^verbatim>\<open>saveGlobalInfo\<close> succeeds.
  \<^item> \<open>padZero\<close>, \<open>saveGlobalInfo\<close> and \<open>isGlobalInfoLoaded\<close> belong to the
    engine and are modelled from their documented behaviour, and so is the
    boot scene as far as it matters here: \<open>boot_ready w h n\<close> is what its poll
    of \<^verbatim>\<open>isGlobalInfoLoaded()\<close> gives when \<open>n\<close> steps of the chain have run.
    The definitions of \<open>Load_Menu\<close> and \<open>json_roundtrip\<close> follow the engine's
    code (\<^verbatim>\<open>rmmz_managers.js\<close>, \<^verbatim>\<open>rmmz_windows.js\<close>) and the JSON form of an
    array; \<open>rne\<close> follows IEEE 754.
  \<^item> The global objects of \<open>Plugin_Registration\<close> hold, for each method, whose
    code it is bound to; what a method of another plugin does is not
    modelled.

  \<^bold>\<open>Not modelled\<close>

  The licence and the help text (lines 1-29 and 37-87, comments); nothing
  else of the file is left out. Of the engine, which is not part of the
  repository: what the Load menu draws from an entry (only which slots it
  enables and where its cursor starts are modelled), the storage back ends
  and their compression, and code that runs while the chain is pending and
  changes what the chain reads. Of JavaScript: \<^verbatim>\<open>Infinity\<close>, the decimal form
  of a Number that is not an integer (the playtime fields are integers or
  \<^verbatim>\<open>NaN\<close>), and values of the wrong type in the index or in a payload beyond
  the absent parts that \<open>Index_Typing\<close> tracks.

  \<^bold>\<open>What the development found\<close>

  \<^item> A save file that exists but cannot be loaded rejects
    \<^verbatim>\<open>makeMissingSaveInfo\<close> (the \<^verbatim>\<open>await\<close> stands before the \<^verbatim>\<open>try\<close>), which ends the
    loop: later ids are not reconciled and the partly repaired index is
    installed but not saved (\<open>loadGlobalInfo_failure_not_saved\<close>,
    \<open>reconcile_pass_aborts\<close>, \<open>synthesis_load_failure\<close>). The specification
    asks for the placeholder entry and a loop that goes on;
    \<open>updateGlobalInfo_conforms\<close> shows that the code does that exactly when no
    such save file is met.
  \<^item> A payload whose system record has no frame count yields the playtime
    \<^verbatim>\<open>NaN:NaN:NaN\<close> instead of the placeholder
    (\<open>extractPlaytime_missing_frames\<close>); \<open>synthesised_typed_iff\<close> gives the
    payloads for which the entry has the specified shape.
  \<^item> A load of the stored index that resolves with \<^verbatim>\<open>null\<close> is not replaced by
    the empty list: the pass throws at its first read, \<^verbatim>\<open>_globalInfo\<close> stays
    \<^verbatim>\<open>null\<close> and \<^verbatim>\<open>isGlobalInfoLoaded()\<close> never becomes true
    (\<open>null_index_never_loaded\<close>, \<open>boot_scene_proceeds\<close>).
  \<^item> The order in which the ids are visited shows in the result only through
    the timestamps, which are the clock readings in that order, and through
    the order of the console lines (\<open>pass_order_independent\<close>); the
    specification calls the final index content independent of the order.
  \<^item> Nothing keeps two calls of \<open>loadGlobalInfo\<close> from overlapping, which the
    specification leaves to the caller. On a readable disk they do no harm:
    the index that is installed last is the one that is stored, and it
    agrees with the disk (\<open>overlapping_boots_consistent\<close>).
  \<^item> The comment at line 119 says that \<^verbatim>\<open>updateGlobalInfo\<close> supersedes the
    engine's \<^verbatim>\<open>removeInvalidGlobalInfo\<close>. It does for the ids up to
    \<^verbatim>\<open>maxSavefiles()\<close>; an entry stored beyond them whose save file is gone
    is removed by the engine's method and kept by the plugin's
    (\<open>updateGlobalInfo_supersedes\<close>), and it still makes the title screen
    offer Continue (\<open>boot_makes_saves_accessible\<close>).
  \<^item> \<^verbatim>\<open>delete\<close> leaves a hole, and a hole is stored as \<^verbatim>\<open>null\<close>: the persisted
    index has a \<^verbatim>\<open>null\<close> for every id within its length that has no entry,
    where the specification says that such ids are simply absent. The code
    reads \<^verbatim>\<open>null\<close> as an absent entry, so the next boot is not affected
    (\<open>persisted_index_stable\<close>).
  \<^item> A restored entry carries the time of the repair, and the engine takes
    the entry with the greatest timestamp for the latest save: after a
    repair the Load menu starts on a restored slot, whichever save the
    player made last (\<open>restored_slot_is_latest\<close>).
\<close>

section \<open>The sample world evaluated\<close>

lemma loadObject_healthy_1:
  "loadObject healthy_world (makeSavename healthy_world 1) = Inr sample_save"
  by (simp add: healthy_world_def sample_world_def digits10_small digit_char_def)

section \<open>Properties of the whole boot\<close>

text \<open>
  \<^bold>\<open>C27\<close> Every entry of the installed index is accounted for. Whether
  or not the pass resolved, an entry of the index that the boot installs is
  either the entry the stored index had for that id, or it belongs to an
  existing save file in range that had no entry and is the summary
  \<open>expected_info\<close> of that file's payload, stamped with a reading of the clock.
\<close>

theorem boot_entries_sound:
  assumes "globalInfo (loadGlobalInfo w h) = Some g" and "js_get g s = Some info"
  shows "js_get (pending_of h) s = Some info \<or>
         (js_get (pending_of h) s = None \<and> int s \<le> maxSavefiles w \<and> savefileExists w s \<and>
          (\<exists>sc k. loadObject w (makeSavename w s) = Inr sc \<and>
                  info = expected_info w sc (dateNow w k)))"
proof -
  from assms(1) loadGlobalInfo_installs [of w h] have "stored_array h"
    by simp
  then show ?thesis
  proof (rule loadGlobalInfo_run [of h w])
    fix g' h' res
    assume "updateGlobalInfo w (pending_of h) (snd (loadStoredGlobal h)) = (g', h', res)"
      and "globalInfo (loadGlobalInfo w h) = Some g'"
    with assms show ?thesis
      by (intro updateGlobalInfo_entry [of w _ _ g' h' res]) simp_all
  qed
qed

theorem boot_entries_sound_witness:
  "globalInfo (loadGlobalInfo healthy_world sample_host) =
     Some [None, Some (expected_info healthy_world sample_save 1000), None,
           Some (expected_info healthy_world empty_save 1001)] \<and>
   (js_get (pending_of sample_host) 1 = Some (expected_info healthy_world sample_save 1000) \<or>
    (js_get (pending_of sample_host) 1 = None \<and> int 1 \<le> maxSavefiles healthy_world \<and>
     savefileExists healthy_world 1 \<and>
     (\<exists>sc k. loadObject healthy_world (makeSavename healthy_world 1) = Inr sc \<and>
        expected_info healthy_world sample_save 1000 =
          expected_info healthy_world sc (dateNow healthy_world k))))"
proof -
  have run: "globalInfo (loadGlobalInfo healthy_world sample_host) =
     Some [None, Some (expected_info healthy_world sample_save 1000), None,
           Some (expected_info healthy_world empty_save 1001)]"
    by code_simp
  have "js_get [None, Some (expected_info healthy_world sample_save 1000), None,
           Some (expected_info healthy_world empty_save 1001)] 1 =
        Some (expected_info healthy_world sample_save 1000)"
    by (simp add: js_get_def)
  from boot_entries_sound [OF run this] run show ?thesis by simp
qed

text \<open>
  \<^bold>\<open>C28\<close> Entries of existing save files are never rewritten. An entry
  that the stored index has for an existing save file is in the installed index
  unchanged, at the same id, whatever happens to other ids and whether or not
  the pass resolved.
\<close>

theorem boot_preserves_existing:
  assumes "js_get (pending_of h) s = Some info" and "savefileExists w s"
  shows "\<exists>g. globalInfo (loadGlobalInfo w h) = Some g \<and> js_get g s = Some info"
proof (rule loadGlobalInfo_run [OF pending_of_entry [OF assms(1)], of w])
  fix g h' res
  assume run: "updateGlobalInfo w (pending_of h) (snd (loadStoredGlobal h)) = (g, h', res)"
    and out: "globalInfo (loadGlobalInfo w h) = Some g"
  from updateGlobalInfo_kept [OF run assms(2)] assms(1) have "js_get g s = Some info"
    by simp
  with out show ?thesis by blast
qed

theorem boot_preserves_existing_witness:
  "js_get (pending_of partial_host) 1 = Some sample_info \<and> savefileExists healthy_world 1 \<and>
   (\<exists>g. globalInfo (loadGlobalInfo healthy_world partial_host) = Some g \<and>
        js_get g 1 = Some sample_info)"
proof -
  have pre: "js_get (pending_of partial_host) 1 = Some sample_info" "savefileExists healthy_world 1"
    by code_simp+
  from boot_preserves_existing [OF pre] pre show ?thesis by simp
qed

text \<open>
  \<^bold>\<open>C26\<close> A restored entry shows the save file's summary. If the
  stored index is an array (or cannot be loaded) and every save
  file that needs an entry can be read, then for a save file in range without
  an entry whose payload has a resolvable party and a non-negative frame count
  the installed entry carries the game title, the character and face sprites of
  the active party in roster order and the playtime \<open>HH:MM:SS\<close> of the frame
  count at 60 frames per second.
\<close>

theorem boot_restores_summary:
  assumes "stored_array h" and "loadable w (pending_of h)"
    and "int s \<le> maxSavefiles w" and "savefileExists w s" and "js_get (pending_of h) s = None"
    and "loadObject w (makeSavename w s) = Inr sc"
    and "portraits_ok sc" and "system sc = Some sys" and "framesOnSave sys = Some f" and "0 \<le> f"
  shows "\<exists>g info. globalInfo (loadGlobalInfo w h) = Some g \<and> js_get g s = Some info \<and>
           title info = gameTitle w \<and>
           characters info = map (character_of sc) (active_ids sc) \<and>
           faces info = map (face_of sc) (active_ids sc) \<and>
           playtime info = playtime_spec (nat f)"
proof (rule loadGlobalInfo_run [OF assms(1), of w])
  fix g h' res
  assume run: "updateGlobalInfo w (pending_of h) (snd (loadStoredGlobal h)) = (g, h', res)"
    and out: "globalInfo (loadGlobalInfo w h) = Some g"
  have "ok (snd (snd (updateGlobalInfo w (pending_of h) (snd (loadStoredGlobal h)))))"
    using assms(2) by (simp only: updateGlobalInfo_resolves_iff)
  then obtain u where res: "res = Inr u"
    by (cases res) (simp_all add: run)
  from updateGlobalInfo_ok(1) [OF run [unfolded res]] assms(3,4)
  obtain info where info: "js_get g s = Some info"
    by (auto simp: in_sync_iff reconciled_at_def)
  from updateGlobalInfo_entry [OF run info] assms(5,6)
  obtain k where "info = expected_info w sc (dateNow w k)" by auto
  with assms(7-10) have "title info = gameTitle w \<and>
      characters info = map (character_of sc) (active_ids sc) \<and>
      faces info = map (face_of sc) (active_ids sc) \<and> playtime info = playtime_spec (nat f)"
    by (simp add: expected_info_def default_info_def playtime_string_nonneg)
  with out info show ?thesis by blast
qed

theorem boot_restores_summary_witness:
  "stored_array sample_host \<and> loadable healthy_world (pending_of sample_host) \<and>
   int 1 \<le> maxSavefiles healthy_world \<and> savefileExists healthy_world 1 \<and>
   js_get (pending_of sample_host) 1 = None \<and>
   loadObject healthy_world (makeSavename healthy_world 1) = Inr sample_save \<and>
   portraits_ok sample_save \<and> system sample_save = Some \<lparr>framesOnSave = Some 5400\<rparr> \<and>
   (\<exists>g info. globalInfo (loadGlobalInfo healthy_world sample_host) = Some g \<and>
      js_get g 1 = Some info \<and> title info = ''Demo'' \<and>
      characters info = [(''Chara_C'', 2), (''Chara_A'', 0), (''Chara_B'', 1), (''Chara_E'', 4)] \<and>
      faces info = [(''Face_C'', 3), (''Face_A'', 1), (''Face_B'', 2), (''Face_E'', 5)] \<and>
      playtime info = ''00:01:30'')"
proof -
  have pre: "int 1 \<le> maxSavefiles healthy_world" "savefileExists healthy_world 1"
    "js_get (pending_of sample_host) 1 = None" "portraits_ok sample_save"
    "system sample_save = Some \<lparr>framesOnSave = Some 5400\<rparr>"
    by code_simp+
  have val: "gameTitle healthy_world = ''Demo''"
    "map (character_of sample_save) (active_ids sample_save) =
       [(''Chara_C'', 2), (''Chara_A'', 0), (''Chara_B'', 1), (''Chara_E'', 4)]"
    "map (face_of sample_save) (active_ids sample_save) =
       [(''Face_C'', 3), (''Face_A'', 1), (''Face_B'', 2), (''Face_E'', 5)]"
    "playtime_spec (nat 5400) = ''00:01:30''"
    by code_simp+
  from boot_restores_summary [OF stored_array_sample(1) loadable_healthy pre(1-3)
      loadObject_healthy_1 pre(4,5), of 5400]
  have "\<exists>g info. globalInfo (loadGlobalInfo healthy_world sample_host) = Some g \<and>
      js_get g 1 = Some info \<and> title info = ''Demo'' \<and>
      characters info = [(''Chara_C'', 2), (''Chara_A'', 0), (''Chara_B'', 1), (''Chara_E'', 4)] \<and>
      faces info = [(''Face_C'', 3), (''Face_A'', 1), (''Face_B'', 2), (''Face_E'', 5)] \<and>
      playtime info = ''00:01:30''"
    by (simp only: val) simp
  with stored_array_sample(1) loadable_healthy pre loadObject_healthy_1 show ?thesis by blast
qed

end
